(* ===== verification/Prelude.thy ===== *)
theory Prelude
  imports Complex_Main "HOL-Library.Word"
begin

text \<open>
  Shared vocabulary of the development: the machine types of the C++ code, the result of running
  a piece of it, programs over an explicit state with their two proof calculi (symbolic execution
  by rewriting, preservation of invariants by introduction rules), and \<open>std::map\<close>.
\<close>

section \<open>Machine types\<close>

type_synonym u8 = "8 word"
type_synonym u16 = "16 word"
type_synonym u32 = "32 word"
type_synonym u64 = "64 word"

text \<open>
  A finite IEEE double is a rational number. The code compares doubles, truncates them, adds whole
  minutes to points in time in milliseconds, and hands them to a library: of the doubles that occur
  there the results are exact.
\<close>

type_synonym double = rat

named_theorems prog_simps "symbolic execution of programs"
named_theorems keeps_intros "preservation of invariants by programs"
named_theorems quiet_intros "programs that raise no exception"

section \<open>Outcomes and programs\<close>

text \<open>
  Running code returns normally, leaves by an exception derived from \<open>std::exception\<close> (kept with
  its \<open>what()\<close> text), runs into behaviour the C++ standard leaves undefined, or waits for
  something only another thread can do. Effects before an exception stay, so a program returns
  the state in every case.
\<close>

datatype 'a outcome = Ret 'a | Throw string | Undef | Block

type_synonym ('s, 'a) prog = "'s \<Rightarrow> 'a outcome \<times> 's"

definition ret :: "'a \<Rightarrow> ('s, 'a) prog" where
  "ret a = (\<lambda>s. (Ret a, s))"

definition throw :: "string \<Rightarrow> ('s, 'a) prog" where
  "throw e = (\<lambda>s. (Throw e, s))"

definition undef :: "('s, 'a) prog" where
  "undef = (\<lambda>s. (Undef, s))"

definition block :: "('s, 'a) prog" where
  "block = (\<lambda>s. (Block, s))"

definition lift :: "'a outcome \<Rightarrow> ('s, 'a) prog" where
  "lift x = (\<lambda>s. (x, s))"

definition gets :: "('s \<Rightarrow> 'a) \<Rightarrow> ('s, 'a) prog" where
  "gets f = (\<lambda>s. (Ret (f s), s))"

definition modify :: "('s \<Rightarrow> 's) \<Rightarrow> ('s, unit) prog" where
  "modify f = (\<lambda>s. (Ret (), f s))"

definition bnd :: "('s, 'a) prog \<Rightarrow> ('a \<Rightarrow> ('s, 'b) prog) \<Rightarrow> ('s, 'b) prog" where
  "bnd m f = (\<lambda>s. case m s of
     (Ret a, t) \<Rightarrow> f a t
   | (Throw e, t) \<Rightarrow> (Throw e, t)
   | (Undef, t) \<Rightarrow> (Undef, t)
   | (Block, t) \<Rightarrow> (Block, t))"

text \<open>\<open>try ... catch (const std::exception &e)\<close>: only an exception reaches the handler.\<close>

definition catch :: "('s, 'a) prog \<Rightarrow> (string \<Rightarrow> ('s, 'a) prog) \<Rightarrow> ('s, 'a) prog" where
  "catch m h = (\<lambda>s. case m s of (Throw e, t) \<Rightarrow> h e t | r \<Rightarrow> r)"

text \<open>A loop over a list whose body may leave early, and one that threads an accumulator.\<close>

primrec for_each :: "'x list \<Rightarrow> ('x \<Rightarrow> ('s, unit) prog) \<Rightarrow> ('s, unit) prog" where
  "for_each [] f = ret ()"
| "for_each (x # xs) f = bnd (f x) (\<lambda>_. for_each xs f)"

primrec fold_prog :: "('x \<Rightarrow> 'a \<Rightarrow> ('s, 'a) prog) \<Rightarrow> 'x list \<Rightarrow> 'a \<Rightarrow> ('s, 'a) prog" where
  "fold_prog f [] a = ret a"
| "fold_prog f (x # xs) a = bnd (f x a) (\<lambda>b. fold_prog f xs b)"

text \<open>Pure conversions that may fail (of a JSON value, of a result cell) compose likewise.\<close>

definition obind :: "'a outcome \<Rightarrow> ('a \<Rightarrow> 'b outcome) \<Rightarrow> 'b outcome" where
  "obind m f = (case m of Ret a \<Rightarrow> f a | Throw e \<Rightarrow> Throw e | Undef \<Rightarrow> Undef | Block \<Rightarrow> Block)"

lemma obind_simps [simp, prog_simps]:
  "obind (Ret a) f = f a"
  "obind (Throw e) f = Throw e"
  "obind Undef f = Undef"
  "obind Block f = Block"
  by (simp_all add: obind_def)

lemma obind_eq_Ret: "obind m f = Ret b \<longleftrightarrow> (\<exists>a. m = Ret a \<and> f a = Ret b)"
  by (cases m) simp_all

subsection \<open>Symbolic execution\<close>

lemma bnd_simps [simp, prog_simps]:
  "bnd (ret a) f = f a"
  "bnd (throw e) f = throw e"
  "bnd undef f = undef"
  "bnd block f = block"
  by (simp_all add: bnd_def ret_def throw_def undef_def block_def fun_eq_iff)

lemma lift_simps [simp, prog_simps]:
  "lift (Ret a) = ret a"
  "lift (Throw e) = throw e"
  "lift Undef = undef"
  "lift Block = block"
  by (simp_all add: lift_def ret_def throw_def undef_def block_def)

lemma run_simps [prog_simps]:
  "ret a s = (Ret a, s)"
  "throw e s = (Throw e, s)"
  "undef s = (Undef, s)"
  "block s = (Block, s)"
  "gets g s = (Ret (g s), s)"
  "modify h s = (Ret (), h s)"
  by (simp_all add: ret_def throw_def undef_def block_def gets_def modify_def)

lemma bnd_run [prog_simps]:
  "m s = (Ret a, t) \<Longrightarrow> bnd m f s = f a t"
  "m s = (Throw e, t) \<Longrightarrow> bnd m f s = (Throw e, t)"
  "m s = (Undef, t) \<Longrightarrow> bnd m f s = (Undef, t)"
  "m s = (Block, t) \<Longrightarrow> bnd m f s = (Block, t)"
  by (simp_all add: bnd_def)

lemma bnd_gets [prog_simps]: "bnd (gets g) f s = f (g s) s"
  by (simp add: bnd_def gets_def)

lemma bnd_modify [prog_simps]: "bnd (modify h) f s = f () (h s)"
  by (simp add: bnd_def modify_def)

lemma bnd_assoc: "bnd (bnd m f) g = bnd m (\<lambda>x. bnd (f x) g)"
  by (auto simp: bnd_def fun_eq_iff split: prod.splits outcome.splits)

lemma catch_run [prog_simps]:
  "m s = (Ret a, t) \<Longrightarrow> catch m h s = (Ret a, t)"
  "m s = (Throw e, t) \<Longrightarrow> catch m h s = h e t"
  "m s = (Undef, t) \<Longrightarrow> catch m h s = (Undef, t)"
  "m s = (Block, t) \<Longrightarrow> catch m h s = (Block, t)"
  by (simp_all add: catch_def)

lemma bnd_Ret_iff:
  "bnd m f s = (Ret b, u) \<longleftrightarrow> (\<exists>a t. m s = (Ret a, t) \<and> f a t = (Ret b, u))"
  by (auto simp: bnd_def split: prod.splits outcome.splits)

subsection \<open>Preservation of invariants\<close>

text \<open>
  \<open>keeps P m\<close>: whatever way \<open>m\<close> ends, it ends in a state that satisfies \<open>P\<close> if it started in
  one. With \<open>P\<close> of the form \<open>\<lambda>s. f s = c\<close> this is a frame property.
\<close>

definition keeps :: "('s \<Rightarrow> bool) \<Rightarrow> ('s, 'a) prog \<Rightarrow> bool" where
  "keeps P m \<longleftrightarrow> (\<forall>s. P s \<longrightarrow> P (snd (m s)))"

lemma keepsI: "(\<And>s. P s \<Longrightarrow> P (snd (m s))) \<Longrightarrow> keeps P m"
  by (simp add: keeps_def)

lemma keepsI_pair: "(\<And>a w. P (a, w) \<Longrightarrow> P (snd (m (a, w)))) \<Longrightarrow> keeps P m"
  by (auto simp: keeps_def)

lemma keepsD: "keeps P m \<Longrightarrow> P s \<Longrightarrow> P (snd (m s))"
  by (simp add: keeps_def)

lemma keeps_run: "keeps P m \<Longrightarrow> m s = (r, t) \<Longrightarrow> P s \<Longrightarrow> P t"
  by (auto dest: keepsD)

lemma keeps_pure [keeps_intros]:
  "keeps P (ret a)" "keeps P (throw e)" "keeps P undef" "keeps P block"
  "keeps P (lift x)" "keeps P (gets f)"
  by (simp_all add: keeps_def ret_def throw_def undef_def block_def lift_def gets_def)

lemma keeps_modify: "(\<And>s. P s \<Longrightarrow> P (f s)) \<Longrightarrow> keeps P (modify f)"
  by (simp add: keeps_def modify_def)

lemma keeps_bnd [keeps_intros]:
  "keeps P m \<Longrightarrow> (\<And>a. keeps P (f a)) \<Longrightarrow> keeps P (bnd m f)"
  unfolding keeps_def bnd_def
  by (auto split: prod.splits outcome.splits)

lemma keeps_catch [keeps_intros]:
  "keeps P m \<Longrightarrow> (\<And>e. keeps P (h e)) \<Longrightarrow> keeps P (catch m h)"
  unfolding keeps_def catch_def
  by (auto split: prod.splits outcome.splits)

lemma keeps_if [keeps_intros]:
  "(b \<Longrightarrow> keeps P m) \<Longrightarrow> (\<not> b \<Longrightarrow> keeps P n) \<Longrightarrow> keeps P (if b then m else n)"
  by simp

lemma keeps_option [keeps_intros]:
  "keeps P m \<Longrightarrow> (\<And>a. keeps P (f a)) \<Longrightarrow> keeps P (case x of None \<Rightarrow> m | Some a \<Rightarrow> f a)"
  by (simp split: option.split)

lemma keeps_list [keeps_intros]:
  "keeps P m \<Longrightarrow> (\<And>y ys. keeps P (f y ys)) \<Longrightarrow> keeps P (case x of [] \<Rightarrow> m | y # ys \<Rightarrow> f y ys)"
  by (simp split: list.split)

lemma keeps_prod [keeps_intros]:
  "(\<And>a b. keeps P (f a b)) \<Longrightarrow> keeps P (case x of (a, b) \<Rightarrow> f a b)"
  by (simp split: prod.split)

lemma keeps_for_each [keeps_intros]: "(\<And>x. keeps P (f x)) \<Longrightarrow> keeps P (for_each xs f)"
  by (induction xs) (auto intro: keeps_intros)

lemma keeps_fold_prog [keeps_intros]: "(\<And>x a. keeps P (f x a)) \<Longrightarrow> keeps P (fold_prog f xs a)"
  by (induction xs arbitrary: a) (auto intro: keeps_intros)

lemma keeps_let [keeps_intros]: "keeps P (f x) \<Longrightarrow> keeps P (let y = x in f y)"
  by simp

subsection \<open>Programs that raise no exception\<close>

definition quiet :: "('s, 'a) prog \<Rightarrow> bool" where
  "quiet m \<longleftrightarrow> (\<forall>s e. fst (m s) \<noteq> Throw e)"

lemma quietD: "quiet m \<Longrightarrow> m s = (Throw e, t) \<Longrightarrow> False"
  unfolding quiet_def by (metis fst_conv)

lemma quiet_pure [quiet_intros]:
  "quiet (ret a)" "quiet undef" "quiet block" "quiet (gets f)" "quiet (modify g)"
  by (simp_all add: quiet_def ret_def undef_def block_def gets_def modify_def)

lemma quiet_bnd [quiet_intros]: "quiet m \<Longrightarrow> (\<And>a. quiet (f a)) \<Longrightarrow> quiet (bnd m f)"
  unfolding quiet_def bnd_def
  by (auto split: prod.splits outcome.splits) (metis fst_conv)

lemma quiet_catch [quiet_intros]: "(\<And>e. quiet (h e)) \<Longrightarrow> quiet (catch m h)"
  unfolding quiet_def catch_def by (auto split: prod.splits outcome.splits)

lemma quiet_if [quiet_intros]:
  "(b \<Longrightarrow> quiet m) \<Longrightarrow> (\<not> b \<Longrightarrow> quiet n) \<Longrightarrow> quiet (if b then m else n)"
  by simp

lemma quiet_option [quiet_intros]:
  "quiet m \<Longrightarrow> (\<And>a. quiet (f a)) \<Longrightarrow> quiet (case x of None \<Rightarrow> m | Some a \<Rightarrow> f a)"
  by (simp split: option.split)

lemma quiet_for_each [quiet_intros]: "(\<And>x. quiet (f x)) \<Longrightarrow> quiet (for_each xs f)"
  by (induction xs) (auto intro: quiet_intros)

lemma quiet_fold_prog [quiet_intros]: "(\<And>x a. quiet (f x a)) \<Longrightarrow> quiet (fold_prog f xs a)"
  by (induction xs arbitrary: a) (auto intro: quiet_intros)

subsection \<open>Programs on a part of the state\<close>

text \<open>The state of a method is the object and the state the objects share.\<close>

definition on_fst :: "('a, 'r) prog \<Rightarrow> ('a \<times> 'w, 'r) prog" where
  "on_fst m = (\<lambda>(a, w). case m a of (r, b) \<Rightarrow> (r, (b, w)))"

definition on_snd :: "('w, 'r) prog \<Rightarrow> ('a \<times> 'w, 'r) prog" where
  "on_snd m = (\<lambda>(a, w). case m w of (r, v) \<Rightarrow> (r, (a, v)))"

lemma on_parts_run [prog_simps]:
  "on_fst m (a, w) = (case m a of (r, b) \<Rightarrow> (r, (b, w)))"
  "on_snd n (a, w) = (case n w of (r, v) \<Rightarrow> (r, (a, v)))"
  by (simp_all add: on_fst_def on_snd_def)

lemma bnd_on_parts [prog_simps]:
  "bnd (on_fst (modify f)) g (a, w) = g () (f a, w)"
  "bnd (on_snd (modify h)) g (a, w) = g () (a, h w)"
  by (simp_all add: bnd_def on_fst_def on_snd_def modify_def)

lemma bnd_on_snd [prog_simps]:
  "m w = (Ret x, v) \<Longrightarrow> bnd (on_snd m) g (a, w) = g x (a, v)"
  "m w = (Throw e, v) \<Longrightarrow> bnd (on_snd m) g (a, w) = (Throw e, (a, v))"
  "m w = (Undef, v) \<Longrightarrow> bnd (on_snd m) g (a, w) = (Undef, (a, v))"
  "m w = (Block, v) \<Longrightarrow> bnd (on_snd m) g (a, w) = (Block, (a, v))"
  by (simp_all add: bnd_def on_snd_def)

lemma quiet_on_parts [quiet_intros]: "quiet m \<Longrightarrow> quiet (on_fst m)" "quiet m \<Longrightarrow> quiet (on_snd m)"
  unfolding quiet_def on_fst_def on_snd_def by (auto split: prod.splits) (metis fst_conv)+

lemma keeps_on_snd: "(\<And>a. keeps (\<lambda>w. P (a, w)) m) \<Longrightarrow> keeps P (on_snd m)"
  by (auto simp: keeps_def on_snd_def split: prod.splits) (metis snd_conv)

lemma keeps_on_fst: "(\<And>w. keeps (\<lambda>a. P (a, w)) m) \<Longrightarrow> keeps P (on_fst m)"
  by (auto simp: keeps_def on_fst_def split: prod.splits) (metis snd_conv)

lemma keeps_second [keeps_intros]:
  "keeps R m \<Longrightarrow> keeps (\<lambda>(a, w). R w) (on_snd m)" "keeps (\<lambda>(a, w). R w) (on_fst n)"
  by (auto simp: keeps_def on_snd_def on_fst_def split: prod.splits)

section \<open>Ordered maps\<close>

text \<open>
  A \<open>std::map\<close> is the list of its entries in the order of the keys, which is the order its
  iterators follow: \<open>m[k] = v\<close> and \<open>m.erase(k)\<close>; \<open>m.find(k)\<close> is \<^const>\<open>map_of\<close>.
\<close>

primrec om_put :: "'k::linorder \<Rightarrow> 'v \<Rightarrow> ('k \<times> 'v) list \<Rightarrow> ('k \<times> 'v) list" where
  "om_put k v [] = [(k, v)]"
| "om_put k v (p # m) =
     (if k < fst p then (k, v) # p # m else if k = fst p then (k, v) # m else p # om_put k v m)"

definition om_erase :: "'k \<Rightarrow> ('k \<times> 'v) list \<Rightarrow> ('k \<times> 'v) list" where
  "om_erase k m = filter (\<lambda>(k', v). k' \<noteq> k) m"

definition om_ok :: "('k::linorder \<times> 'v) list \<Rightarrow> bool" where
  "om_ok m \<longleftrightarrow> sorted_wrt (<) (map fst m)"

lemma set_om_put: "set (om_put k v m) \<subseteq> insert (k, v) (set m)"
  by (induction m) auto

lemma om_ok_put [simp]: "om_ok m \<Longrightarrow> om_ok (om_put k v m)"
proof (induction m)
  case Nil then show ?case by (simp add: om_ok_def)
next
  case (Cons p m)
  then have "om_ok (om_put k v m)" by (simp add: om_ok_def)
  with Cons.prems set_om_put [of k v m] show ?case by (auto simp: om_ok_def)
qed

lemma om_ok_erase [simp]: "om_ok m \<Longrightarrow> om_ok (om_erase k m)"
  by (induction m) (auto simp: om_ok_def om_erase_def)

lemma om_ok_Nil [simp]: "om_ok []"
  by (simp add: om_ok_def)

lemma map_of_om_put [simp]: "map_of (om_put k v m) = (map_of m)(k \<mapsto> v)"
  by (induction m) (auto simp: fun_eq_iff)

lemma map_of_om_erase [simp]: "map_of (om_erase k m) = (map_of m)(k := None)"
  by (induction m) (auto simp: om_erase_def fun_eq_iff)

lemma om_distinct: "om_ok m \<Longrightarrow> distinct (map fst m)"
  unfolding om_ok_def by (induction m) fastforce+

lemma om_map_of_eq: "om_ok m \<Longrightarrow> map_of m k = Some v \<longleftrightarrow> (k, v) \<in> set m"
  by (simp add: om_distinct)

end
