(* ===== verification/CxxString.thy ===== *)
theory CxxString
  imports Prelude
begin

text \<open>
  The part of \<open>std::string\<close> and of the numeric conversions the code uses. Sizes and positions are
  values of \<open>size_t\<close>, a natural number below \<open>2 ^ 64\<close>; where the code adds to a position that may
  be \<open>npos\<close> the wrap-around is written out with \<open>sz\<close>.
\<close>

section \<open>Positions\<close>

definition npos :: nat where
  "npos = 2 ^ 64 - 1"

definition sz :: "int \<Rightarrow> nat" where
  "sz n = nat (n mod 2 ^ 64)"

lemma sz_small: "0 \<le> n \<Longrightarrow> n < 2 ^ 64 \<Longrightarrow> sz n = nat n"
  by (simp add: sz_def)

lemma sz_npos_plus: "sz (int npos + 10) = 9"
  by (simp add: sz_def npos_def)

primrec find_idx :: "('a \<Rightarrow> bool) \<Rightarrow> 'a list \<Rightarrow> nat option" where
  "find_idx p [] = None"
| "find_idx p (x # xs) = (if p x then Some 0 else map_option Suc (find_idx p xs))"

definition str_find :: "string \<Rightarrow> char \<Rightarrow> nat" where
  "str_find s c = (case find_idx ((=) c) s of None \<Rightarrow> npos | Some i \<Rightarrow> i)"

definition str_rfind :: "string \<Rightarrow> char \<Rightarrow> nat" where
  "str_rfind s c = (case find_idx ((=) c) (rev s) of None \<Rightarrow> npos | Some i \<Rightarrow> length s - 1 - i)"

text \<open>\<open>substr(pos, n)\<close> throws \<open>out_of_range\<close> past the end; \<open>n\<close> is cut to what is left.\<close>

definition substr :: "string \<Rightarrow> nat \<Rightarrow> nat \<Rightarrow> string outcome" where
  "substr s pos n =
     (if length s < pos then Throw ''basic_string::substr'' else Ret (take n (drop pos s)))"

lemma find_idx_append_stop:
  "list_all (\<lambda>x. \<not> p x) xs \<Longrightarrow> p y \<Longrightarrow> find_idx p (xs @ y # ys) = Some (length xs)"
  by (induction xs) auto

lemma find_idx_None_iff: "find_idx p xs = None \<longleftrightarrow> list_all (\<lambda>x. \<not> p x) xs"
  by (induction xs) auto

lemma find_idx_SomeD:
  "find_idx p xs = Some i \<Longrightarrow> i < length xs \<and> p (xs ! i) \<and> list_all (\<lambda>x. \<not> p x) (take i xs)"
  by (induction xs arbitrary: i) (auto split: if_splits)

lemma list_all_neq_iff: "list_all (\<lambda>x. c \<noteq> x) xs \<longleftrightarrow> c \<notin> set xs"
  by (induction xs) auto

lemma str_find_stop: "c \<notin> set xs \<Longrightarrow> str_find (xs @ c # ys) c = length xs"
  by (simp add: str_find_def find_idx_append_stop list_all_neq_iff)

lemma str_find_none: "c \<notin> set xs \<Longrightarrow> str_find xs c = npos"
proof -
  assume "c \<notin> set xs"
  then have "find_idx ((=) c) xs = None" by (simp add: find_idx_None_iff list_all_neq_iff)
  then show ?thesis by (simp add: str_find_def)
qed

lemma str_rfind_stop: "c \<notin> set ys \<Longrightarrow> str_rfind (xs @ c # ys) c = length xs"
proof -
  assume "c \<notin> set ys"
  then have "find_idx ((=) c) (rev ys @ c # rev xs) = Some (length ys)"
    using find_idx_append_stop [of "(=) c" "rev ys" c "rev xs"] by (simp add: list_all_neq_iff)
  then show ?thesis by (simp add: str_rfind_def)
qed

lemma str_rfind_none: "c \<notin> set xs \<Longrightarrow> str_rfind xs c = npos"
proof -
  assume "c \<notin> set xs"
  then have "find_idx ((=) c) (rev xs) = None"
    by (simp add: find_idx_None_iff list_all_neq_iff)
  then show ?thesis by (simp add: str_rfind_def)
qed

lemma substr_prefix [simp]: "substr (xs @ ys) (length xs) n = Ret (take n ys)"
  by (simp add: substr_def)

lemma substr_zero [simp]: "substr s 0 n = Ret (take n s)"
  by (simp add: substr_def)

lemma substr_throw_iff: "substr s pos n = Throw e \<Longrightarrow> length s < pos"
  by (simp add: substr_def split: if_splits)

text \<open>A \<open>const char*\<close> made from a string ends at the first zero byte.\<close>

definition c_str :: "string \<Rightarrow> string" where
  "c_str s = takeWhile (\<lambda>c. c \<noteq> CHR 0x00) s"

lemma c_str_id: "CHR 0x00 \<notin> set s \<Longrightarrow> c_str s = s"
  unfolding c_str_def by (induction s) auto

lemma c_str_idem [simp]: "c_str (c_str s) = c_str s"
  unfolding c_str_def takeWhile_eq_all_conv by (auto dest: set_takeWhileD)

section \<open>Reading lines\<close>

text \<open>
  \<open>while (getline(in, s, d)) v.push_back(s)\<close>: a separator ends an item, and a trailing separator
  adds no empty item, since extracting nothing before the end of the stream fails.
\<close>

function getlines :: "char \<Rightarrow> string \<Rightarrow> string list" where
  "getlines d s =
     (if s = [] then []
      else takeWhile (\<lambda>c. c \<noteq> d) s # getlines d (drop 1 (dropWhile (\<lambda>c. c \<noteq> d) s)))"
  by pat_completeness auto
termination
proof (relation "measure (\<lambda>(d, s). length s)")
  fix d :: char and s :: string
  assume "s \<noteq> []"
  moreover have "length (dropWhile (\<lambda>c. c \<noteq> d) s) \<le> length s"
    by (rule length_dropWhile_le)
  ultimately show "((d, drop 1 (dropWhile (\<lambda>c. c \<noteq> d) s)), d, s) \<in> measure (\<lambda>(d, s). length s)"
    by (cases s) auto
qed simp

declare getlines.simps [simp del]

lemma getlines_Nil [simp]: "getlines d [] = []"
  by (simp add: getlines.simps)

lemma getlines_stop: "d \<notin> set xs \<Longrightarrow> getlines d (xs @ d # ys) = xs # getlines d ys"
proof -
  assume d: "d \<notin> set xs"
  have 1: "takeWhile (\<lambda>c. c \<noteq> d) (xs @ d # ys) = xs"
    using d by (subst takeWhile_append2) auto
  have 2: "dropWhile (\<lambda>c. c \<noteq> d) (xs @ d # ys) = d # ys"
    using d by (subst dropWhile_append2) auto
  show ?thesis by (subst getlines.simps) (simp only: 1 2, simp)
qed

lemma getlines_last: "d \<notin> set xs \<Longrightarrow> xs \<noteq> [] \<Longrightarrow> getlines d xs = [xs]"
proof -
  assume d: "d \<notin> set xs" and ne: "xs \<noteq> []"
  have 1: "takeWhile (\<lambda>c. c \<noteq> d) xs = xs" using d unfolding takeWhile_eq_all_conv by auto
  have 2: "dropWhile (\<lambda>c. c \<noteq> d) xs = []" using d unfolding dropWhile_eq_Nil_conv by auto
  show ?thesis using ne by (subst getlines.simps) (simp only: 1 2, simp)
qed

section \<open>Letter case\<close>

definition toupper :: "char \<Rightarrow> char" where
  "toupper c = (let n = (of_char c :: nat) in if 97 \<le> n \<and> n \<le> 122 then char_of (n - 32) else c)"

definition tolower :: "char \<Rightarrow> char" where
  "tolower c = (let n = (of_char c :: nat) in if 65 \<le> n \<and> n \<le> 90 then char_of (n + 32) else c)"

text \<open>Evaluation of \<open>char_of\<close> on numerals, for closed terms.\<close>

lemmas char_eval = char_of_def bit_Suc_0_iff

section \<open>Decimal text\<close>

text \<open>\<open>std::to_string\<close> on unsigned values, and what \<open>stoul\<close> reads back from a run of digits.\<close>

definition digit :: "nat \<Rightarrow> char" where
  "digit n = char_of (48 + n)"

definition is_digit :: "char \<Rightarrow> bool" where
  "is_digit c \<longleftrightarrow> 48 \<le> (of_char c :: nat) \<and> (of_char c :: nat) \<le> 57"

definition digit_val :: "char \<Rightarrow> nat" where
  "digit_val c = of_char c - 48"

fun dec :: "nat \<Rightarrow> string" where
  "dec n = (if n < 10 then [digit n] else dec (n div 10) @ [digit (n mod 10)])"

declare dec.simps [simp del]

definition dec_int :: "int \<Rightarrow> string" where
  "dec_int i = (if i < 0 then CHR ''-'' # dec (nat (- i)) else dec (nat i))"

definition undec :: "string \<Rightarrow> nat" where
  "undec s = foldl (\<lambda>n c. 10 * n + digit_val c) 0 s"

lemma digit_props:
  assumes "n < 10"
  shows "is_digit (digit n)" "digit_val (digit n) = n"
proof -
  have "(of_char (digit n) :: nat) = 48 + n"
    using assms by (simp add: digit_def)
  then show "is_digit (digit n)" "digit_val (digit n) = n"
    using assms by (simp_all add: is_digit_def digit_val_def)
qed

lemma dec_digits: "list_all is_digit (dec n)"
proof (induction n rule: dec.induct)
  case (1 n)
  show ?case
  proof (cases "n < 10")
    case True
    then show ?thesis by (subst dec.simps) (simp add: digit_props)
  next
    case False
    with "1.IH" have "list_all is_digit (dec (n div 10))" by simp
    with False show ?thesis by (subst dec.simps) (simp add: digit_props)
  qed
qed

lemma undec_snoc: "undec (s @ [c]) = 10 * undec s + digit_val c"
  by (simp add: undec_def)

lemma undec_dec [simp]: "undec (dec n) = n"
proof (induction n rule: dec.induct)
  case (1 n)
  show ?case
  proof (cases "n < 10")
    case True
    then show ?thesis by (subst dec.simps) (simp add: undec_def digit_props)
  next
    case False
    with "1.IH" have "undec (dec (n div 10)) = n div 10" by simp
    with False show ?thesis by (subst dec.simps) (simp add: undec_snoc digit_props)
  qed
qed

lemma dec_inject [simp]: "dec m = dec n \<longleftrightarrow> m = n"
  by (metis undec_dec)

lemma dec_not_Nil [simp]: "dec n \<noteq> []"
  by (subst dec.simps) simp

lemma dec_no_char: "\<not> is_digit c \<Longrightarrow> c \<notin> set (dec n)"
  using dec_digits [of n] by (auto simp: list_all_iff)

section \<open>Reading numbers\<close>

text \<open>
  \<open>strtol\<close> and its relatives: white space is skipped, a sign and in base 16 a \<open>0x\<close> are accepted,
  then the longest run of digits counts; \<open>None\<close> when there is no digit. \<open>stoul\<close>, \<open>stoull\<close> and
  \<open>stol\<close> throw then, and when the value is out of range; the unsigned ones negate modulo \<open>2 ^ 64\<close>.
\<close>

definition is_space :: "char \<Rightarrow> bool" where
  "is_space c \<longleftrightarrow> (let n = (of_char c :: nat) in n = 32 \<or> (9 \<le> n \<and> n \<le> 13))"

definition digit_of :: "nat \<Rightarrow> char \<Rightarrow> nat option" where
  "digit_of b c =
     (let n = (of_char c :: nat);
          v = (if 48 \<le> n \<and> n \<le> 57 then n - 48
               else if 65 \<le> n \<and> n \<le> 90 then n - 55
               else if 97 \<le> n \<and> n \<le> 122 then n - 87 else 36)
      in if v < b then Some v else None)"

fun digits_from :: "nat \<Rightarrow> nat \<Rightarrow> string \<Rightarrow> nat" where
  "digits_from b acc [] = acc"
| "digits_from b acc (c # cs) =
     (case digit_of b c of None \<Rightarrow> acc | Some v \<Rightarrow> digits_from b (b * acc + v) cs)"

definition signed_part :: "string \<Rightarrow> bool \<times> string" where
  "signed_part s = (case s of [] \<Rightarrow> (False, [])
     | c # cs \<Rightarrow> if c = CHR ''-'' then (True, cs) else if c = CHR ''+'' then (False, cs) else (False, s))"

definition skip_0x :: "string \<Rightarrow> string" where
  "skip_0x s = (case s of c # x # d # ds \<Rightarrow>
       if c = CHR ''0'' \<and> tolower x = CHR ''x'' \<and> digit_of 16 d \<noteq> None then d # ds else s
     | _ \<Rightarrow> s)"

definition strto :: "nat \<Rightarrow> string \<Rightarrow> int option" where
  "strto b s = (case signed_part (dropWhile is_space s) of (neg, t) \<Rightarrow>
     let u = (if b = 16 then skip_0x t else t) in
     case u of [] \<Rightarrow> None
     | c # _ \<Rightarrow> if digit_of b c = None then None
         else Some (if neg then - int (digits_from b 0 u) else int (digits_from b 0 u)))"

definition stoul :: "nat \<Rightarrow> string \<Rightarrow> u64 outcome" where
  "stoul b s = (case strto b s of None \<Rightarrow> Throw ''stoul''
     | Some n \<Rightarrow> if \<bar>n\<bar> < 2 ^ 64 then Ret (word_of_int n) else Throw ''stoul'')"

definition stol :: "nat \<Rightarrow> string \<Rightarrow> int outcome" where
  "stol b s = (case strto b s of None \<Rightarrow> Throw ''stol''
     | Some n \<Rightarrow> if - (2 ^ 63) \<le> n \<and> n < 2 ^ 63 then Ret n else Throw ''stol'')"

text \<open>\<open>strtol(s, nullptr, 16)\<close> is 0 without a digit; \<open>atoi\<close> is the same in base 10.\<close>

definition strtol :: "nat \<Rightarrow> string \<Rightarrow> int" where
  "strtol b s = (case strto b s of None \<Rightarrow> 0 | Some n \<Rightarrow> n)"

lemma is_digit_props:
  assumes "is_digit c"
  shows "digit_of 10 c = Some (digit_val c)" "\<not> is_space c" "c \<noteq> CHR ''-''" "c \<noteq> CHR ''+''"
  using assms by (auto simp: is_digit_def digit_of_def digit_val_def is_space_def Let_def)

lemma digits_from_digits:
  "list_all is_digit ds \<Longrightarrow> digits_from 10 acc ds = foldl (\<lambda>n c. 10 * n + digit_val c) acc ds"
  by (induction ds arbitrary: acc) (simp_all add: is_digit_props)

lemma strto_digits:
  assumes "list_all is_digit ds" and "ds \<noteq> []"
  shows "strto 10 ds = Some (int (undec ds))"
proof -
  obtain c cs where ds: "ds = c # cs" using assms(2) by (cases ds) auto
  then have "is_digit c" using assms(1) by simp
  note c = is_digit_props [OF this]
  have "signed_part (dropWhile is_space ds) = (False, ds)" using c ds by (simp add: signed_part_def)
  then have "strto 10 ds = Some (int (digits_from 10 0 ds))" using c ds by (simp add: strto_def)
  then show ?thesis using digits_from_digits [OF assms(1)] by (simp add: undec_def)
qed

lemma strto_dec: "strto 10 (dec n) = Some (int n)"
  by (simp add: strto_digits dec_digits)

lemma stoul_dec: "n < 2 ^ 64 \<Longrightarrow> stoul 10 (dec n) = Ret (of_nat n)"
  by (simp add: stoul_def strto_dec)

end
