(* ===== verification/Utility.thy ===== *)
theory Utility
  imports CxxString "HOL-Library.Word"
begin

unbundle bit_operations_syntax

text \<open>
  The helpers of the HTTP library under \<open>sws/\<close>: the table of status codes
  (\<open>sws/status_code.hpp\<close>), header maps whose keys compare without regard to letter case, percent
  decoding and query strings (\<open>sws/utility.hpp\<close>).
\<close>

section \<open>Status codes\<close>

text \<open>The enumerators of \<open>enum class StatusCode\<close>, by their values, in order.\<close>

type_synonym StatusCode = nat

definition StatusCode_values :: "StatusCode list" where
  "StatusCode_values = [0, 100, 101, 102, 200, 201, 202, 203, 204, 205, 206, 207, 208, 226, 300, 301, 302, 303, 304, 305, 306, 307, 308, 400, 401, 402, 403, 404, 405, 406, 407, 408, 409, 410, 411, 412, 413, 414, 415, 416, 417, 418, 421, 422, 423, 424, 426, 428, 429, 431, 451, 500, 501, 502, 503, 504, 505, 506, 507, 508, 510, 511]"

definition status_codes :: "(StatusCode \<times> string) list" where
  "status_codes =
    [(0, ''''),
     (100, ''100 Continue''),
     (101, ''101 Switching Protocols''),
     (102, ''102 Processing''),
     (200, ''200 OK''),
     (201, ''201 Created''),
     (202, ''202 Accepted''),
     (203, ''203 Non-Authoritative Information''),
     (204, ''204 No Content''),
     (205, ''205 Reset Content''),
     (206, ''206 Partial Content''),
     (207, ''207 Multi-Status''),
     (208, ''208 Already Reported''),
     (226, ''226 IM Used''),
     (300, ''300 Multiple Choices''),
     (301, ''301 Moved Permanently''),
     (302, ''302 Found''),
     (303, ''303 See Other''),
     (304, ''304 Not Modified''),
     (305, ''305 Use Proxy''),
     (306, ''306 Switch Proxy''),
     (307, ''307 Temporary Redirect''),
     (308, ''308 Permanent Redirect''),
     (400, ''400 Bad Request''),
     (401, ''401 Unauthorized''),
     (402, ''402 Payment Required''),
     (403, ''403 Forbidden''),
     (404, ''404 Not Found''),
     (405, ''405 Method Not Allowed''),
     (406, ''406 Not Acceptable''),
     (407, ''407 Proxy Authentication Required''),
     (408, ''408 Request Timeout''),
     (409, ''409 Conflict''),
     (410, ''410 Gone''),
     (411, ''411 Length Required''),
     (412, ''412 Precondition Failed''),
     (413, ''413 Payload Too Large''),
     (414, ''414 URI Too Long''),
     (415, ''415 Unsupported Media Type''),
     (416, ''416 Range Not Satisfiable''),
     (417, ''417 Expectation Failed''),
     (418, ''418 I'' @ CHR 0x27 # ''m a teapot''),
     (421, ''421 Misdirected Request''),
     (422, ''422 Unprocessable Entity''),
     (423, ''423 Locked''),
     (424, ''424 Failed Dependency''),
     (426, ''426 Upgrade Required''),
     (428, ''428 Precondition Required''),
     (429, ''429 Too Many Requests''),
     (431, ''431 Request Header Fields Too Large''),
     (451, ''451 Unavailable For Legal Reasons''),
     (500, ''500 Internal Server Error''),
     (501, ''501 Not Implemented''),
     (502, ''502 Bad Gateway''),
     (503, ''503 Service Unavailable''),
     (504, ''504 Gateway Timeout''),
     (505, ''505 HTTP Version Not Supported''),
     (506, ''506 Variant Also Negotiates''),
     (507, ''507 Insufficient Storage''),
     (508, ''508 Loop Detected''),
     (510, ''510 Not Extended''),
     (511, ''511 Network Authentication Required'')]"

text \<open>The two overloads of \<open>status_code\<close>: from a text, and from an enumerator.\<close>

definition status_code_of :: "string \<Rightarrow> StatusCode" where
  "status_code_of s = (case find (\<lambda>(c, t). t = s) status_codes of None \<Rightarrow> 0 | Some (c, t) \<Rightarrow> c)"

definition status_code_text :: "StatusCode \<Rightarrow> string" where
  "status_code_text e = (case find (\<lambda>(c, t). c = e) status_codes of
     None \<Rightarrow> snd (status_codes ! 0) | Some (c, t) \<Rightarrow> t)"

section \<open>Case-insensitive maps\<close>

definition case_insensitive_equal :: "string \<Rightarrow> string \<Rightarrow> bool" where
  "case_insensitive_equal a b \<longleftrightarrow> length a = length b \<and> list_all2 (\<lambda>x y. tolower x = tolower y) a b"

text \<open>\<open>H\<close> is \<open>std::hash<int>\<close> on the code of a character.\<close>

definition case_insensitive_hash :: "(char \<Rightarrow> u64) \<Rightarrow> string \<Rightarrow> u64" where
  "case_insensitive_hash H s =
     fold (\<lambda>c h. h XOR (H (tolower c) + 0x9e3779b9 + push_bit 6 h + drop_bit 2 h)) s 0"

text \<open>
  A multimap is the list of its entries in the order they were inserted. Which of several entries
  with equivalent keys \<open>find\<close> returns is left to the library: \<open>pick\<close> chooses from their values.
\<close>

type_synonym multimap = "(string \<times> string) list"

definition header_find :: "(string list \<Rightarrow> string) \<Rightarrow> string \<Rightarrow> multimap \<Rightarrow> string option" where
  "header_find pick k m = (case filter (\<lambda>(k', v). case_insensitive_equal k k') m of
     [] \<Rightarrow> None | es \<Rightarrow> Some (pick (map snd es)))"

section \<open>Percent decoding\<close>

fun decode :: "string \<Rightarrow> string" where
  "decode [] = []"
| "decode (c # cs) =
     (if c = CHR ''%'' \<and> 2 \<le> length cs then char_of (strtol 16 (c_str (take 2 cs))) # decode (drop 2 cs)
      else if c = CHR ''+'' then CHR '' '' # decode cs
      else c # decode cs)"

section \<open>Query strings\<close>

text \<open>
  The loop over the positions of the query string; its variables are the start of the parameter,
  the positions of the last \<open>=\<close> and of the value, both \<open>npos\<close> before one is seen, and the result.
\<close>

record query_scan =
  parameter_pos :: nat
  parameter_end_pos :: nat
  value_pos :: nat
  params :: multimap

definition sub :: "string \<Rightarrow> nat \<Rightarrow> nat \<Rightarrow> string" where
  "sub s a n = take n (drop a s)"

definition emplace :: "string \<Rightarrow> string \<Rightarrow> multimap \<Rightarrow> multimap" where
  "emplace k v m = (if k = [] then m else m @ [(k, decode v)])"

definition query_step :: "string \<Rightarrow> nat \<Rightarrow> query_scan \<Rightarrow> query_scan" where
  "query_step q c st =
    (if q ! c = CHR ''&'' then
       \<lparr>parameter_pos = c + 1, parameter_end_pos = npos, value_pos = npos,
        params = emplace
          (sub q (parameter_pos st)
             ((if parameter_end_pos st = npos then c else parameter_end_pos st) - parameter_pos st))
          (if value_pos st = npos then [] else sub q (value_pos st) (c - value_pos st))
          (params st)\<rparr>
     else if q ! c = CHR ''='' then st\<lparr>parameter_end_pos := c, value_pos := c + 1\<rparr>
     else st)"

definition parse_query_string :: "string \<Rightarrow> multimap" where
  "parse_query_string q =
    (if q = [] then []
     else let st = fold (query_step q) [0..<length q]
                     \<lparr>parameter_pos = 0, parameter_end_pos = npos, value_pos = npos, params = []\<rparr>
          in if parameter_pos st < length q then
               emplace (sub q (parameter_pos st) (parameter_end_pos st - parameter_pos st))
                 (if length q \<le> value_pos st then [] else drop (value_pos st) q) (params st)
             else params st)"

section \<open>Lemmas\<close>

lemma find_entry:
  "distinct (map f xs) \<Longrightarrow> x \<in> set xs \<Longrightarrow> find (\<lambda>y. f y = f x) xs = Some x"
  by (induction xs) (auto simp: image_iff)

lemma status_codes_distinct: "distinct (map fst status_codes)" "distinct (map snd status_codes)"
  by (simp_all add: status_codes_def)

lemma case_insensitive_equal_iff: "case_insensitive_equal a b \<longleftrightarrow> map tolower a = map tolower b"
  by (auto simp: case_insensitive_equal_def list_all2_conv_all_nth list_eq_iff_nth_eq)

text \<open>Two hexadecimal digits, as \<open>RFC 3986\<close> writes a byte.\<close>

definition hex_digit :: "nat \<Rightarrow> char" where
  "hex_digit n = char_of (if n < 10 then 48 + n else 55 + n)"

definition unreserved :: "char \<Rightarrow> bool" where
  "unreserved c \<longleftrightarrow> is_digit c \<or> digit_of 36 c \<noteq> None \<or> c \<in> set ''-._~''"

definition percent_encode :: "string \<Rightarrow> string" where
  "percent_encode s = concat (map (\<lambda>c. if unreserved c then [c]
     else [CHR ''%'', hex_digit (of_char c div 16), hex_digit (of_char c mod 16)]) s)"

lemma hex_digit_props:
  assumes "n < 16"
  shows "digit_of 16 (hex_digit n) = Some n" "\<not> is_space (hex_digit n)"
    "hex_digit n \<noteq> CHR ''-''" "hex_digit n \<noteq> CHR ''+''" "hex_digit n \<noteq> CHR 0x00"
    "hex_digit n \<noteq> CHR ''&''" "hex_digit n \<noteq> CHR ''=''"
proof -
  have code: "(of_char (hex_digit n) :: nat) = (if n < 10 then 48 + n else 55 + n)"
    using assms by (simp add: hex_digit_def)
  show "digit_of 16 (hex_digit n) = Some n" "\<not> is_space (hex_digit n)"
    using assms by (simp_all add: digit_of_def is_space_def code)
  show "hex_digit n \<noteq> CHR ''-''" "hex_digit n \<noteq> CHR ''+''" "hex_digit n \<noteq> CHR 0x00"
    "hex_digit n \<noteq> CHR ''&''" "hex_digit n \<noteq> CHR ''=''"
    using assms code by (auto dest!: arg_cong [where f = "of_char :: char \<Rightarrow> nat"] split: if_splits)
qed

lemma strtol_hex_pair:
  assumes "a < 16" and "b < 16"
  shows "strtol 16 [hex_digit a, hex_digit b] = int (16 * a + b)"
proof -
  note p = hex_digit_props [OF assms(1)] and q = hex_digit_props [OF assms(2)]
  have "strto 16 [hex_digit a, hex_digit b] = Some (int (digits_from 16 0 [hex_digit a, hex_digit b]))"
    using p by (simp add: strto_def signed_part_def skip_0x_def)
  then show ?thesis using p q by (simp add: strtol_def)
qed

lemma char_of_pair: "char_of (int (16 * (of_char c div 16) + of_char c mod 16)) = c"
proof -
  have "16 * (of_char c div 16) + of_char c mod 16 = (of_char c :: nat)" by simp
  then have "char_of (int (16 * (of_char c div 16) + of_char c mod 16)) = char_of (int (of_char c))"
    by (simp only:)
  then show ?thesis by simp
qed

lemma unreserved_plain: "unreserved c \<Longrightarrow> c \<noteq> CHR ''%'' \<and> c \<noteq> CHR ''+'' \<and> c \<noteq> CHR ''&'' \<and> c \<noteq> CHR ''=''"
  by (auto simp: unreserved_def is_digit_def digit_of_def split: if_splits)

lemma char_div_16: "(of_char (c :: char) :: nat) div 16 < 16"
proof -
  have "(of_char c :: nat) < 16 * 16" by simp
  then show ?thesis by (rule less_mult_imp_div_less)
qed

lemma decode_encode_append: "decode (percent_encode s @ t) = s @ decode t"
proof (induction s)
  case (Cons c s)
  show ?case
  proof (cases "unreserved c")
    case True
    then show ?thesis using Cons unreserved_plain [OF True] by (simp add: percent_encode_def)
  next
    case False
    let ?a = "of_char c div 16 :: nat" and ?b = "of_char c mod 16 :: nat"
    have ab: "?a < 16" "?b < 16" by (rule char_div_16) simp
    have "c_str [hex_digit ?a, hex_digit ?b] = [hex_digit ?a, hex_digit ?b]"
      using hex_digit_props [OF ab(1)] hex_digit_props [OF ab(2)] by (simp add: c_str_def)
    then have "char_of (strtol 16 (c_str [hex_digit ?a, hex_digit ?b])) = c"
      using strtol_hex_pair [OF ab] char_of_pair by (simp only:)
    then show ?thesis using Cons False by (simp add: percent_encode_def numeral_2_eq_2)
  qed
qed (simp add: percent_encode_def)

lemma decode_encode: "decode (percent_encode s) = s"
  using decode_encode_append [of s "[]"] by simp

lemma percent_encode_plain: "CHR ''&'' \<notin> set (percent_encode s)" "CHR ''='' \<notin> set (percent_encode s)"
proof -
  have hex: "hex_digit (of_char c div 16) \<notin> {CHR ''&'', CHR ''=''}"
    "hex_digit (of_char c mod 16) \<notin> {CHR ''&'', CHR ''=''}" for c :: char
    using hex_digit_props(6,7) [OF char_div_16] hex_digit_props(6,7) [of "of_char c mod 16"] by simp_all
  have "CHR ''&'' \<notin> set (percent_encode s) \<and> CHR ''='' \<notin> set (percent_encode s)"
  proof (induction s)
    case (Cons c s)
    then show ?case
      using unreserved_plain [of c] hex [of c]
      by (cases "unreserved c") (simp_all add: percent_encode_def eq_commute)
  qed (simp add: percent_encode_def)
  then show "CHR ''&'' \<notin> set (percent_encode s)" "CHR ''='' \<notin> set (percent_encode s)" by simp_all
qed

subsection \<open>Scanning a query string\<close>

definition query_start :: "nat \<Rightarrow> multimap \<Rightarrow> query_scan" where
  "query_start a m = \<lparr>parameter_pos = a, parameter_end_pos = npos, value_pos = npos, params = m\<rparr>"

definition query_end :: "string \<Rightarrow> query_scan \<Rightarrow> multimap" where
  "query_end q st = (if parameter_pos st < length q then
     emplace (sub q (parameter_pos st) (parameter_end_pos st - parameter_pos st))
       (if length q \<le> value_pos st then [] else drop (value_pos st) q) (params st)
     else params st)"

lemma parse_query_string_end: "parse_query_string q =
    (if q = [] then [] else query_end q (fold (query_step q) [0..<length q] (query_start 0 [])))"
  by (simp only: parse_query_string_def query_end_def query_start_def Let_def)

lemma query_step_plain:
  "(\<And>i. a \<le> i \<Longrightarrow> i < b \<Longrightarrow> q ! i \<noteq> CHR ''&'' \<and> q ! i \<noteq> CHR ''='') \<Longrightarrow>
     fold (query_step q) [a..<b] st = st"
  by (induction b) (auto simp: query_step_def not_le)

lemma upt_split: "a \<le> c \<Longrightarrow> c < b \<Longrightarrow> [a..<b] = [a..<c] @ c # [Suc c..<b]"
  using upt_add_eq_append [of a c "b - c"] by (simp add: upt_conv_Cons)

lemma query_scan_pair:
  assumes q: "q = pre @ k @ CHR ''='' # v @ rest"
    and k: "CHR ''&'' \<notin> set k" "CHR ''='' \<notin> set k" and v: "CHR ''&'' \<notin> set v" "CHR ''='' \<notin> set v"
  shows "fold (query_step q) [length pre..<length pre + length k + 1 + length v] (query_start (length pre) m)
    = \<lparr>parameter_pos = length pre, parameter_end_pos = length pre + length k,
       value_pos = length pre + length k + 1, params = m\<rparr>"
proof -
  let ?a = "length pre" and ?e = "length pre + length k"
  have key: "fold (query_step q) [?a..<?e] st = st" for st
  proof (rule query_step_plain)
    fix i
    assume i: "?a \<le> i" "i < ?e"
    then have "i - ?a < length k" by simp
    with i have "q ! i = k ! (i - ?a)" by (simp add: q nth_append)
    moreover have "k ! (i - ?a) \<in> set k" using i by (intro nth_mem) simp
    ultimately show "q ! i \<noteq> CHR ''&'' \<and> q ! i \<noteq> CHR ''=''" using k by metis
  qed
  have val: "fold (query_step q) [Suc ?e..<?e + 1 + length v] st = st" for st
  proof (rule query_step_plain)
    fix i
    assume i: "Suc ?e \<le> i" "i < ?e + 1 + length v"
    have "q = (pre @ k @ [CHR ''='']) @ v @ rest" by (simp add: q)
    moreover have "i - Suc ?e < length v" "\<not> i < Suc ?e" using i by simp_all
    ultimately have "q ! i = v ! (i - Suc ?e)" by (simp only: nth_append) (simp add: nth_append)
    moreover have "v ! (i - Suc ?e) \<in> set v" using i by (intro nth_mem) simp
    ultimately show "q ! i \<noteq> CHR ''&'' \<and> q ! i \<noteq> CHR ''=''" using v by metis
  qed
  have eq: "query_step q ?e (query_start ?a m) = \<lparr>parameter_pos = ?a, parameter_end_pos = ?e,
     value_pos = ?e + 1, params = m\<rparr>"
    by (simp add: query_step_def q nth_append query_start_def)
  have "[?a..<?e + 1 + length v] = [?a..<?e] @ ?e # [Suc ?e..<?e + 1 + length v]"
    by (rule upt_split) simp_all
  then show ?thesis using key val eq by (simp only: fold_append fold_simps comp_apply)
qed

text \<open>A query string written from pairs of a key and a value.\<close>

fun query_text :: "(string \<times> string) list \<Rightarrow> string" where
  "query_text [] = []"
| "query_text [(k, v)] = k @ CHR ''='' # percent_encode v"
| "query_text ((k, v) # p # ps) = k @ CHR ''='' # percent_encode v @ CHR ''&'' # query_text (p # ps)"

definition query_key :: "string \<Rightarrow> bool" where
  "query_key k \<longleftrightarrow> k \<noteq> [] \<and> CHR ''&'' \<notin> set k \<and> CHR ''='' \<notin> set k"

lemma query_scan_text:
  "q = pre @ query_text ps \<Longrightarrow> ps \<noteq> [] \<Longrightarrow> length q < npos \<Longrightarrow> list_all (\<lambda>p. query_key (fst p)) ps \<Longrightarrow>
     query_end q (fold (query_step q) [length pre..<length q] (query_start (length pre) m)) = m @ ps"
proof (induction ps arbitrary: pre m rule: query_text.induct)
  case (2 k v)
  then have q: "q = pre @ k @ CHR ''='' # percent_encode v @ []" and k: "query_key k" by simp_all
  have len: "length q = length pre + length k + 1 + length (percent_encode v)" by (simp add: q)
  have "k \<noteq> []" using k by (simp add: query_key_def)
  moreover note query_scan_pair [OF q, of m]
  ultimately show ?case
    using k percent_encode_plain [of v] decode_encode [of v]
    unfolding len by (simp add: query_key_def query_end_def emplace_def sub_def) (auto simp: q)
next
  case (3 k v p ps)
  let ?v = "percent_encode v"
  let ?c = "length pre + length k + 1 + length ?v"
  from 3 have q: "q = pre @ k @ CHR ''='' # ?v @ CHR ''&'' # query_text (p # ps)" and k: "query_key k" by simp_all
  have c: "q ! ?c = CHR ''&''" "?c < length q" "?c < npos"
    using "3.prems"(3) by (simp_all add: q nth_append nth_Cons')
  have "query_step q ?c \<lparr>parameter_pos = length pre, parameter_end_pos = length pre + length k,
      value_pos = length pre + length k + 1, params = m\<rparr> = query_start (Suc ?c) (m @ [(k, v)])"
    using c k decode_encode [of v]
    by (simp add: query_step_def emplace_def sub_def query_key_def query_start_def) (simp add: q)
  moreover have "[length pre..<length q] = [length pre..<?c] @ ?c # [Suc ?c..<length q]"
    using c by (intro upt_split) simp_all
  moreover have "fold (query_step q) [length pre..<?c] (query_start (length pre) m)
    = \<lparr>parameter_pos = length pre, parameter_end_pos = length pre + length k,
       value_pos = length pre + length k + 1, params = m\<rparr>"
    using query_scan_pair [OF q, of m] k percent_encode_plain [of v] by (simp add: query_key_def)
  ultimately have "fold (query_step q) [length pre..<length q] (query_start (length pre) m)
    = fold (query_step q) [Suc ?c..<length q] (query_start (Suc ?c) (m @ [(k, v)]))"
    by simp
  moreover have "query_end q (fold (query_step q) [Suc ?c..<length q] (query_start (Suc ?c) (m @ [(k, v)])))
    = (m @ [(k, v)]) @ p # ps"
  proof -
    let ?pre = "pre @ k @ CHR ''='' # ?v @ [CHR ''&'']"
    have len: "length ?pre = Suc ?c" by simp
    have "q = ?pre @ query_text (p # ps)" by (simp add: q)
    moreover have "list_all (\<lambda>p. query_key (fst p)) (p # ps)" using "3.prems"(4) by simp
    ultimately show ?thesis
      using "3.IH" [of ?pre "m @ [(k, v)]"] "3.prems"(3) by (simp only: len) simp
  qed
  ultimately show ?case by simp
qed simp

section \<open>Properties\<close>

text \<open>The table of status codes is a bijection: it has one entry for every enumerator, in order;
  the text of an enumerator is not that of another and is read back as that enumerator, and a
  text that is not in the table is read as \<open>unknown\<close>.\<close>

theorem status_codes_roundtrip:
  "map fst status_codes = StatusCode_values
   \<and> (\<forall>c \<in> set StatusCode_values. status_code_of (status_code_text c) = c)
   \<and> (\<forall>s. s \<notin> snd ` set status_codes \<longrightarrow> status_code_of s = 0)"
proof (intro conjI allI impI)
  show "map fst status_codes = StatusCode_values"
    by (simp add: status_codes_def StatusCode_values_def)
  then have enum: "set StatusCode_values = fst ` set status_codes" by (metis set_map)
  have "status_code_of (status_code_text c) = c" if ct: "(c, t) \<in> set status_codes" for c t
    using find_entry [OF status_codes_distinct(1) ct] find_entry [OF status_codes_distinct(2) ct]
    by (simp add: status_code_of_def status_code_text_def case_prod_unfold)
  then show "\<forall>c \<in> set StatusCode_values. status_code_of (status_code_text c) = c"
    unfolding enum by auto
  fix s
  assume "s \<notin> snd ` set status_codes"
  then have "find (\<lambda>(c, t). t = s) status_codes = None"
    by (force simp: find_None_iff)
  then show "status_code_of s = 0" by (simp add: status_code_of_def)
qed

theorem status_codes_roundtrip_witness:
  "404 \<in> set StatusCode_values \<and> status_code_of (status_code_text 404) = 404"
proof -
  have "404 \<in> set StatusCode_values" by (simp add: StatusCode_values_def)
  with status_codes_roundtrip show ?thesis by blast
qed

text \<open>Header keys that compare equal have the same hash, whatever the hash of a character is, as
  the hash map that stores them requires, and comparing is an equivalence.\<close>

theorem case_insensitive_hash_ok:
  "(case_insensitive_equal a b \<longrightarrow> case_insensitive_hash H a = case_insensitive_hash H b)
   \<and> case_insensitive_equal a a
   \<and> (case_insensitive_equal a b \<longrightarrow> case_insensitive_equal b a)
   \<and> (case_insensitive_equal a b \<longrightarrow> case_insensitive_equal b c \<longrightarrow> case_insensitive_equal a c)"
proof -
  have "case_insensitive_hash H s =
      fold (\<lambda>c h. h XOR (H c + 0x9e3779b9 + push_bit 6 h + drop_bit 2 h)) (map tolower s) 0" for s
    by (simp add: case_insensitive_hash_def fold_map comp_def)
  then show ?thesis by (simp add: case_insensitive_equal_iff)
qed

theorem case_insensitive_hash_ok_witness:
  "case_insensitive_hash (\<lambda>c. of_nat (of_char c)) ''Content-Length''
     = case_insensitive_hash (\<lambda>c. of_nat (of_char c)) ''content-length''"
proof -
  have "case_insensitive_equal ''Content-Length'' ''content-length''"
    by (simp add: case_insensitive_equal_def tolower_def char_eval)
  then show ?thesis using case_insensitive_hash_ok by blast
qed

text \<open>Percent decoding undoes the encoding of \<open>RFC 3986\<close>, and a query string written from pairs of
  a key and a value, with the values percent-encoded, is parsed back into these pairs.\<close>

theorem parse_query_string_roundtrip:
  assumes "list_all (\<lambda>p. query_key (fst p)) ps" and "length (query_text ps) < npos"
  shows "decode (percent_encode s) = s \<and> parse_query_string (query_text ps) = ps"
proof (cases "ps = []")
  case False
  then have "query_text ps \<noteq> []" by (cases ps rule: query_text.cases) auto
  with False show ?thesis
    using query_scan_text [of "query_text ps" "[]" ps "[]"] assms decode_encode
    by (simp add: parse_query_string_end)
qed (simp add: parse_query_string_def decode_encode)

theorem parse_query_string_roundtrip_witness:
  "parse_query_string (query_text [(''a'', ''1 & 2''), (''b'', [])]) = [(''a'', ''1 & 2''), (''b'', [])]"
proof -
  have "length (query_text [(''a'', ''1 & 2''), (''b'', [])]) < npos"
    by (simp add: percent_encode_def npos_def)
  then show ?thesis
    using parse_query_string_roundtrip [of "[(''a'', ''1 & 2''), (''b'', [])]" "[]"]
    by (simp add: query_key_def)
qed

end
