(* ===== verification/Json.thy ===== *)
theory Json
  imports CxxString "HOL-Library.Char_ord" "HOL-Library.List_Lexorder"
begin

text \<open>
  jsoncpp as the code sees it. The library is not part of the repository, so its operations are
  the fields of a record that every definition using them takes as an argument \<open>J\<close>; what the
  proofs need of them is stated by the locale \<open>json_laws\<close>. The second half of the theory gives
  one implementation of the record over an ordinary data type of JSON documents, with the
  behaviour jsoncpp documents, and interprets the locale with it.
\<close>

section \<open>The operations\<close>

datatype placement = CommentBefore | CommentAfterOnSameLine

text \<open>
  \<open>j_at v k\<close> is the value \<open>v[k]\<close> denotes (null where \<open>k\<close> is absent), \<open>j_touch v k\<close> is \<open>v\<close> after
  \<open>v[k]\<close> was evaluated on a non-const value (an absent member is created), \<open>j_put v k x\<close> is \<open>v\<close>
  after \<open>v[k] = x\<close>, \<open>j_is_text v s\<close> is \<open>v == s\<close>, \<open>j_items\<close> are the keys and members an iterator visits, in its order, and
  \<open>j_parse\<close> is \<open>operator>>\<close>, which throws \<open>Json::RuntimeError\<close> on malformed text (\<open>None\<close>). The
  value it reads into has by then been replaced by a part of the document, \<open>j_broken\<close>, or is still
  what it was (\<open>None\<close>).
\<close>

record 'j json_api =
  j_isMember :: "'j \<Rightarrow> string \<Rightarrow> bool outcome"
  j_at :: "'j \<Rightarrow> string \<Rightarrow> 'j outcome"
  j_touch :: "'j \<Rightarrow> string \<Rightarrow> 'j outcome"
  j_put :: "'j \<Rightarrow> string \<Rightarrow> 'j \<Rightarrow> 'j outcome"
  j_items :: "'j \<Rightarrow> (string \<times> 'j) list"
  j_isNull :: "'j \<Rightarrow> bool"
  j_is_text :: "'j \<Rightarrow> string \<Rightarrow> bool"
  j_asString :: "'j \<Rightarrow> string outcome"
  j_asCString :: "'j \<Rightarrow> string outcome"
  j_asBool :: "'j \<Rightarrow> bool outcome"
  j_asInt :: "'j \<Rightarrow> int outcome"
  j_asUInt :: "'j \<Rightarrow> u32 outcome"
  j_asDouble :: "'j \<Rightarrow> double outcome"
  j_asFloat :: "'j \<Rightarrow> double outcome"
  j_null :: "'j"
  j_object :: "'j"
  j_of_string :: "string \<Rightarrow> 'j"
  j_of_int :: "int \<Rightarrow> 'j"
  j_of_bool :: "bool \<Rightarrow> 'j"
  j_comment :: "'j \<Rightarrow> string \<Rightarrow> placement \<Rightarrow> 'j"
  j_parse :: "string \<Rightarrow> 'j option"
  j_broken :: "string \<Rightarrow> 'j option"

text \<open>Chains of \<open>operator[]\<close>: reading along a path, and what evaluating the path creates.\<close>

primrec j_path :: "'j json_api \<Rightarrow> 'j \<Rightarrow> string list \<Rightarrow> 'j outcome" where
  "j_path J v [] = Ret v"
| "j_path J v (k # ks) = obind (j_at J v k) (\<lambda>w. j_path J w ks)"

primrec j_touch_path :: "'j json_api \<Rightarrow> 'j \<Rightarrow> string list \<Rightarrow> 'j outcome" where
  "j_touch_path J v [] = Ret v"
| "j_touch_path J v (k # ks) =
     obind (j_at J v k) (\<lambda>w. obind (j_touch_path J w ks) (\<lambda>w'. j_put J v k w'))"

text \<open>\<open>v[a][b] = x\<close>.\<close>

definition j_put2 :: "'j json_api \<Rightarrow> 'j \<Rightarrow> string \<Rightarrow> string \<Rightarrow> 'j \<Rightarrow> 'j outcome" where
  "j_put2 J v a b x = obind (j_at J v a) (\<lambda>w. obind (j_put J w b x) (\<lambda>w'. j_put J v a w'))"

text \<open>
  The laws clients rely on: a member that was stored is read back, other members stay, a value
  built from a string is read as that string, and attaching a comment changes no value.
\<close>

locale json_laws =
  fixes J :: "'j json_api"
  assumes isMember_put:
      "j_put J v k x = Ret v' \<Longrightarrow>
         j_isMember J v' k' = (if k' = k then Ret True else j_isMember J v k')"
    and at_put: "j_put J v k x = Ret v' \<Longrightarrow> j_at J v' k' = (if k' = k then Ret x else j_at J v k')"
    and put_defined: "j_isMember J v k = Ret b \<Longrightarrow> \<exists>v'. j_put J v k' x = Ret v'"
    and at_defined: "j_isMember J v k = Ret b \<Longrightarrow> \<exists>w. j_at J v k' = Ret w"
    and at_absent: "j_isMember J v k = Ret False \<Longrightarrow> j_at J v k = Ret (j_null J)"
    and isMember_null: "j_isMember J (j_null J) k = Ret False"
    and isMember_object: "j_isMember J (j_object J) k = Ret False"
    and isMember_comment: "j_isMember J (j_comment J v t p) k = j_isMember J v k"
    and asString_comment: "j_asString J (j_comment J v t p) = j_asString J v"
    and asInt_comment: "j_asInt J (j_comment J v t p) = j_asInt J v"
    and asString_string: "j_asString J (j_of_string J s) = Ret s"
    and asInt_int: "- (2 ^ 31) \<le> n \<Longrightarrow> n < 2 ^ 31 \<Longrightarrow> j_asInt J (j_of_int J n) = Ret n"
begin

lemma put_keeps_defined:
  "j_put J v k x = Ret v' \<Longrightarrow> j_isMember J v k' = Ret b \<Longrightarrow> \<exists>b'. j_isMember J v' k' = Ret b'"
  by (auto simp: isMember_put)

lemma put_same: "j_put J v k x = Ret v' \<Longrightarrow> j_isMember J v' k = Ret True \<and> j_at J v' k = Ret x"
  by (simp add: isMember_put at_put)

end

section \<open>One implementation of the operations\<close>

datatype json =
    JNull
  | JBool bool
  | JInt int
  | JReal double
  | JStr string
  | JArr "json list"
  | JObj "(string \<times> json) list"

text \<open>Members are kept in the order of their keys, as \<open>std::map\<close> keeps them.\<close>

fun obj_put :: "(string \<times> json) list \<Rightarrow> string \<Rightarrow> json \<Rightarrow> (string \<times> json) list" where
  "obj_put [] k x = [(k, x)]"
| "obj_put ((k', y) # ms) k x =
     (if k = k' then (k, x) # ms
      else if k < k' then (k, x) # (k', y) # ms
      else (k', y) # obj_put ms k x)"

lemma map_of_obj_put: "map_of (obj_put ms k x) k' = (if k' = k then Some x else map_of ms k')"
  by (induction ms k x rule: obj_put.induct) auto

fun json_isMember :: "json \<Rightarrow> string \<Rightarrow> bool outcome" where
  "json_isMember JNull k = Ret False"
| "json_isMember (JObj ms) k = Ret (map_of ms k \<noteq> None)"
| "json_isMember _ k = Throw ''in Json::Value::find: requires objectValue or nullValue''"

fun json_at :: "json \<Rightarrow> string \<Rightarrow> json outcome" where
  "json_at JNull k = Ret JNull"
| "json_at (JObj ms) k = Ret (case map_of ms k of None \<Rightarrow> JNull | Some v \<Rightarrow> v)"
| "json_at _ k = Throw ''in Json::Value::resolveReference: requires objectValue''"

fun json_put :: "json \<Rightarrow> string \<Rightarrow> json \<Rightarrow> json outcome" where
  "json_put JNull k x = Ret (JObj [(k, x)])"
| "json_put (JObj ms) k x = Ret (JObj (obj_put ms k x))"
| "json_put _ k x = Throw ''in Json::Value::resolveReference: requires objectValue''"

definition json_touch :: "json \<Rightarrow> string \<Rightarrow> json outcome" where
  "json_touch v k = obind (json_isMember v k) (\<lambda>b. if b then Ret v else json_put v k JNull)"

fun json_items :: "json \<Rightarrow> (string \<times> json) list" where
  "json_items (JObj ms) = ms"
| "json_items (JArr vs) = map (\<lambda>(i, v). (dec i, v)) (enumerate 0 vs)"
| "json_items _ = []"

fun json_asString :: "json \<Rightarrow> string outcome" where
  "json_asString JNull = Ret []"
| "json_asString (JBool b) = Ret (if b then ''true'' else ''false'')"
| "json_asString (JInt n) = Ret (dec_int n)"
| "json_asString (JReal r) = Ret (dec_int \<lfloor>r\<rfloor>)"
| "json_asString (JStr s) = Ret s"
| "json_asString _ = Throw ''Type is not convertible to string''"

fun json_asCString :: "json \<Rightarrow> string outcome" where
  "json_asCString (JStr s) = Ret (c_str s)"
| "json_asCString _ = Throw ''in Json::Value::asCString(): requires stringValue''"

fun json_asBool :: "json \<Rightarrow> bool outcome" where
  "json_asBool JNull = Ret False"
| "json_asBool (JBool b) = Ret b"
| "json_asBool (JInt n) = Ret (n \<noteq> 0)"
| "json_asBool (JReal r) = Ret (r \<noteq> 0)"
| "json_asBool _ = Throw ''Value is not convertible to bool.''"

fun json_asDouble :: "json \<Rightarrow> double outcome" where
  "json_asDouble JNull = Ret 0"
| "json_asDouble (JBool b) = Ret (if b then 1 else 0)"
| "json_asDouble (JInt n) = Ret (of_int n)"
| "json_asDouble (JReal r) = Ret r"
| "json_asDouble _ = Throw ''Value is not convertible to double.''"

definition json_asInt :: "json \<Rightarrow> int outcome" where
  "json_asInt v = obind (json_asDouble v) (\<lambda>r.
     let n = (if r < 0 then - \<lfloor>- r\<rfloor> else \<lfloor>r\<rfloor>)
     in if - (2 ^ 31) \<le> n \<and> n < 2 ^ 31 then Ret n else Throw ''out of Int range'')"

definition json_asUInt :: "json \<Rightarrow> u32 outcome" where
  "json_asUInt v = obind (json_asDouble v) (\<lambda>r.
     if 0 \<le> r \<and> \<lfloor>r\<rfloor> < 2 ^ 32 then Ret (word_of_int \<lfloor>r\<rfloor>) else Throw ''out of UInt range'')"

text \<open>Text is not parsed here: the implementation knows the empty document only.\<close>

definition json_parse :: "string \<Rightarrow> json option" where
  "json_parse s = (if s = ''{}'' then Some (JObj []) else None)"

definition jsoncpp :: "json json_api" where
  "jsoncpp = \<lparr>
     j_isMember = json_isMember, j_at = json_at, j_touch = json_touch, j_put = json_put,
     j_items = json_items, j_isNull = (\<lambda>v. v = JNull), j_is_text = (\<lambda>v s. v = JStr s), j_asString = json_asString,
     j_asCString = json_asCString, j_asBool = json_asBool, j_asInt = json_asInt,
     j_asUInt = json_asUInt, j_asDouble = json_asDouble, j_asFloat = json_asDouble,
     j_null = JNull, j_object = JObj [], j_of_string = JStr, j_of_int = JInt, j_of_bool = JBool,
     j_comment = (\<lambda>v t p. v), j_parse = json_parse, j_broken = (\<lambda>t. None)\<rparr>"

lemma jsoncpp_fields [simp]:
  "j_isMember jsoncpp = json_isMember" "j_at jsoncpp = json_at" "j_touch jsoncpp = json_touch"
  "j_put jsoncpp = json_put" "j_items jsoncpp = json_items"
  "j_isNull jsoncpp v = (v = JNull)" "j_is_text jsoncpp v s = (v = JStr s)" "j_asString jsoncpp = json_asString"
  "j_asCString jsoncpp = json_asCString" "j_asBool jsoncpp = json_asBool"
  "j_asInt jsoncpp = json_asInt" "j_asUInt jsoncpp = json_asUInt"
  "j_asDouble jsoncpp = json_asDouble" "j_asFloat jsoncpp = json_asDouble"
  "j_null jsoncpp = JNull" "j_object jsoncpp = JObj []" "j_of_string jsoncpp = JStr"
  "j_of_int jsoncpp = JInt" "j_of_bool jsoncpp = JBool" "j_comment jsoncpp v t p = v"
  "j_parse jsoncpp = json_parse" "j_broken jsoncpp t = None"
  by (simp_all add: jsoncpp_def)

lemma json_put_Ret: "json_put v k x = Ret v' \<Longrightarrow> v = JNull \<and> v' = JObj [(k, x)] \<or>
    (\<exists>ms. v = JObj ms \<and> v' = JObj (obj_put ms k x))"
  by (cases v) auto

lemma json_isMember_Ret: "json_isMember v k = Ret b \<Longrightarrow> v = JNull \<or> (\<exists>ms. v = JObj ms)"
  by (cases v) auto

interpretation jsoncpp: json_laws jsoncpp
proof unfold_locales
  fix v v' x :: json and k k' :: string
  assume "j_put jsoncpp v k x = Ret v'"
  then have put: "json_put v k x = Ret v'" by simp
  show "j_isMember jsoncpp v' k' = (if k' = k then Ret True else j_isMember jsoncpp v k')"
    using json_put_Ret [OF put] by (auto simp: map_of_obj_put)
  show "j_at jsoncpp v' k' = (if k' = k then Ret x else j_at jsoncpp v k')"
    using json_put_Ret [OF put] by (auto simp: map_of_obj_put)
next
  fix v x :: json and k k' :: string and b :: bool
  assume "j_isMember jsoncpp v k = Ret b"
  then have mem: "json_isMember v k = Ret b" by simp
  show "\<exists>v'. j_put jsoncpp v k' x = Ret v'"
    using json_isMember_Ret [OF mem] by auto
  show "\<exists>w. j_at jsoncpp v k' = Ret w"
    using json_isMember_Ret [OF mem] by auto
next
  fix v :: json and k :: string
  assume "j_isMember jsoncpp v k = Ret False"
  then show "j_at jsoncpp v k = Ret (j_null jsoncpp)" by (cases v) auto
qed (auto simp: json_asInt_def)

end
