(* ===== verification/Log.thy ===== *)
theory Log
  imports Json
begin

text \<open>
  The log (class \<open>log\<close> of \<open>include/alerter.h\<close>, \<open>src/log.cpp\<close>): the level is read from the
  configuration, completed there with its defaults, and a message is written when its level does
  not exceed the configured one. The lines written are kept in order; the local time they carry
  and whether the log file can be opened come from outside.
\<close>

section \<open>State and operations\<close>

definition levels :: "string list" where
  "levels = [''NONE'', ''ERROR'', ''WARN'', ''NOTICE'', ''INFO'', ''DEBUG'', ''ALL'']"

datatype sink = LogFile string | Stdout

record line =
  ln_sink :: sink
  ln_level :: nat
  ln_src :: string
  ln_msg :: string

record logger =
  lg_level :: u16
  lg_file :: string
  lg_opens :: bool
  lg_lines :: "line list"

text \<open>
  The loop \<open>for (uint16_t i = 0; i < levels.size(); i++) if (levels[i] == lvl) level = i\<close>: the
  last index whose entry is \<open>lvl\<close>, or the value \<open>level\<close> had before.
\<close>

definition scan_levels :: "string \<Rightarrow> u16 \<Rightarrow> bool \<times> u16" where
  "scan_levels lvl start =
     fold (\<lambda>(i, s) (found, l). if s = lvl then (True, of_nat i) else (found, l))
       (enumerate 0 levels) (False, start)"

definition chosen_level :: "string \<Rightarrow> u16" where
  "chosen_level s = (case scan_levels (map toupper s) 0 of (found, l) \<Rightarrow> if found then l else 3)"

text \<open>
  The constructor on its configuration object: the completed configuration and the level. The
  member \<open>level\<close> of the C++ object has no value before the loop; it is overwritten by 3 when no
  entry matches (\<open>chosen_level\<close>).
\<close>

definition log_init :: "'j json_api \<Rightarrow> string \<Rightarrow> 'j \<Rightarrow> ('j \<times> u16) outcome" where
  "log_init J log_file cfg =
     obind (j_isMember J cfg ''file'') (\<lambda>has_file.
     obind (if has_file then Ret cfg
            else j_put J cfg ''file''
                   (j_comment J (j_of_string J log_file)
                      (''/*'' @ [CHR 0x09, CHR 0x09] @ ''the log file*/'') CommentAfterOnSameLine)) (\<lambda>cfg.
     obind (j_isMember J cfg ''level'') (\<lambda>has_level.
     obind (if has_level then Ret cfg
            else j_put J cfg ''level''
                   (j_comment J (j_of_string J ''NOTICE'')
                      (''/*'' @ [CHR 0x09, CHR 0x09] @
                       ''level to log at (NONE,ERROR,WARN,NOTICE,INFO,DEBUG,ALL)*/'') CommentAfterOnSameLine)) (\<lambda>cfg.
     obind (j_at J cfg ''level'') (\<lambda>v.
     obind (j_asString J v) (\<lambda>lvl.
     let level = chosen_level lvl
     in obind (j_put J cfg ''level'' (j_of_string J (levels ! unat level))) (\<lambda>cfg.
        Ret (cfg, level))))))))"

text \<open>\<open>write\<close> with a numeric level, and the one that looks the level up by its name.\<close>

definition log_write :: "logger \<Rightarrow> u16 \<Rightarrow> string \<Rightarrow> string \<Rightarrow> logger" where
  "log_write lg p_lvl p_src p_message =
     (if lg_level lg < p_lvl then lg
      else lg\<lparr>lg_lines := lg_lines lg @
        [\<lparr>ln_sink = (if lg_opens lg then LogFile (lg_file lg) else Stdout),
          ln_level = unat p_lvl, ln_src = p_src, ln_msg = p_message\<rparr>]\<rparr>)"

definition log_write_name :: "logger \<Rightarrow> string \<Rightarrow> string \<Rightarrow> string \<Rightarrow> logger" where
  "log_write_name lg p_lvl p_src p_message =
     log_write lg (snd (scan_levels (map toupper p_lvl) 3)) p_src p_message"

definition log_error :: "logger \<Rightarrow> string \<Rightarrow> string \<Rightarrow> logger" where
  "log_error lg src msg = log_write lg 1 src msg"

definition log_warning :: "logger \<Rightarrow> string \<Rightarrow> string \<Rightarrow> logger" where
  "log_warning lg src msg = log_write lg 2 src msg"

definition log_notice :: "logger \<Rightarrow> string \<Rightarrow> string \<Rightarrow> logger" where
  "log_notice lg src msg = log_write lg 3 src msg"

definition log_info :: "logger \<Rightarrow> string \<Rightarrow> string \<Rightarrow> logger" where
  "log_info lg src msg = log_write lg 4 src msg"

definition log_debug :: "logger \<Rightarrow> string \<Rightarrow> string \<Rightarrow> logger" where
  "log_debug lg src msg = log_write lg 5 src msg"

text \<open>The text of a line, with the field widths of \<open>setw\<close>; \<open>time\<close> is the formatted local time.\<close>

definition setw :: "nat \<Rightarrow> string \<Rightarrow> string" where
  "setw n s = replicate (n - length s) (CHR '' '') @ s"

definition line_text :: "string \<Rightarrow> line \<Rightarrow> string" where
  "line_text time x = ''[ '' @ time @ '' | '' @ setw 6 (levels ! ln_level x) @ '' ] '' @
     setw 30 (ln_src x) @ '' - '' @ ln_msg x @ [CHR 0x0A]"

lemmas log_defs = log_error_def log_warning_def log_notice_def log_info_def log_debug_def

section \<open>Lemmas\<close>

lemma scan_levels_cases:
  "scan_levels s d =
     (if s = ''NONE'' then (True, 0) else if s = ''ERROR'' then (True, 1)
      else if s = ''WARN'' then (True, 2) else if s = ''NOTICE'' then (True, 3)
      else if s = ''INFO'' then (True, 4) else if s = ''DEBUG'' then (True, 5)
      else if s = ''ALL'' then (True, 6) else (False, d))"
  by (simp add: scan_levels_def levels_def)

lemma scan_levels_bound: "scan_levels s d = (b, l) \<Longrightarrow> (if b then l else 3) \<le> 6"
  by (auto simp: scan_levels_cases split: if_splits)

lemma scan_levels_level:
  assumes "l \<le> 6"
  shows "scan_levels (levels ! unat l) d = (True, l)" "map toupper (levels ! unat l) = levels ! unat l"
proof -
  have "unat l \<le> 6" using assms by (simp add: word_le_nat_alt)
  then have "unat l \<in> {0, 1, 2, 3, 4, 5, 6}" by auto
  then have "of_nat (unat l) \<in> (of_nat ` {0, 1, 2, 3, 4, 5, 6} :: u16 set)" by (rule imageI)
  then have "l \<in> {0, 1, 2, 3, 4, 5, 6}" by simp
  then show "scan_levels (levels ! unat l) d = (True, l)"
    and "map toupper (levels ! unat l) = levels ! unat l"
    by (auto simp: scan_levels_cases levels_def toupper_def)
qed

lemma log_write_frame [simp]:
  "lg_level (log_write lg l s m) = lg_level lg"
  "lg_file (log_write lg l s m) = lg_file lg"
  "lg_opens (log_write lg l s m) = lg_opens lg"
  by (simp_all add: log_write_def)

lemma log_write_prefix: "\<exists>new. lg_lines (log_write lg l s m) = lg_lines lg @ new \<and> length new \<le> 1"
  by (simp add: log_write_def)

lemma levels_length [simp]: "length levels = 7"
  by (simp add: levels_def)

lemma scan_levels_found: "scan_levels s d = (b, l) \<Longrightarrow> b = (s \<in> set levels) \<and> (b \<longrightarrow> levels ! unat l = s)"
  by (auto simp: scan_levels_cases levels_def split: if_splits)

lemma chosen_level_bound: "chosen_level s \<le> 6"
  using scan_levels_bound by (auto simp: chosen_level_def split: prod.splits)

lemma chosen_level_spec:
  "if map toupper s \<in> set levels then levels ! unat (chosen_level s) = map toupper s
   else chosen_level s = 3"
  using scan_levels_found [of "map toupper s" 0] by (auto simp: chosen_level_def split: prod.splits)

lemma chosen_level_name: "l \<le> 6 \<Longrightarrow> chosen_level (levels ! unat l) = l"
  by (simp add: chosen_level_def scan_levels_level)

context json_laws
begin

text \<open>The constructor completes its configuration and stores the name of the level it chose.\<close>

lemma log_init_run:
  assumes fil: "j_isMember J cfg ''file'' = Ret a" and level: "j_isMember J cfg ''level'' = Ret b"
    and str: "b \<Longrightarrow> \<exists>v. j_at J cfg ''level'' = Ret v \<and> j_asString J v = Ret s"
    and none: "\<not> b \<Longrightarrow> s = ''NOTICE''"
  shows "\<exists>cfg'. log_init J f cfg = Ret (cfg', chosen_level s)
    \<and> j_at J cfg' ''level'' = Ret (j_of_string J (levels ! unat (chosen_level s)))
    \<and> j_isMember J cfg' ''file'' = Ret True \<and> j_isMember J cfg' ''level'' = Ret True
    \<and> (\<forall>k. k \<noteq> ''file'' \<longrightarrow> k \<noteq> ''level'' \<longrightarrow> j_at J cfg' k = j_at J cfg k
           \<and> j_isMember J cfg' k = j_isMember J cfg k)
    \<and> (a \<longrightarrow> j_at J cfg' ''file'' = j_at J cfg ''file'')"
proof -
  let ?fc = "j_comment J (j_of_string J f) (''/*'' @ [CHR 0x09, CHR 0x09] @ ''the log file*/'') CommentAfterOnSameLine"
  let ?lc = "j_comment J (j_of_string J ''NOTICE'') (''/*'' @ [CHR 0x09, CHR 0x09] @
    ''level to log at (NONE,ERROR,WARN,NOTICE,INFO,DEBUG,ALL)*/'') CommentAfterOnSameLine"
  obtain c1 where c1: "(if a then Ret cfg else j_put J cfg ''file'' ?fc) = Ret c1"
    using put_defined [OF fil, of "''file''" ?fc] by (cases a) auto
  have m1: "j_isMember J c1 k = (if k = ''file'' then Ret True else j_isMember J cfg k)" for k
    using c1 fil isMember_put by (cases a) auto
  have a1: "k \<noteq> ''file'' \<or> a \<Longrightarrow> j_at J c1 k = j_at J cfg k" for k
    using c1 at_put by (cases a) auto
  have lvl1: "j_isMember J c1 ''level'' = Ret b" using m1 level by simp
  obtain c2 where c2: "(if b then Ret c1 else j_put J c1 ''level'' ?lc) = Ret c2"
    using put_defined [OF lvl1, of "''level''" ?lc] by (cases b) auto
  have m2: "j_isMember J c2 k = (if k = ''level'' then Ret True else j_isMember J c1 k)" for k
    using c2 lvl1 isMember_put by (cases b) auto
  have a2: "k \<noteq> ''level'' \<or> b \<Longrightarrow> j_at J c2 k = j_at J c1 k" for k
    using c2 at_put by (cases b) auto
  obtain v where v: "j_at J c2 ''level'' = Ret v" "j_asString J v = Ret s"
  proof (cases b)
    case True
    with str a1 a2 that show ?thesis by auto
  next
    case False
    then have "j_at J c2 ''level'' = Ret ?lc" using c2 at_put by auto
    with False none that show ?thesis by (simp add: asString_comment asString_string)
  qed
  let ?name = "j_of_string J (levels ! unat (chosen_level s))"
  obtain c3 where c3: "j_put J c2 ''level'' ?name = Ret c3"
    using put_defined [of c2 "''level''" True] m2 [of "''level''"] by fastforce
  have "log_init J f cfg = Ret (c3, chosen_level s)"
    using fil c1 lvl1 c2 v c3
    by (simp add: log_init_def)
  moreover have "j_isMember J c3 k = (if k = ''level'' \<or> k = ''file'' then Ret True else j_isMember J cfg k)" for k
    using isMember_put [OF c3] m1 m2 by auto
  moreover have "j_at J c3 k = j_at J cfg k" if "k \<noteq> ''level''" "k \<noteq> ''file'' \<or> a" for k
    using at_put [OF c3] a1 a2 that by auto
  ultimately show ?thesis using at_put [OF c3, of "''level''"] by (intro exI [of _ c3]) auto
qed

end

section \<open>Properties\<close>

text \<open>The constructor of the log leaves a configuration it reads back unchanged: it stores the
  name of the level it chose (a listed level in any letter case, 3 for anything else), so that
  constructing it again from the completed configuration gives the same level.\<close>

theorem log_init_idempotent:
  assumes "json_isMember cfg ''file'' = Ret a" and "json_isMember cfg ''level'' = Ret True"
    and "json_at cfg ''level'' = Ret v" and "json_asString v = Ret s"
  shows "\<exists>cfg' l. log_init jsoncpp f cfg = Ret (cfg', l)
    \<and> (if map toupper s \<in> set levels then levels ! unat l = map toupper s else l = 3)
    \<and> json_at cfg' ''level'' = Ret (JStr (levels ! unat l))
    \<and> (\<exists>cfg''. log_init jsoncpp f cfg' = Ret (cfg'', l))"
proof -
  obtain cfg' where run: "log_init jsoncpp f cfg = Ret (cfg', chosen_level s)"
    and at: "json_at cfg' ''level'' = Ret (JStr (levels ! unat (chosen_level s)))"
    and mem: "json_isMember cfg' ''file'' = Ret True" "json_isMember cfg' ''level'' = Ret True"
    using jsoncpp.log_init_run [of cfg a True s f] assms by auto
  have "\<exists>cfg''. log_init jsoncpp f cfg' = Ret (cfg'', chosen_level s)"
    using jsoncpp.log_init_run [of cfg' True True "levels ! unat (chosen_level s)" f] mem at
    by (auto simp: chosen_level_name [OF chosen_level_bound])
  with run at chosen_level_spec [of s] show ?thesis by blast
qed

theorem log_init_idempotent_witness:
  "\<exists>cfg' l. log_init jsoncpp ''back.log'' (JObj [(''level'', JStr ''Warn'')]) = Ret (cfg', l)
    \<and> levels ! unat l = ''WARN'' \<and> (\<exists>cfg''. log_init jsoncpp ''back.log'' cfg' = Ret (cfg'', l))"
proof -
  have up: "map toupper ''Warn'' = ''WARN''" by (simp add: toupper_def char_eval)
  show ?thesis
    using log_init_idempotent [of "JObj [(''level'', JStr ''Warn'')]" False "JStr ''Warn''" "''Warn''" "''back.log''"]
    by (simp only: up) (auto simp: levels_def)
qed

text \<open>A message is written, once, as the last line, exactly when its level does not exceed the
  configured one; it goes to the log file, or to standard output when the file cannot be opened,
  and the level it is labelled with is an entry of the table.\<close>

theorem log_write_filter:
  assumes "lg_level lg \<le> 6"
  shows "log_write lg l src msg =
    (if unat l \<le> unat (lg_level lg) then lg\<lparr>lg_lines := lg_lines lg @
       [\<lparr>ln_sink = (if lg_opens lg then LogFile (lg_file lg) else Stdout), ln_level = unat l,
         ln_src = src, ln_msg = msg\<rparr>]\<rparr> else lg)
    \<and> (unat l \<le> unat (lg_level lg) \<longrightarrow> unat l < length levels)"
proof -
  have "unat (lg_level lg) \<le> 6" using assms by (simp add: word_le_nat_alt)
  then show ?thesis by (auto simp: log_write_def word_less_nat_alt)
qed

theorem log_write_filter_witness:
  "log_write \<lparr>lg_level = 3, lg_file = ''f'', lg_opens = False, lg_lines = []\<rparr> 4 ''a'' ''b''
     = \<lparr>lg_level = 3, lg_file = ''f'', lg_opens = False, lg_lines = []\<rparr>"
  using log_write_filter [of "\<lparr>lg_level = 3, lg_file = ''f'', lg_opens = False, lg_lines = []\<rparr>" 4 "''a''" "''b''"]
  by simp

end
