(* ===== verification/World.thy ===== *)
theory World
  imports Log
begin

text \<open>
  The state the objects of the program share, and mysql++ as the code sees it. mysql++ and the
  server behind it are not part of the repository: every operation that uses them takes a record
  \<open>B\<close> of their operations as an argument, over an arbitrary type \<open>'db\<close> of server states. The
  connection pool \<open>dbPool\<close> (\<open>include/backend.h\<close>), the connection an object holds
  (\<open>dbTools::grab\<close> and \<open>dbTools::release\<close> of \<open>src/dbTools.cpp\<close>) and the macros \<open>myqExec\<close> and
  \<open>myqCatch\<close> are modelled as written.
\<close>

section \<open>mysql++\<close>

text \<open>
  A template query and the values set through \<open>template_defaults\<close>; a query that is plain text has
  no values. A result row is a list of cells with their text, as \<open>mysqlpp::Row\<close> holds them.
\<close>

datatype sqlval = VInt int | VStr string | VDbl double | VChar char

datatype query = Query (q_text: string) (q_defaults: "(string \<times> sqlval) list")

type_synonym row = "string list"

text \<open>
  \<open>query.store()\<close> yields a result set, a result that is false, or throws \<open>BadQuery\<close> or another
  exception; \<open>query.exec()\<close> likewise. \<open>ConnectionPool::safe_grab\<close> is documented as a wrapper
  around \<open>grab\<close>, \<open>ping\<close> and \<open>remove\<close>: it grabs connections, removing those that do not answer a
  ping, until one does, none is left or connecting throws; \<open>my_grab\<close> is the number of connections
  removed and how it ended.
\<close>

datatype store_res = Rows "row list" | NoResult | StoreBadQuery | StoreException string

datatype exec_res = ExecOk | ExecFalse | ExecBadQuery | ExecException string

datatype grab_end = Connected | NoConnection | ConnectException string

record 'db mysql =
  my_store :: "query \<Rightarrow> 'db \<Rightarrow> store_res \<times> 'db"
  my_exec :: "query \<Rightarrow> 'db \<Rightarrow> exec_res \<times> 'db"
  my_insert_id :: "'db \<Rightarrow> u32"
  my_error :: "'db \<Rightarrow> string"
  my_str :: "query \<Rightarrow> string"
  my_grab :: "'db \<Rightarrow> (nat \<times> grab_end) \<times> 'db"
  my_int :: "string \<Rightarrow> int option"
  my_u32 :: "string \<Rightarrow> u32 option"
  my_double :: "string \<Rightarrow> double option"

section \<open>The shared state\<close>

text \<open>
  The objects derived from \<open>dbTools\<close> that hold a connection of the pool (a \<open>ressourceClient\<close>
  uses the one of its agent).
\<close>

datatype objid = Manager | Alerting | Aggregator | Agent u32

record alert =
  al_alerter :: string
  al_level :: u32
  al_dest :: string
  al_title :: string
  al_message :: string

record 'db world =
  srv :: 'db
  usedCount :: u32
  poolSize :: u32
  conn :: "objid \<Rightarrow> bool"
  logs :: logger
  sent :: "alert list"

text \<open>The calls \<open>l->error(...)\<close> and so on.\<close>

definition l_error :: "string \<Rightarrow> string \<Rightarrow> ('db world, unit) prog" where
  "l_error src msg = modify (\<lambda>w. w\<lparr>logs := log_error (logs w) src msg\<rparr>)"

definition l_warning :: "string \<Rightarrow> string \<Rightarrow> ('db world, unit) prog" where
  "l_warning src msg = modify (\<lambda>w. w\<lparr>logs := log_warning (logs w) src msg\<rparr>)"

definition l_notice :: "string \<Rightarrow> string \<Rightarrow> ('db world, unit) prog" where
  "l_notice src msg = modify (\<lambda>w. w\<lparr>logs := log_notice (logs w) src msg\<rparr>)"

definition l_info :: "string \<Rightarrow> string \<Rightarrow> ('db world, unit) prog" where
  "l_info src msg = modify (\<lambda>w. w\<lparr>logs := log_info (logs w) src msg\<rparr>)"

lemmas l_defs = l_error_def l_warning_def l_notice_def l_info_def

text \<open>A call of a mysql++ operation moves the server state.\<close>

definition on_srv :: "('db \<Rightarrow> 'a \<times> 'db) \<Rightarrow> ('db world, 'a) prog" where
  "on_srv f = (\<lambda>w. case f (srv w) of (a, d) \<Rightarrow> (Ret a, w\<lparr>srv := d\<rparr>))"

section \<open>The connection pool\<close>

text \<open>
  \<open>dbPool::grab\<close>: it waits while more than \<open>poolSize\<close> connections are in use, counts one more, and
  leaves the rest to \<open>ConnectionPool::grab\<close>. The wait ends only when another thread releases a
  connection. \<open>usedCount\<close> is an \<open>unsigned int\<close>.
\<close>

definition pool_grab :: "('db world, unit) prog" where
  "pool_grab = bnd (gets (\<lambda>w. poolSize w < usedCount w)) (\<lambda>full.
     if full then block else modify (\<lambda>w. w\<lparr>usedCount := usedCount w + 1\<rparr>))"

definition pool_release :: "('db world, unit) prog" where
  "pool_release = modify (\<lambda>w. w\<lparr>usedCount := usedCount w - 1\<rparr>)"

text \<open>
  \<open>safe_grab\<close> calls the virtual \<open>grab\<close> once for every connection it tries, the ones it removes
  included; \<open>remove\<close> does not go through \<open>dbPool::release\<close>.
\<close>

primrec pool_grabs :: "nat \<Rightarrow> ('db world, unit) prog" where
  "pool_grabs 0 = pool_grab"
| "pool_grabs (Suc n) = bnd pool_grab (\<lambda>_. pool_grabs n)"

definition safe_grab :: "'db mysql \<Rightarrow> ('db world, bool) prog" where
  "safe_grab B = bnd (on_srv (my_grab B)) (\<lambda>(dead, end). bnd (pool_grabs dead) (\<lambda>_.
     case end of Connected \<Rightarrow> ret True | NoConnection \<Rightarrow> ret False
     | ConnectException e \<Rightarrow> throw e))"

definition grab :: "'db mysql \<Rightarrow> objid \<Rightarrow> ('db world, bool) prog" where
  "grab B self = bnd (gets (\<lambda>w. conn w self)) (\<lambda>have.
     if have then ret True
     else bnd (safe_grab B) (\<lambda>ok.
          bnd (modify (\<lambda>w. w\<lparr>conn := (conn w)(self := ok)\<rparr>)) (\<lambda>_. ret ok)))"

definition release :: "objid \<Rightarrow> ('db world, unit) prog" where
  "release self = bnd (gets (\<lambda>w. conn w self)) (\<lambda>have.
     if \<not> have then ret ()
     else bnd pool_release (\<lambda>_. modify (\<lambda>w. w\<lparr>conn := (conn w)(self := False)\<rparr>)))"

section \<open>The macros around a query\<close>

definition query_failed :: "'db mysql \<Rightarrow> query \<Rightarrow> string \<Rightarrow> string \<Rightarrow> ('db world, unit) prog" where
  "query_failed B q from msg =
     bnd (l_error from msg) (\<lambda>_. bnd (gets (\<lambda>w. my_error B (srv w))) (\<lambda>e.
     bnd (l_notice from e) (\<lambda>_. l_info from (my_str B q))))"

definition exception_caught :: "string \<Rightarrow> string \<Rightarrow> string \<Rightarrow> ('db world, unit) prog" where
  "exception_caught from msg what = bnd (l_error from msg) (\<lambda>_. l_notice from what)"

definition myqExec :: "'db mysql \<Rightarrow> query \<Rightarrow> string \<Rightarrow> string \<Rightarrow> ('db world, unit) prog" where
  "myqExec B q from msg = bnd (on_srv (my_exec B q)) (\<lambda>r. case r of
       ExecOk \<Rightarrow> ret ()
     | ExecFalse \<Rightarrow> query_failed B q from msg
     | ExecBadQuery \<Rightarrow> query_failed B q from msg
     | ExecException e \<Rightarrow> exception_caught from msg e)"

text \<open>
  \<open>try { if (StoreQueryResult res = query.store()) { ... return v; } } myqCatch(...)\<close>: the body
  gets the rows; it returns \<open>Some v\<close> for \<open>return v\<close> and \<open>None\<close> when control runs on behind the
  \<open>try\<close>, as it also does after a false result or a caught exception.
\<close>

definition try_store :: "'db mysql \<Rightarrow> query \<Rightarrow> string \<Rightarrow> string \<Rightarrow>
    (row list \<Rightarrow> ('db world, 'a option) prog) \<Rightarrow> ('db world, 'a option) prog" where
  "try_store B q from msg body = bnd (on_srv (my_store B q)) (\<lambda>r. case r of
       Rows rs \<Rightarrow> catch (body rs) (\<lambda>e. bnd (exception_caught from msg e) (\<lambda>_. ret None))
     | NoResult \<Rightarrow> ret None
     | StoreBadQuery \<Rightarrow> bnd (query_failed B q from msg) (\<lambda>_. ret None)
     | StoreException e \<Rightarrow> bnd (exception_caught from msg e) (\<lambda>_. ret None))"

text \<open>The same where the body works on an object, too: its changes stay when it throws.\<close>

definition try_store_on :: "'db mysql \<Rightarrow> query \<Rightarrow> string \<Rightarrow> string \<Rightarrow>
    (row list \<Rightarrow> ('x \<times> 'db world, 'a option) prog) \<Rightarrow> ('x \<times> 'db world, 'a option) prog \<Rightarrow>
    ('x \<times> 'db world, 'a option) prog" where
  "try_store_on B q from msg body none = bnd (on_snd (on_srv (my_store B q))) (\<lambda>r. case r of
       Rows rs \<Rightarrow> catch (body rs) (\<lambda>e. bnd (on_snd (exception_caught from msg e)) (\<lambda>_. ret None))
     | NoResult \<Rightarrow> none
     | StoreBadQuery \<Rightarrow> bnd (on_snd (query_failed B q from msg)) (\<lambda>_. ret None)
     | StoreException e \<Rightarrow> bnd (on_snd (exception_caught from msg e)) (\<lambda>_. ret None))"

text \<open>
  \<open>*res.begin()\<close> of an empty result dereferences an end iterator. A cell the row does not have
  throws \<open>BadIndex\<close>, a cell that is no number \<open>BadConversion\<close>.
\<close>

definition first_row :: "row list \<Rightarrow> row outcome" where
  "first_row rs = (case rs of [] \<Rightarrow> Undef | r # _ \<Rightarrow> Ret r)"

definition cell :: "row \<Rightarrow> nat \<Rightarrow> string outcome" where
  "cell r i = (if i < length r then Ret (r ! i) else Throw ''BadIndex'')"

definition conv :: "(string \<Rightarrow> 'a option) \<Rightarrow> row \<Rightarrow> nat \<Rightarrow> 'a outcome" where
  "conv f r i = obind (cell r i) (\<lambda>s. case f s of None \<Rightarrow> Throw ''BadConversion'' | Some a \<Rightarrow> Ret a)"

section \<open>Lemmas\<close>

lemmas pool_defs = pool_grab_def pool_release_def grab_def release_def safe_grab_def

lemma on_srv_run [prog_simps]: "f (srv w) = (a, d) \<Longrightarrow> on_srv f w = (Ret a, w\<lparr>srv := d\<rparr>)"
  by (simp add: on_srv_def)

lemma keeps_on_srv: "(\<And>w d. P w \<Longrightarrow> P (w\<lparr>srv := d\<rparr>)) \<Longrightarrow> keeps P (on_srv f)"
  by (auto simp: keeps_def on_srv_def split: prod.splits)

lemma quiet_log [quiet_intros]:
  "quiet (l_error src msg)" "quiet (l_warning src msg)" "quiet (l_notice src msg)"
  "quiet (l_info src msg)"
  by (simp_all add: l_defs quiet_intros)

lemma quiet_on_srv [quiet_intros]: "quiet (on_srv f)"
  by (auto simp: quiet_def on_srv_def split: prod.splits)

lemma quiet_reports [quiet_intros]:
  "quiet (query_failed B q from msg)" "quiet (exception_caught from msg e)"
  unfolding query_failed_def exception_caught_def by (intro quiet_intros)+

lemma quiet_myqExec [quiet_intros]: "quiet (myqExec B q from msg)"
  unfolding myqExec_def by (intro quiet_intros) (auto split: exec_res.split intro: quiet_intros)

lemma quiet_try_store [quiet_intros]: "quiet (try_store B q from msg body)"
  unfolding try_store_def
  by (intro quiet_intros) (auto split: store_res.split intro!: quiet_intros)

text \<open>What is kept by a query whatever happens to it: anything but the server and the log.\<close>

definition srv_log_free :: "('db world \<Rightarrow> bool) \<Rightarrow> bool" where
  "srv_log_free P \<longleftrightarrow> (\<forall>w d l. P w \<longrightarrow> P (w\<lparr>srv := d\<rparr>) \<and> P (w\<lparr>logs := l\<rparr>))"

lemma keeps_reports [keeps_intros]:
  assumes "srv_log_free P"
  shows "keeps P (query_failed B q from msg)" "keeps P (exception_caught from msg e)"
    "keeps P (l_error src m)" "keeps P (l_warning src m)" "keeps P (l_notice src m)"
    "keeps P (l_info src m)" "keeps P (on_srv f)"
proof -
  have l: "P w \<Longrightarrow> P (w\<lparr>logs := x\<rparr>)" and s: "P w \<Longrightarrow> P (w\<lparr>srv := d\<rparr>)" for w x d
    using assms by (auto simp: srv_log_free_def)
  have logs: "keeps P (l_error src m)" "keeps P (l_warning src m)" "keeps P (l_notice src m)"
    "keeps P (l_info src m)" for src m
    by (auto simp: l_defs intro!: keeps_modify l)
  show "keeps P (query_failed B q from msg)"
    unfolding query_failed_def by (intro keeps_intros logs)
  show "keeps P (exception_caught from msg e)"
    unfolding exception_caught_def by (intro keeps_intros logs)
  show "keeps P (l_error src m)" "keeps P (l_warning src m)" "keeps P (l_notice src m)"
    "keeps P (l_info src m)" by (fact logs)+
  show "keeps P (on_srv f)" by (rule keeps_on_srv) (rule s)
qed

lemma keeps_myqExec [keeps_intros]: "srv_log_free P \<Longrightarrow> keeps P (myqExec B q from msg)"
  unfolding myqExec_def
  by (intro keeps_intros) (auto split: exec_res.split intro: keeps_intros)

lemma keeps_try_store [keeps_intros]:
  "srv_log_free P \<Longrightarrow> (\<And>rs. keeps P (body rs)) \<Longrightarrow> keeps P (try_store B q from msg body)"
  unfolding try_store_def
  by (intro keeps_intros) (auto split: store_res.split intro!: keeps_intros)

section \<open>Examples\<close>

text \<open>
  A start state in which every object holds a connection, and a server that answers every select
  with the same rows and carries every other statement out.
\<close>

definition demo_world :: "'db \<Rightarrow> 'db world" where
  "demo_world d = \<lparr>srv = d, usedCount = 4, poolSize = 32, conn = (\<lambda>self. True),
     logs = \<lparr>lg_level = 3, lg_file = ''back.log'', lg_opens = True, lg_lines = []\<rparr>, sent = []\<rparr>"

lemma demo_world_simps [simp]:
  "conn (demo_world d) self" "srv (demo_world d) = d" "sent (demo_world d) = []"
  by (simp_all add: demo_world_def)

definition fixed_mysql :: "row list \<Rightarrow> 'db mysql" where
  "fixed_mysql rs = \<lparr>my_store = (\<lambda>q d. (Rows rs, d)), my_exec = (\<lambda>q d. (ExecOk, d)),
     my_insert_id = (\<lambda>d. 1), my_error = (\<lambda>d. []), my_str = q_text, my_grab = (\<lambda>d. ((0, Connected), d)),
     my_int = (\<lambda>s. Some (strtol 10 s)), my_u32 = (\<lambda>s. Some (word_of_int (strtol 10 s))),
     my_double = (\<lambda>s. Some (of_int (strtol 10 s)))\<rparr>"

lemma fixed_mysql_simps [simp]:
  "my_store (fixed_mysql rs) q d = (Rows rs, d)" "my_exec (fixed_mysql rs) q d = (ExecOk, d)"
  "my_insert_id (fixed_mysql rs) d = 1"
  "my_int (fixed_mysql rs) s = Some (strtol 10 s)"
  "my_u32 (fixed_mysql rs) s = Some (word_of_int (strtol 10 s))"
  "my_double (fixed_mysql rs) s = Some (of_int (strtol 10 s))"
  by (simp_all add: fixed_mysql_def)

end
