(* ===== verification/Pool.thy ===== *)
theory Pool
  imports World
begin

text \<open>
  The connection pool over time: objects grab and release connections in any order, interleaved
  with steps that do not touch the pool. The theory gives the invariant that holds in every state
  so reached, the number of connections the pool really allows, and what happens to the count when
  \<open>safe_grab\<close> meets connections the server has closed.
\<close>

section \<open>Runs\<close>

definition holders :: "'db world \<Rightarrow> objid set" where
  "holders w = {self. conn w self}"

inductive pool_run :: "'db mysql \<Rightarrow> 'db world \<Rightarrow> bool" for B where
  start: "usedCount w = 0 \<Longrightarrow> holders w = {} \<Longrightarrow> unat (poolSize w) < 2 ^ 32 - 1 \<Longrightarrow> pool_run B w"
| grab: "pool_run B w \<Longrightarrow> pool_run B (snd (grab B self w))"
| release: "pool_run B w \<Longrightarrow> pool_run B (snd (release self w))"
| other: "pool_run B w \<Longrightarrow> usedCount v = usedCount w \<Longrightarrow> poolSize v = poolSize w \<Longrightarrow>
    conn v = conn w \<Longrightarrow> pool_run B v"

definition pool_ok :: "'db world \<Rightarrow> bool" where
  "pool_ok w \<longleftrightarrow> finite (holders w) \<and> card (holders w) \<le> unat (usedCount w)
     \<and> unat (usedCount w) \<le> unat (poolSize w) + 1 \<and> unat (poolSize w) < 2 ^ 32 - 1"

section \<open>Lemmas\<close>

lemma srv_log_free_pool_ok [keeps_intros]: "srv_log_free pool_ok"
  by (simp add: srv_log_free_def pool_ok_def holders_def)

lemma unat_minus_1: "(x :: u32) \<noteq> 0 \<Longrightarrow> unat (x - 1) = unat x - 1"
  by (simp add: unat_minus_one)

lemma pool_grab_cases:
  "pool_grab w = (if poolSize w < usedCount w then (Block, w)
     else (Ret (), w\<lparr>usedCount := usedCount w + 1\<rparr>))"
  by (simp add: pool_grab_def prog_simps)

text \<open>A grab never counts past \<open>poolSize + 1\<close>.\<close>

definition room_inv :: "objid set \<Rightarrow> 'db world \<Rightarrow> bool" where
  "room_inv H w \<longleftrightarrow> holders w = H \<and> finite H \<and> card H \<le> unat (usedCount w)
     \<and> unat (usedCount w) \<le> unat (poolSize w) + 1 \<and> unat (poolSize w) < 2 ^ 32 - 1"

lemma unat_used_plus_1:
  assumes "unat (p :: u32) < 2 ^ 32 - 1" and "\<not> p < u"
  shows "unat (u + 1) = Suc (unat u)"
proof -
  have "unat u \<le> unat p" using assms(2) by (simp add: word_le_nat_alt not_less)
  then have "Suc (unat u) < 2 ^ 32" using assms(1) by simp
  then show ?thesis by (simp add: unat_word_ariths)
qed

lemma keeps_pool_grabs: "keeps (room_inv H) (pool_grabs n)"
proof -
  have one: "keeps (room_inv H) pool_grab"
    by (rule keepsI)
      (auto simp: pool_grab_cases room_inv_def holders_def unat_used_plus_1 word_le_nat_alt not_less)
  show ?thesis by (induction n) (auto intro: keeps_bnd one)
qed

lemma pool_grabs_used:
  assumes "unat (poolSize w) < 2 ^ 32 - 1" and "unat (usedCount w) + n \<le> unat (poolSize w)"
  shows "pool_grabs n w = (Ret (), w\<lparr>usedCount := usedCount w + of_nat n + 1\<rparr>)"
  using assms
proof (induction n arbitrary: w)
  case 0
  then show ?case by (simp add: pool_grab_cases word_less_nat_alt)
next
  case (Suc n)
  have le: "\<not> poolSize w < usedCount w" using Suc.prems(2) by (simp add: word_less_nat_alt)
  then have first: "pool_grab w = (Ret (), w\<lparr>usedCount := usedCount w + 1\<rparr>)"
    by (simp add: pool_grab_cases)
  have "unat (usedCount w + 1) = Suc (unat (usedCount w))"
    using unat_used_plus_1 [OF Suc.prems(1) le] .
  then have "pool_grabs n (w\<lparr>usedCount := usedCount w + 1\<rparr>)
      = (Ret (), w\<lparr>usedCount := usedCount w + 1 + of_nat n + 1\<rparr>)"
    using Suc.IH [of "w\<lparr>usedCount := usedCount w + 1\<rparr>"] Suc.prems by simp
  with first show ?case by (simp add: bnd_def add_ac)
qed

lemma grab_fresh:
  assumes "\<not> conn w self" and "my_grab B (srv w) = ((n, e), d)"
    and "pool_grabs n (w\<lparr>srv := d\<rparr>) = (Ret (), v)"
  shows "grab B self w = (case e of
      Connected \<Rightarrow> (Ret True, v\<lparr>conn := (conn v)(self := True)\<rparr>)
    | NoConnection \<Rightarrow> (Ret False, v\<lparr>conn := (conn v)(self := False)\<rparr>)
    | ConnectException x \<Rightarrow> (Throw x, v))"
  using assms
  by (cases e) (simp_all add: grab_def safe_grab_def bnd_def gets_def on_srv_def modify_def ret_def throw_def)

lemma pool_ok_room_inv: "pool_ok w \<longleftrightarrow> room_inv (holders w) w"
  by (simp add: pool_ok_def room_inv_def)

lemma pool_grabs_room:
  "room_inv H w \<Longrightarrow> pool_grabs n w = (Ret (), v) \<Longrightarrow>
     room_inv H v \<and> card H < unat (usedCount v) \<and> conn v = conn w"
proof (induction n arbitrary: w)
  case 0
  then show ?case
    by (auto simp: pool_grab_cases room_inv_def holders_def unat_used_plus_1 word_le_nat_alt not_less
        split: if_splits)
next
  case (Suc n)
  from Suc.prems(2) have le: "\<not> poolSize w < usedCount w"
    and rest: "pool_grabs n (w\<lparr>usedCount := usedCount w + 1\<rparr>) = (Ret (), v)"
    by (auto simp: bnd_def pool_grab_cases split: if_splits)
  have "room_inv H (w\<lparr>usedCount := usedCount w + 1\<rparr>)"
    using Suc.prems(1) le
    by (auto simp: room_inv_def holders_def unat_used_plus_1 word_le_nat_alt not_less)
  from Suc.IH [OF this rest] show ?case by simp
qed

lemma pool_grabs_quiet: "quiet (pool_grabs n)"
  by (induction n) (auto simp: pool_grab_def intro!: quiet_intros)

lemma grab_pool_ok: "pool_ok w \<Longrightarrow> pool_ok (snd (grab B self w))"
proof (cases "conn w self")
  case True
  then show "pool_ok w \<Longrightarrow> ?thesis" by (simp add: grab_def bnd_def gets_def ret_def)
next
  case False
  assume ok: "pool_ok w"
  obtain n e d where g: "my_grab B (srv w) = ((n, e), d)" by (metis prod.exhaust)
  let ?w = "w\<lparr>srv := d\<rparr>" and ?H = "holders w"
  have inv: "room_inv ?H ?w" using ok by (simp add: pool_ok_room_inv room_inv_def holders_def)
  obtain r v where run: "pool_grabs n ?w = (r, v)" by fastforce
  have v: "room_inv ?H v" using keeps_run [OF keeps_pool_grabs run inv] .
  have step: "grab B self w = bnd (bnd (pool_grabs n) (\<lambda>_. case e of Connected \<Rightarrow> ret True
      | NoConnection \<Rightarrow> ret False | ConnectException x \<Rightarrow> throw x))
      (\<lambda>ok. bnd (modify (\<lambda>w. w\<lparr>conn := (conn w)(self := ok)\<rparr>)) (\<lambda>_. ret ok)) ?w"
    using False g by (simp add: grab_def safe_grab_def bnd_gets) (simp add: bnd_def on_srv_def)
  show ?thesis
  proof (cases r)
    case (Ret u)
    then have room: "room_inv ?H v \<and> card ?H < unat (usedCount v) \<and> conn v = conn w"
      using pool_grabs_room [OF inv, of n v] run by simp
    have "holders (v\<lparr>conn := (conn v)(self := True)\<rparr>) = insert self ?H"
      and "holders (v\<lparr>conn := (conn v)(self := False)\<rparr>) = ?H"
      using room False by (auto simp: holders_def)
    with room have "pool_ok (v\<lparr>conn := (conn v)(self := b)\<rparr>)" for b
      by (cases b) (auto simp: pool_ok_def room_inv_def card_insert_if)
    moreover have "pool_ok v" using room by (auto simp: pool_ok_def room_inv_def)
    ultimately show ?thesis
      using step run Ret by (cases e) (simp_all add: bnd_def modify_def ret_def throw_def)
  qed (use step run v in \<open>simp_all add: bnd_def pool_ok_def room_inv_def\<close>)
qed

lemma release_run: "release self w = (Ret (), if conn w self
    then w\<lparr>usedCount := usedCount w - 1, conn := (conn w)(self := False)\<rparr> else w)"
  by (simp add: release_def pool_release_def bnd_def gets_def ret_def modify_def)

lemma release_pool_ok: "pool_ok w \<Longrightarrow> pool_ok (snd (release self w))"
proof (cases "conn w self")
  case True
  assume ok: "pool_ok w"
  have mem: "self \<in> holders w" using True by (simp add: holders_def)
  have h: "holders (snd (release self w)) = holders w - {self}"
    using True by (auto simp: release_run holders_def)
  have pos: "0 < card (holders w)" using ok mem by (auto simp: pool_ok_def card_gt_0_iff)
  then have used: "usedCount w \<noteq> 0" using ok by (auto simp: pool_ok_def)
  have minus: "unat (usedCount w - 1) = unat (usedCount w) - 1" using used by (rule unat_minus_1)
  have card: "card (holders w - {self}) = card (holders w) - 1" using mem by simp
  have fields: "usedCount (snd (release self w)) = usedCount w - 1"
    "poolSize (snd (release self w)) = poolSize w"
    using True by (simp_all add: release_run)
  show ?thesis
    using ok unfolding pool_ok_def fields h card minus by auto
qed (simp add: release_run)

lemma keeps_pool_ok [keeps_intros]: "keeps pool_ok (grab B self)" "keeps pool_ok (release self)"
  by (simp_all add: keeps_def grab_pool_ok release_pool_ok)

lemma pool_run_ok: "pool_run B w \<Longrightarrow> pool_ok w"
proof (induction rule: pool_run.induct)
  case (start w)
  then show ?case by (simp add: pool_ok_def)
next
  case (grab w self)
  from grab.IH show ?case by (rule grab_pool_ok)
next
  case (release w self)
  from release.IH show ?case by (rule release_pool_ok)
next
  case (other w v)
  then show ?case by (simp add: pool_ok_def holders_def)
qed

text \<open>Connections taken one after the other by different agents, with a server that answers.\<close>

lemma pool_fill:
  fixes B :: "'db mysql" and w :: "'db world"
  assumes alive: "\<And>d. my_grab B d = ((0, Connected), d)" and p: "unat p < 2 ^ 32 - 1"
    and init: "usedCount w = 0" "holders w = {}" "poolSize w = p"
  shows "m \<le> unat p + 1 \<Longrightarrow> \<exists>v. pool_run B v \<and> poolSize v = p \<and> unat (usedCount v) = m
     \<and> holders v = (\<lambda>i. Agent (of_nat i)) ` {..<m}"
proof (induction m)
  case 0
  have "pool_run B w" using init p by (intro pool_run.start) simp_all
  with init show ?case by (intro exI [of _ w]) simp
next
  case (Suc m)
  then obtain v where v: "pool_run B v" "poolSize v = p" "unat (usedCount v) = m"
    "holders v = (\<lambda>i. Agent (of_nat i)) ` {..<m}"
    by auto
  let ?a = "Agent (of_nat m)"
  have m: "m < 2 ^ 32" using Suc.prems p by simp
  have fresh: "\<not> conn v ?a"
  proof
    assume "conn v ?a"
    then have "?a \<in> (\<lambda>i. Agent (of_nat i)) ` {..<m}"
      unfolding v(4) [symmetric] by (simp add: holders_def)
    then obtain i where i: "i < m" "(of_nat i :: u32) = of_nat m" by auto
    have "unat (of_nat i :: u32) = i" and "unat (of_nat m :: u32) = m"
      using i(1) m by (simp_all add: unsigned_of_nat take_bit_nat_eq_self)
    with i show False by simp
  qed
  have le: "\<not> poolSize v < usedCount v"
    using v(2,3) Suc.prems by (simp add: word_less_nat_alt)
  have "pool_grabs 0 (v\<lparr>srv := srv v\<rparr>) = (Ret (), v\<lparr>usedCount := usedCount v + 1\<rparr>)"
    using le by (simp add: pool_grab_cases)
  from grab_fresh [OF fresh alive this]
  have run: "snd (grab B ?a v) = v\<lparr>usedCount := usedCount v + 1, conn := (conn v)(?a := True)\<rparr>"
    by simp
  have "holders (snd (grab B ?a v)) = insert ?a (holders v)"
    by (auto simp: run holders_def)
  moreover have "unat (usedCount (snd (grab B ?a v))) = Suc m"
    using unat_used_plus_1 [OF _ le] v(2,3) p by (simp add: run)
  moreover have "poolSize (snd (grab B ?a v)) = p" using v(2) by (simp add: run)
  moreover have "pool_run B (snd (grab B ?a v))" using v(1) by (rule pool_run.grab)
  ultimately show ?case
    using v(4) by (intro exI [of _ "snd (grab B ?a v)"]) (auto simp: lessThan_Suc)
qed

lemma inj_agents: "m \<le> 2 ^ 32 \<Longrightarrow> inj_on (\<lambda>i. Agent (of_nat i)) {..<m}"
proof (rule inj_onI)
  fix x y
  assume "m \<le> 2 ^ 32" "x \<in> {..<m}" "y \<in> {..<m}" and eq: "Agent (of_nat x) = Agent (of_nat y)"
  then have lt: "x < 2 ^ 32" "y < 2 ^ 32" by simp_all
  have "unat (of_nat x :: u32) = unat (of_nat y :: u32)" using eq by simp
  moreover have "unat (of_nat i :: u32) = i" if "i < 2 ^ 32" for i
    using that by (simp add: unsigned_of_nat take_bit_nat_eq_self)
  ultimately show "x = y" using lt by simp
qed

section \<open>Properties\<close>

text \<open>C19. In every state the objects can reach by grabbing and releasing connections in any order,
  whatever the server does, \<open>usedCount\<close> covers every connection an object holds and never exceeds
  \<open>poolSize + 1\<close>, so that no more than \<open>poolSize + 1\<close> connections are held.\<close>

theorem pool_invariant:
  assumes "pool_run B w"
  shows "finite (holders w) \<and> card (holders w) \<le> unat (usedCount w)
    \<and> unat (usedCount w) \<le> unat (poolSize w) + 1"
  using pool_run_ok [OF assms] by (simp add: pool_ok_def)

definition idle_world :: "u32 \<Rightarrow> 'db \<Rightarrow> 'db world" where
  "idle_world p d = \<lparr>srv = d, usedCount = 0, poolSize = p, conn = (\<lambda>self. False),
     logs = \<lparr>lg_level = 3, lg_file = ''back.log'', lg_opens = True, lg_lines = []\<rparr>, sent = []\<rparr>"

definition live_server :: "unit mysql" where
  "live_server = \<lparr>my_store = (\<lambda>q d. (NoResult, d)), my_exec = (\<lambda>q d. (ExecOk, d)),
     my_insert_id = (\<lambda>d. 0), my_error = (\<lambda>d. []), my_str = q_text,
     my_grab = (\<lambda>d. ((0, Connected), d)), my_int = (\<lambda>s. None), my_u32 = (\<lambda>s. None),
     my_double = (\<lambda>s. None)\<rparr>"

lemma idle_world_simps [simp]:
  "usedCount (idle_world p d) = 0" "poolSize (idle_world p d) = p" "holders (idle_world p d) = {}"
  "conn (idle_world p d) self = False" "srv (idle_world p d) = d"
  by (simp_all add: idle_world_def holders_def)

theorem pool_invariant_witness:
  "card (holders (snd (grab live_server Manager (idle_world 32 ()))))
     \<le> unat (usedCount (snd (grab live_server Manager (idle_world 32 ()))))"
  using pool_invariant [OF pool_run.grab [OF pool_run.start, of "idle_world 32 ()" live_server Manager]]
  by simp

text \<open>The bound is reached: with a server that answers, there is a run after which
  \<open>poolSize + 1\<close> objects hold a connection, one more than the configured number of concurrent
  connections.\<close>

theorem pool_oversubscribed:
  assumes "\<And>d. my_grab B d = ((0, Connected), d)" and "unat p < 2 ^ 32 - 1"
  shows "\<exists>w. pool_run B w \<and> poolSize w = p \<and> card (holders w) = unat p + 1"
proof -
  obtain w where w: "pool_run B w" "poolSize w = p"
    "holders w = (\<lambda>i. Agent (of_nat i)) ` {..<unat p + 1}"
    using pool_fill [OF assms(1,2), of "idle_world p undefined" "unat p + 1"] by auto
  have "card (holders w) = unat p + 1"
    unfolding w(3) using assms(2) by (subst card_image [OF inj_agents]) simp_all
  with w show ?thesis by blast
qed

theorem pool_oversubscribed_witness:
  "\<exists>w. pool_run live_server w \<and> poolSize w = 32 \<and> card (holders w) = 33"
  using pool_oversubscribed [of live_server 32] by (simp add: live_server_def)

text \<open>C38. Connections that do not answer a ping leak: when \<open>safe_grab\<close> removes \<open>n\<close> of them before
  it finds a live one, an object that grabs a connection and releases it again leaves
  \<open>usedCount\<close> larger by \<open>n\<close>, though it holds nothing.\<close>

theorem pool_leaks_dead_connections:
  assumes "\<not> conn w self" and "my_grab B (srv w) = ((n, Connected), d)"
    and "unat (usedCount w) + n \<le> unat (poolSize w)" and "unat (poolSize w) < 2 ^ 32 - 1"
  shows "bnd (grab B self) (\<lambda>_. release self) w
    = (Ret (), w\<lparr>srv := d, usedCount := usedCount w + of_nat n\<rparr>)"
proof -
  have "pool_grabs n (w\<lparr>srv := d\<rparr>) = (Ret (), w\<lparr>srv := d, usedCount := usedCount w + of_nat n + 1\<rparr>)"
    using pool_grabs_used [of "w\<lparr>srv := d\<rparr>" n] assms(3,4) by simp
  note grabbed = grab_fresh [OF assms(1,2) this]
  have "(conn w)(self := False) = conn w" using assms(1) by (simp add: fun_eq_iff)
  with grabbed show ?thesis by (simp add: bnd_def release_run)
qed

definition flaky_server :: "nat \<Rightarrow> unit mysql" where
  "flaky_server n = live_server\<lparr>my_grab := (\<lambda>d. ((n, Connected), d))\<rparr>"

theorem pool_leaks_dead_connections_witness:
  "bnd (grab (flaky_server 3) Manager) (\<lambda>_. release Manager) (idle_world 32 ())
     = (Ret (), (idle_world 32 ())\<lparr>usedCount := 3\<rparr>)"
  using pool_leaks_dead_connections [of "idle_world 32 ()" Manager "flaky_server 3" 3 "()"]
  by (simp add: flaky_server_def idle_world_def)

text \<open>Once the count has passed \<open>poolSize\<close>, an object without a connection waits in
  \<open>grab\<close> without counting anything, even when no object holds a connection and none can release
  one.\<close>

theorem pool_exhausted_blocks:
  assumes "\<not> conn w self" and "poolSize w < usedCount w"
  shows "fst (grab B self w) = Block \<and> usedCount (snd (grab B self w)) = usedCount w"
proof -
  obtain n e d where g: "my_grab B (srv w) = ((n, e), d)" by (metis prod.exhaust)
  have "pool_grabs n (w\<lparr>srv := d\<rparr>) = (Block, w\<lparr>srv := d\<rparr>)"
    using assms(2) by (cases n) (simp_all add: pool_grab_cases bnd_def)
  with assms(1) g show ?thesis
    by (simp add: grab_def safe_grab_def bnd_gets) (simp add: bnd_def on_srv_def)
qed

theorem pool_exhausted_blocks_witness:
  "fst (grab live_server Manager ((idle_world 2 ())\<lparr>usedCount := 3\<rparr>)) = Block"
  using pool_exhausted_blocks [of "(idle_world 2 ())\<lparr>usedCount := 3\<rparr>" Manager live_server]
  by (simp add: idle_world_def)

end
