(* ===== verification/PoolRace.thy ===== *)
theory PoolRace
  imports Pool
begin

text \<open>
  The counter of the pool under threads. \<open>grab\<close> and \<open>release\<close> of \<open>dbPool\<close> (\<open>include/backend.h\<close>)
  are called from the main thread, the thread of every agent and that of the aggregator, and
  neither holds a lock: \<open>usedCount\<close> is a plain \<open>unsigned int\<close>. Here every access to it is a step of
  its own, a thread is a program counter, and a schedule says whose turn it is.
\<close>

section \<open>Threads\<close>

text \<open>
  Where a thread stands: outside of the pool, before the test of the loop in \<open>grab\<close>, behind it,
  between the read and the write of \<open>++usedCount\<close>, in possession of a connection, behind giving it
  back, and between the read and the write of \<open>--usedCount\<close>.
\<close>

datatype pool_pc = Outside | Testing | Passed | Adding u32 | Holding | Returned | Subtracting u32

record race =
  race_used :: u32
  race_pc :: "nat \<Rightarrow> pool_pc"

fun advance :: "u32 \<Rightarrow> pool_pc \<Rightarrow> u32 \<Rightarrow> pool_pc \<times> u32" where
  "advance limit Outside used = (Testing, used)"
| "advance limit Testing used = (if limit < used then Testing else Passed, used)"
| "advance limit Passed used = (Adding used, used)"
| "advance limit (Adding v) used = (Holding, v + 1)"
| "advance limit Holding used = (Returned, used)"
| "advance limit Returned used = (Subtracting used, used)"
| "advance limit (Subtracting v) used = (Outside, v - 1)"

definition race_step :: "u32 \<Rightarrow> nat \<Rightarrow> race \<Rightarrow> race" where
  "race_step limit t s = (case advance limit (race_pc s t) (race_used s) of (p, u) \<Rightarrow>
     \<lparr>race_used = u, race_pc = (race_pc s)(t := p)\<rparr>)"

definition race_run :: "u32 \<Rightarrow> nat list \<Rightarrow> race \<Rightarrow> race" where
  "race_run limit ts s = fold (race_step limit) ts s"

section \<open>Lemmas\<close>

lemma race_run_simps [simp]:
  "race_run limit [] s = s"
  "race_run limit (t # ts) s = race_run limit ts (race_step limit t s)"
  by (simp_all add: race_run_def)

lemma race_run_append: "race_run limit (ts @ us) s = race_run limit us (race_run limit ts s)"
  by (simp add: race_run_def)

lemma race_step_simps [simp]:
  "race_used (race_step limit t s) = snd (advance limit (race_pc s t) (race_used s))"
  "race_pc (race_step limit t s) = (race_pc s)(t := fst (advance limit (race_pc s t) (race_used s)))"
  by (simp_all add: race_step_def split: prod.split)

text \<open>Nobody is in the pool, and nobody gets in.\<close>

definition shut :: "u32 \<Rightarrow> race \<Rightarrow> bool" where
  "shut limit s \<longleftrightarrow> limit < race_used s \<and> (\<forall>t. race_pc s t = Outside \<or> race_pc s t = Testing)"

lemma shut_step:
  assumes "shut limit s"
  shows "shut limit (race_step limit t s) \<and> race_used (race_step limit t s) = race_used s"
proof -
  have "limit < race_used s" "race_pc s t = Outside \<or> race_pc s t = Testing" using assms by (auto simp: shut_def)
  then consider "race_pc s t = Outside" "limit < race_used s" | "race_pc s t = Testing" "limit < race_used s" by blast
  then show ?thesis using assms by cases (simp_all add: shut_def)
qed

lemma shut_run: "shut limit s \<Longrightarrow> shut limit (race_run limit ts s) \<and> race_used (race_run limit ts s) = race_used s"
proof (induction ts arbitrary: s)
  case (Cons t ts)
  from shut_step [OF Cons.prems, of t] Cons.IH show ?case by simp
qed simp

lemma shut_grabs: "shut limit s \<Longrightarrow> race_pc (race_run limit ts s) t \<in> {Outside, Testing}"
  using shut_run [of limit s ts] by (auto simp: shut_def)

text \<open>One thread alone.\<close>

lemma alone_in:
  assumes "race_pc s t = Outside"
  shows "race_used (race_run limit [t, t, t, t] s) = (if limit < race_used s then race_used s else race_used s + 1)"
    and "race_pc (race_run limit [t, t, t, t] s) t = (if limit < race_used s then Testing else Holding)"
  using assms by (cases "limit < race_used s"; simp)+

lemma alone_out:
  assumes "race_pc s t = Holding"
  shows "race_used (race_run limit [t, t, t] s) = race_used s - 1"
    and "race_pc (race_run limit [t, t, t] s) t = Outside"
  using assms by simp_all

text \<open>The schedules of the examples: two threads come and go in step.\<close>

definition both_in :: "nat \<Rightarrow> nat \<Rightarrow> nat list" where
  "both_in a b = [a, b, a, b, a, b, a, b]"

definition out_one_by_one :: "nat \<Rightarrow> nat \<Rightarrow> nat list" where
  "out_one_by_one a b = [a, a, a, b, b, b]"

lemma both_in_run:
  assumes "a \<noteq> b" "race_pc s a = Outside" "race_pc s b = Outside" "race_used s \<le> limit"
  shows "race_used (race_run limit (both_in a b) s) = race_used s + 1"
    and "race_pc (race_run limit (both_in a b) s) = (race_pc s)(a := Holding, b := Holding)"
proof -
  have "\<not> limit < race_used s" using assms(4) by (simp add: not_less)
  with assms(1-3) show "race_used (race_run limit (both_in a b) s) = race_used s + 1"
    "race_pc (race_run limit (both_in a b) s) = (race_pc s)(a := Holding, b := Holding)"
    by (simp_all add: both_in_def fun_eq_iff)
qed

lemma out_one_by_one_run:
  assumes "a \<noteq> b" "race_pc s a = Holding" "race_pc s b = Holding"
  shows "race_used (race_run limit (out_one_by_one a b) s) = race_used s - 2"
    and "race_pc (race_run limit (out_one_by_one a b) s) = (race_pc s)(a := Outside, b := Outside)"
  using assms by (simp_all add: out_one_by_one_def fun_eq_iff)

section \<open>Properties\<close>



text \<open>C20. A lost update shuts the pool for good: two threads that use an empty pool once each, at the
  same time, are counted as one; when both have given their connections back the counter has
  wrapped around to its greatest value, and from then on no thread ever gets a connection, whatever
  the schedule, although nobody holds one.\<close>

theorem lost_update_shuts_pool:
  assumes "\<And>t. race_pc s t = Outside" and "race_used s = 0" and "limit < - 1" and "a \<noteq> b"
  shows "\<exists>ts us. set (ts @ us) = {a, b}
    \<and> race_pc (race_run limit ts s) a = Holding \<and> race_pc (race_run limit ts s) b = Holding
    \<and> race_used (race_run limit ts s) = 1
    \<and> (\<forall>t. race_pc (race_run limit (ts @ us) s) t = Outside)
    \<and> race_used (race_run limit (ts @ us) s) = - 1
    \<and> (\<forall>vs t. race_pc (race_run limit (ts @ us @ vs) s) t \<in> {Outside, Testing})"
proof (intro exI conjI)
  let ?ts = "both_in a b" and ?us = "out_one_by_one a b"
  have ts: "race_used (race_run limit ?ts s) = 1"
    "race_pc (race_run limit ?ts s) = (race_pc s)(a := Holding, b := Holding)"
    using both_in_run [of a b s limit] assms by simp_all
  show "set (?ts @ ?us) = {a, b}" by (auto simp: both_in_def out_one_by_one_def)
  show "race_pc (race_run limit ?ts s) a = Holding" "race_pc (race_run limit ?ts s) b = Holding"
    using ts by simp_all
  show "race_used (race_run limit ?ts s) = 1" by (rule ts)
  have us: "race_used (race_run limit (?ts @ ?us) s) = - 1"
    "race_pc (race_run limit (?ts @ ?us) s) = (\<lambda>t. Outside)"
    using out_one_by_one_run [of a b "race_run limit ?ts s" limit] ts assms(1,4)
    by (simp_all add: race_run_append fun_eq_iff)
  then show "\<forall>t. race_pc (race_run limit (?ts @ ?us) s) t = Outside" "race_used (race_run limit (?ts @ ?us) s) = - 1"
    by simp_all
  from us assms(3) have "shut limit (race_run limit (?ts @ ?us) s)" by (simp add: shut_def)
  then show "\<forall>vs t. race_pc (race_run limit (?ts @ ?us @ vs) s) t \<in> {Outside, Testing}"
    using shut_grabs by (simp add: race_run_append)
qed

theorem lost_update_shuts_pool_witness:
  "\<exists>ts. \<forall>vs t. race_pc (race_run 32 (ts @ vs) \<lparr>race_used = 0, race_pc = (\<lambda>t. Outside)\<rparr>) t \<noteq> Holding"
proof -
  obtain ts us where "\<forall>vs t. race_pc (race_run 32 (ts @ us @ vs) \<lparr>race_used = 0, race_pc = (\<lambda>t. Outside)\<rparr>) t
      \<in> {Outside, Testing}"
    using lost_update_shuts_pool [of "\<lparr>race_used = 0, race_pc = (\<lambda>t. Outside)\<rparr>" 32 0 1] by auto
  then have "race_pc (race_run 32 ((ts @ us) @ vs) \<lparr>race_used = 0, race_pc = (\<lambda>t. Outside)\<rparr>) t \<noteq> Holding" for vs t
    by (metis append.assoc insert_iff empty_iff pool_pc.distinct(7) pool_pc.distinct(17))
  then show ?thesis by blast
qed

end
