(* ===== verification/DbTools.thy ===== *)
theory DbTools
  imports World
begin

text \<open>
  The queries every component shares (class \<open>dbTools\<close>, \<open>src/dbTools.cpp\<close>): existence tests
  (\<open>have...\<close>), lookups of names and ids, and the get-or-create functions that insert a missing
  row before they look its id up. One definition per member function, with the query text, the
  values bound to it, the messages and the value returned on every path.
\<close>

section \<open>The common shape\<close>

definition with_conn :: "'db mysql \<Rightarrow> objid \<Rightarrow> string \<Rightarrow> 'a \<Rightarrow> ('db world, 'a) prog \<Rightarrow> ('db world, 'a) prog" where
  "with_conn B self from d m = bnd (grab B self) (\<lambda>ok.
     if ok then m
     else bnd (l_error from ''Failed to get a connection from the pool!'') (\<lambda>_. ret d))"

text \<open>
  The value found by the query, or what the function does when control leaves the \<open>try\<close> block
  without one. A function that returns \<open>std::string\<close> says \<open>return 0\<close> there, which builds a string
  from a null pointer: undefined behaviour.
\<close>

definition ask :: "'db mysql \<Rightarrow> query \<Rightarrow> string \<Rightarrow> string \<Rightarrow> (row list \<Rightarrow> 'a outcome) \<Rightarrow>
    ('db world, 'a) prog \<Rightarrow> ('db world, 'a) prog" where
  "ask B q from msg body none =
     bnd (try_store B q from msg (\<lambda>rs. bnd (lift (body rs)) (\<lambda>a. ret (Some a)))) (\<lambda>r.
       case r of Some a \<Rightarrow> ret a | None \<Rightarrow> none)"

text \<open>\<open>return int(row[0]) > 0\<close>, \<open>return int(row[0])\<close> (converted to \<open>uint32_t\<close>), \<open>return row[0].c_str()\<close>.\<close>

definition row_positive :: "'db mysql \<Rightarrow> row list \<Rightarrow> bool outcome" where
  "row_positive B rs = obind (first_row rs) (\<lambda>r. obind (conv (my_int B) r 0) (\<lambda>n. Ret (0 < n)))"

definition row_id :: "'db mysql \<Rightarrow> row list \<Rightarrow> u32 outcome" where
  "row_id B rs = obind (first_row rs) (\<lambda>r. obind (conv (my_int B) r 0) (\<lambda>n. Ret (word_of_int n)))"

definition row_text :: "row list \<Rightarrow> string outcome" where
  "row_text rs = obind (first_row rs) (\<lambda>r. obind (cell r 0) (\<lambda>s. Ret (c_str s)))"

text \<open>Values bound to a query: \<open>s.c_str()\<close> and an \<open>uint32_t\<close>.\<close>

definition v_str :: "string \<Rightarrow> sqlval" where
  "v_str s = VStr (c_str s)"

definition v_u32 :: "u32 \<Rightarrow> sqlval" where
  "v_u32 n = VInt (uint n)"

definition to_str :: "u32 \<Rightarrow> string" where
  "to_str n = dec (unat n)"

section \<open>The two repeated function bodies\<close>

text \<open>An existence test: a \<open>count(*)\<close> query whose single cell is compared with 0.\<close>

definition have_row :: "'db mysql \<Rightarrow> objid \<Rightarrow> string \<Rightarrow> query \<Rightarrow> string \<Rightarrow> ('db world, bool) prog" where
  "have_row B self from q msg =
     with_conn B self from False (ask B q from msg (row_positive B) (ret False))"

text \<open>A lookup of an id, 0 when there is no connection or the query failed.\<close>

definition get_id :: "'db mysql \<Rightarrow> objid \<Rightarrow> string \<Rightarrow> query \<Rightarrow> string \<Rightarrow> ('db world, u32) prog" where
  "get_id B self from q msg =
     with_conn B self from 0 (ask B q from msg (row_id B) (ret 0))"

text \<open>
  Get or create: test, insert when the test said no (a failed insert is logged and ignored), look
  the id up.
\<close>

definition get_or_create :: "'db mysql \<Rightarrow> objid \<Rightarrow> string \<Rightarrow> ('db world, bool) prog \<Rightarrow>
    query \<Rightarrow> string \<Rightarrow> query \<Rightarrow> string \<Rightarrow> ('db world, u32) prog" where
  "get_or_create B self from have ins ins_msg sel msg = with_conn B self from 0
     (bnd have (\<lambda>found.
      bnd (if found then ret () else myqExec B ins from ins_msg) (\<lambda>_.
      ask B sel from msg (row_id B) (ret 0))))"

section \<open>The functions\<close>

definition haveProcessStatus :: "'db mysql \<Rightarrow> objid \<Rightarrow> u32 \<Rightarrow> string \<Rightarrow> string \<Rightarrow> ('db world, bool) prog" where
  "haveProcessStatus B self p_serv_id p_name p_status = have_row B self ''dbTools::haveProcessStatus''
     (Query ''select count(*) from s$process where serv_id=%0:id and name=%1q:na and status=%2q:st''
        [(''id'', v_u32 p_serv_id), (''na'', v_str p_name), (''st'', v_str p_status)])
     (''Failed to get count for '' @ to_str p_serv_id)"

definition haveSocketStatus :: "'db mysql \<Rightarrow> objid \<Rightarrow> u32 \<Rightarrow> string \<Rightarrow> string \<Rightarrow> ('db world, bool) prog" where
  "haveSocketStatus B self p_serv_id p_name p_status = have_row B self ''dbTools::haveSocketStatus''
     (Query ''select count(*) from s$sockets where serv_id=%0:id and name=%1q:na and status=%2q:st''
        [(''id'', v_u32 p_serv_id), (''na'', v_str p_name), (''st'', v_str p_status)])
     (''Failed to get count for '' @ to_str p_serv_id)"

definition haveLogEvent :: "'db mysql \<Rightarrow> objid \<Rightarrow> u32 \<Rightarrow> string \<Rightarrow> u32 \<Rightarrow> string \<Rightarrow> ('db world, bool) prog" where
  "haveLogEvent B self p_serv_id p_source_name p_line_no p_date_field = have_row B self ''dbTools::haveLogEvent''
     (Query ''select count(*) from s$log_events where serv_id=%0:id and source_name=%1q:sn and line_no=%2:ln and date_field=%3q:df''
        [(''id'', v_u32 p_serv_id), (''sn'', v_str p_source_name), (''ln'', v_u32 p_line_no), (''df'', v_str p_date_field)])
     (''Failed to get count for '' @ to_str p_serv_id)"

definition haveTable :: "'db mysql \<Rightarrow> objid \<Rightarrow> string \<Rightarrow> ('db world, bool) prog" where
  "haveTable B self p_name = have_row B self ''dbTools::haveTable''
     (Query ''select count(*) from information_schema.tables where TABLE_SCHEMA=DATABASE() and table_name=%0q:tn''
        [(''tn'', v_str p_name)])
     (''Failed to get count for '' @ p_name)"

definition haveRessource :: "'db mysql \<Rightarrow> objid \<Rightarrow> string \<Rightarrow> string \<Rightarrow> ('db world, bool) prog" where
  "haveRessource B self p_origin p_name = have_row B self ''dbTools::haveRessource''
     (Query ''select count(*) from c$ressources where name=%0q:tn and origin=%1q:or''
        [(''tn'', v_str p_name), (''or'', v_str p_origin)])
     (''Failed to get count for '' @ p_name)"

definition getRessourceId :: "'db mysql \<Rightarrow> objid \<Rightarrow> string \<Rightarrow> string \<Rightarrow> ('db world, u32) prog" where
  "getRessourceId B self p_origin p_res = get_id B self ''dbTools::getRessourceId''
     (Query ''select id from c$ressources where name=%0q:rs and origin=%1q:or''
        [(''rs'', v_str p_res), (''or'', v_str p_origin)])
     (''Failed to get name for '' @ p_res)"

text \<open>Without a connection this one, too, says \<open>return 0\<close> for a string.\<close>

definition getRessourceName :: "'db mysql \<Rightarrow> objid \<Rightarrow> u32 \<Rightarrow> ('db world, string) prog" where
  "getRessourceName B self p_res = bnd (grab B self) (\<lambda>ok.
     if \<not> ok then
       bnd (l_error ''dbTools::getRessourceName'' ''Failed to get a connection from the pool!'') (\<lambda>_. undef)
     else ask B (Query ''select name from c$ressources where id=%0:id'' [(''id'', v_u32 p_res)])
            ''dbTools::getRessourceName'' (''Failed to get name for '' @ to_str p_res) row_text undef)"

definition tableHasColumn :: "'db mysql \<Rightarrow> objid \<Rightarrow> string \<Rightarrow> string \<Rightarrow> ('db world, bool) prog" where
  "tableHasColumn B self p_name p_col = bnd (haveTable B self p_name) (\<lambda>have.
     if \<not> have then ret False
     else with_conn B self ''dbTools::tableHasColumn'' False
       (ask B (Query ''select count(*) from information_schema.columns where TABLE_SCHEMA=DATABASE() and table_name=%0q:tn and column_name=%1q:cl''
                 [(''tn'', v_str p_name), (''cl'', v_str p_col)])
          ''dbTools::tableHasColumn'' (''Failed to get count for '' @ p_name @ ''.'' @ p_col)
          (row_positive B) (ret False)))"

definition haveBackend :: "'db mysql \<Rightarrow> objid \<Rightarrow> string \<Rightarrow> string \<Rightarrow> ('db world, bool) prog" where
  "haveBackend B self p_me p_cfg = have_row B self ''dbTools::haveBackend''
     (Query ''select count(*) from b$backend where hostname=%0q:h and filename=%1q:f''
        [(''h'', v_str p_me), (''f'', v_str p_cfg)])
     (''Failed to get count for '' @ p_me @ '' - '' @ p_cfg)"

definition getBackend :: "'db mysql \<Rightarrow> objid \<Rightarrow> string \<Rightarrow> string \<Rightarrow> ('db world, u32) prog" where
  "getBackend B self p_me p_cfg = get_or_create B self ''dbTools::getBackend'' (haveBackend B self p_me p_cfg)
     (Query ''insert into b$backend(hostname,filename) values(%0q:h,%1q:f)''
        [(''h'', v_str p_me), (''f'', v_str p_cfg)])
     ''Failed to insert host''
     (Query ''select id from b$backend where hostname=%0q:h and filename=%1q:f''
        [(''h'', v_str p_me), (''f'', v_str p_cfg)])
     (''Failed to get id for '' @ p_me @ '' - '' @ p_cfg)"

definition haveHost :: "'db mysql \<Rightarrow> objid \<Rightarrow> string \<Rightarrow> ('db world, bool) prog" where
  "haveHost B self p_host_name = have_row B self ''dbTools::haveHost''
     (Query ''select count(*) from h$hosts where name=%0q:h''
        [(''h'', v_str p_host_name)])
     (''Failed to get count for '' @ p_host_name)"

definition getHost :: "'db mysql \<Rightarrow> objid \<Rightarrow> string \<Rightarrow> ('db world, u32) prog" where
  "getHost B self p_host_name = get_or_create B self ''dbTools::getHost'' (haveHost B self p_host_name)
     (Query ''insert into h$hosts(name) values(%0q:h)''
        [(''h'', v_str p_host_name)])
     ''Failed to insert host''
     (Query ''select id from h$hosts where name=%0q:h''
        [(''h'', v_str p_host_name)])
     (''Failed to get id for '' @ p_host_name)"

definition haveService :: "'db mysql \<Rightarrow> objid \<Rightarrow> u32 \<Rightarrow> string \<Rightarrow> ('db world, bool) prog" where
  "haveService B self p_host_id p_service = have_row B self ''dbTools::haveService''
     (Query ''select count(*) from s$services where host_id=%0:id and name=%1q:na''
        [(''id'', v_u32 p_host_id), (''na'', v_str p_service)])
     (''Failed to get count for '' @ p_service @ '' on host '' @ to_str p_host_id)"

definition getService :: "'db mysql \<Rightarrow> objid \<Rightarrow> u32 \<Rightarrow> string \<Rightarrow> ('db world, u32) prog" where
  "getService B self p_host_id p_service = get_or_create B self ''dbTools::getService'' (haveService B self p_host_id p_service)
     (Query ''insert into s$services(host_id,name) values(%0:id, %1q:na)''
        [(''id'', v_u32 p_host_id), (''na'', v_str p_service)])
     ''Failed to insert service''
     (Query ''select id from s$services where host_id=%0:id and name=%1q:na''
        [(''id'', v_u32 p_host_id), (''na'', v_str p_service)])
     (''Failed to get id for '' @ p_service @ '' on host '' @ to_str p_host_id)"

definition getServiceHost :: "'db mysql \<Rightarrow> objid \<Rightarrow> u32 \<Rightarrow> ('db world, u32) prog" where
  "getServiceHost B self p_service = get_id B self ''dbTools::getServiceHost''
     (Query ''select host_id from s$services where id=%0:id''
        [(''id'', v_u32 p_service)])
     (''Failed to get host_id for '' @ to_str p_service)"

definition getServiceName :: "'db mysql \<Rightarrow> objid \<Rightarrow> u32 \<Rightarrow> u32 \<Rightarrow> ('db world, string) prog" where
  "getServiceName B self p_host_id p_service = with_conn B self ''dbTools::getServiceName'' []
     (ask B (Query ''select name from s$services where host_id=%0:hid and id=%1:sid''
               [(''hid'', v_u32 p_host_id), (''sid'', v_u32 p_service)])
        ''dbTools::getServiceName'' (''Failed to get name for '' @ to_str p_service) (row_text) (undef))"

definition getHostName :: "'db mysql \<Rightarrow> objid \<Rightarrow> u32 \<Rightarrow> ('db world, string) prog" where
  "getHostName B self p_host_id = with_conn B self ''dbTools::getHostName'' []
     (ask B (Query ''select name from h$hosts where id=%0:id''
               [(''id'', v_u32 p_host_id)])
        ''dbTools::getHostName'' (''Failed to get name for '' @ to_str p_host_id) (row_text) (undef))"

definition haveEventType :: "'db mysql \<Rightarrow> objid \<Rightarrow> string \<Rightarrow> ('db world, bool) prog" where
  "haveEventType B self p_event_type_name = have_row B self ''dbTools::haveEventType''
     (Query ''select count(*) from c$event_types where lower(name)=lower(%0q:t)''
        [(''t'', v_str p_event_type_name)])
     (''Failed to get count for '' @ p_event_type_name)"

definition getEventType :: "'db mysql \<Rightarrow> objid \<Rightarrow> string \<Rightarrow> ('db world, u32) prog" where
  "getEventType B self p_event_type_name = get_or_create B self ''dbTools::getEventType'' (haveEventType B self p_event_type_name)
     (Query ''insert into c$event_types(name) values(%0q:t)''
        [(''t'', v_str p_event_type_name)])
     ''Failed to insert event_type''
     (Query ''select id from c$event_types where lower(name)=lower(%0q:t)''
        [(''t'', v_str p_event_type_name)])
     (''Failed to get id for '' @ p_event_type_name)"

definition haveServiceType :: "'db mysql \<Rightarrow> objid \<Rightarrow> string \<Rightarrow> ('db world, bool) prog" where
  "haveServiceType B self p_type = have_row B self ''dbTools::haveServiceType''
     (Query ''select count(*) from s$types where name=%0q:t''
        [(''t'', v_str p_type)])
     (''Failed to get count for '' @ p_type)"

definition getServiceType :: "'db mysql \<Rightarrow> objid \<Rightarrow> string \<Rightarrow> ('db world, u32) prog" where
  "getServiceType B self p_type = get_or_create B self ''dbTools::getServiceType'' (haveServiceType B self p_type)
     (Query ''insert into s$types(name) values(%0q:t)''
        [(''t'', v_str p_type)])
     ''Failed to insert service_type''
     (Query ''select id from s$types where name=%0q:t''
        [(''t'', v_str p_type)])
     (''Failed to get id for '' @ p_type)"

section \<open>Lemmas\<close>

lemmas have_defs =
  haveProcessStatus_def haveSocketStatus_def haveLogEvent_def haveTable_def haveRessource_def
  haveBackend_def haveHost_def haveService_def haveEventType_def haveServiceType_def

lemmas get_defs =
  getBackend_def getHost_def getService_def getEventType_def getServiceType_def

subsection \<open>Symbolic execution with a connection held\<close>

lemma grab_held [prog_simps]: "conn w self \<Longrightarrow> grab B self w = (Ret True, w)"
  by (simp add: grab_def prog_simps)

lemma with_conn_held [prog_simps]: "conn w self \<Longrightarrow> with_conn B self from d m w = m w"
  by (simp add: with_conn_def prog_simps)

lemma on_srv_store [prog_simps]:
  "my_store B q (srv w) = (r, d) \<Longrightarrow> on_srv (my_store B q) w = (Ret r, w\<lparr>srv := d\<rparr>)"
  by (simp add: prog_simps)

lemma ask_rows:
  assumes "my_store B q (srv w) = (Rows rs, d)" and "body rs = Ret a"
  shows "ask B q from msg body none w = (Ret a, w\<lparr>srv := d\<rparr>)"
  using assms by (simp add: ask_def try_store_def bnd_def catch_def on_srv_def ret_def lift_def)

lemma ask_rows_undef:
  assumes "my_store B q (srv w) = (Rows rs, d)" and "body rs = Undef"
  shows "ask B q from msg body none w = (Undef, w\<lparr>srv := d\<rparr>)"
  using assms by (simp add: ask_def try_store_def bnd_def catch_def on_srv_def ret_def lift_def undef_def)

lemma ask_no_result:
  assumes "my_store B q (srv w) = (NoResult, d)"
  shows "ask B q from msg body none w = none (w\<lparr>srv := d\<rparr>)"
  using assms by (simp add: ask_def try_store_def bnd_def on_srv_def ret_def)

lemma row_positive_count: "my_int B s = Some n \<Longrightarrow> row_positive B [[s]] = Ret (0 < n)"
  by (simp add: row_positive_def first_row_def conv_def cell_def)

lemma row_id_single: "my_int B s = Some n \<Longrightarrow> row_id B [[s]] = Ret (word_of_int n)"
  by (simp add: row_id_def first_row_def conv_def cell_def)

lemma row_empty [simp]: "row_positive B [] = Undef" "row_id B [] = Undef" "row_text [] = Undef"
  by (simp_all add: row_positive_def row_id_def row_text_def first_row_def)

lemma have_row_held:
  assumes "conn w self" and "my_store B q (srv w) = (Rows [[s]], d)" and "my_int B s = Some n"
  shows "have_row B self from q msg w = (Ret (0 < n), w\<lparr>srv := d\<rparr>)"
  using assms by (simp add: have_row_def with_conn_held ask_rows row_positive_count)

lemma myqExec_ok:
  "my_exec B q (srv w) = (ExecOk, d) \<Longrightarrow> myqExec B q from msg w = (Ret (), w\<lparr>srv := d\<rparr>)"
  by (simp add: myqExec_def bnd_def on_srv_def ret_def)

lemma myqExec_returns: "\<exists>w'. myqExec B q from msg w = (Ret (), w') \<and> conn w' = conn w
    \<and> srv w' = snd (my_exec B q (srv w))"
  by (cases "my_exec B q (srv w)"; cases "fst (my_exec B q (srv w))")
    (auto simp: myqExec_def bnd_def on_srv_def ret_def query_failed_def exception_caught_def
       l_defs modify_def gets_def)

subsection \<open>Preservation and exceptions\<close>

lemma keeps_with_conn [keeps_intros]:
  "srv_log_free P \<Longrightarrow> keeps P (grab B self) \<Longrightarrow> keeps P m \<Longrightarrow> keeps P (with_conn B self from d m)"
  unfolding with_conn_def by (intro keeps_intros)

lemma keeps_ask [keeps_intros]:
  "srv_log_free P \<Longrightarrow> keeps P none \<Longrightarrow> keeps P (ask B q from msg body none)"
  unfolding ask_def by (intro keeps_intros)

lemma keeps_shapes [keeps_intros]:
  "srv_log_free P \<Longrightarrow> keeps P (grab B self) \<Longrightarrow> keeps P (have_row B self from q msg)"
  "srv_log_free P \<Longrightarrow> keeps P (grab B self) \<Longrightarrow> keeps P (get_id B self from q msg)"
  "srv_log_free P \<Longrightarrow> keeps P (grab B self) \<Longrightarrow> keeps P have \<Longrightarrow>
     keeps P (get_or_create B self from have ins im sel msg)"
  unfolding have_row_def get_id_def get_or_create_def by (intro keeps_intros; assumption)+

lemma keeps_have [keeps_intros]:
  assumes "srv_log_free P" and "keeps P (grab B self)"
  shows "keeps P (haveProcessStatus B self i n st)" "keeps P (haveSocketStatus B self i n st)"
    "keeps P (haveLogEvent B self i n k df)" "keeps P (haveTable B self n)"
    "keeps P (haveRessource B self o1 n)" "keeps P (haveBackend B self m c)"
    "keeps P (haveHost B self n)" "keeps P (haveService B self i n)"
    "keeps P (haveEventType B self n)" "keeps P (haveServiceType B self n)"
  using assms by (simp_all add: have_defs keeps_shapes)

lemma keeps_get [keeps_intros]:
  assumes "srv_log_free P" and "keeps P (grab B self)"
  shows "keeps P (getBackend B self m c)" "keeps P (getHost B self n)"
    "keeps P (getService B self i n)" "keeps P (getEventType B self n)"
    "keeps P (getServiceType B self n)" "keeps P (getRessourceId B self o1 n)"
    "keeps P (getServiceHost B self i)"
  using assms
  by (simp_all add: get_defs getRessourceId_def getServiceHost_def keeps_shapes keeps_have)

lemma keeps_names [keeps_intros]:
  assumes "srv_log_free P" and "keeps P (grab B self)"
  shows "keeps P (getRessourceName B self i)" "keeps P (getServiceName B self h i)"
    "keeps P (getHostName B self h)" "keeps P (tableHasColumn B self t c)"
  unfolding getRessourceName_def getServiceName_def getHostName_def tableHasColumn_def
  by (intro keeps_intros assms)+

section \<open>The contract with the server\<close>

text \<open>
  What get-or-create relies on, for one table whose rows are found by a key \<open>'k\<close>: the count query
  says whether the key is there, the id query returns its id, the insert adds it where there is
  \<open>room\<close> for it, and adding a key gives it an id of its own and leaves the other keys theirs.
\<close>

locale keyed_table =
  fixes B :: "'db mysql"
    and count_q ins_q id_q :: "'k \<Rightarrow> query"
    and inv :: "'db \<Rightarrow> bool"
    and key_id :: "'db \<Rightarrow> 'k \<Rightarrow> nat option"
    and add :: "'k \<Rightarrow> 'db \<Rightarrow> 'db"
    and room :: "'k \<Rightarrow> 'db \<Rightarrow> bool"
  assumes count_law: "inv d \<Longrightarrow> \<exists>s n. my_store B (count_q k) d = (Rows [[s]], d)
        \<and> my_int B s = Some n \<and> (0 < n \<longleftrightarrow> key_id d k \<noteq> None)"
    and id_law: "inv d \<Longrightarrow> key_id d k = Some i \<Longrightarrow>
        \<exists>s rs. my_store B (id_q k) d = (Rows ([s] # rs), d) \<and> my_int B s = Some (int i)"
    and insert_law: "inv d \<Longrightarrow> room k d \<Longrightarrow> key_id d k = None \<Longrightarrow> my_exec B (ins_q k) d = (ExecOk, add k d)"
    and inv_add: "inv d \<Longrightarrow> room k d \<Longrightarrow> key_id d k = None \<Longrightarrow> inv (add k d)"
    and add_found: "inv d \<Longrightarrow> room k d \<Longrightarrow> key_id d k = None \<Longrightarrow>
        \<exists>i. key_id (add k d) k = Some i \<and> (\<forall>k'. key_id d k' \<noteq> Some i)"
    and add_other: "inv d \<Longrightarrow> room k d \<Longrightarrow> key_id d k = None \<Longrightarrow>
        key_id d k' = Some j \<Longrightarrow> key_id (add k d) k' = Some j"
    and id_bound: "inv d \<Longrightarrow> key_id d k = Some i \<Longrightarrow> i < 2 ^ 31"
begin

lemma have_run:
  assumes "conn w self" and "inv (srv w)"
  shows "have_row B self from (count_q k) msg w = (Ret (key_id (srv w) k \<noteq> None), w)"
proof -
  obtain s n where q: "my_store B (count_q k) (srv w) = (Rows [[s]], srv w)"
    and n: "my_int B s = Some n" and pos: "0 < n \<longleftrightarrow> key_id (srv w) k \<noteq> None"
    using count_law [OF assms(2)] by blast
  from have_row_held [OF assms(1) q n] pos show ?thesis by simp
qed

lemma ask_id_run:
  assumes "inv (srv w)" and "key_id (srv w) k = Some i"
  shows "ask B (id_q k) from msg (row_id B) none w = (Ret (of_nat i), w)"
proof -
  obtain s rs where q: "my_store B (id_q k) (srv w) = (Rows ([s] # rs), srv w)"
    and n: "my_int B s = Some (int i)"
    using id_law [OF assms] by blast
  from n have "row_id B ([s] # rs) = Ret (of_nat i)"
    by (simp add: row_id_def first_row_def conv_def cell_def)
  from ask_rows [where body = "row_id B", OF q this] show ?thesis by simp
qed

lemma get_or_create_found:
  assumes "conn w self" and "inv (srv w)" and "key_id (srv w) k = Some i"
  shows "get_or_create B self from (have_row B self from' (count_q k) m1) (ins_q k) m2 (id_q k) m3 w
    = (Ret (of_nat i), w)"
  using assms by (simp add: get_or_create_def with_conn_held bnd_def have_run ask_id_run ret_def)

lemma get_or_create_new:
  assumes "conn w self" and inv: "inv (srv w)" and none: "key_id (srv w) k = None"
    and room: "room k (srv w)"
  shows "\<exists>i. get_or_create B self from (have_row B self from' (count_q k) m1) (ins_q k) m2 (id_q k) m3 w
      = (Ret (of_nat i), w\<lparr>srv := add k (srv w)\<rparr>)
    \<and> key_id (add k (srv w)) k = Some i \<and> (\<forall>k'. key_id (srv w) k' \<noteq> Some i)"
proof -
  obtain i where i: "key_id (add k (srv w)) k = Some i" "\<forall>k'. key_id (srv w) k' \<noteq> Some i"
    using add_found [OF inv room none] by blast
  have ex: "myqExec B (ins_q k) from m2 w = (Ret (), w\<lparr>srv := add k (srv w)\<rparr>)"
    using insert_law [OF inv room none] by (rule myqExec_ok)
  have "ask B (id_q k) from m3 (row_id B) (ret 0) (w\<lparr>srv := add k (srv w)\<rparr>)
      = (Ret (of_nat i), w\<lparr>srv := add k (srv w)\<rparr>)"
    by (rule ask_id_run) (use inv_add [OF inv room none] i in simp_all)
  with assms(1) inv none ex i show ?thesis
    by (intro exI [of _ i]) (simp add: get_or_create_def with_conn_held bnd_def have_run)
qed

text \<open>
  The contract of get-or-create: it returns the id of the key, the key is then present, the keys
  that were present keep their ids, and the only part of the state that may change is the server.
\<close>

lemma get_or_create_run:
  assumes "conn w self" and "inv (srv w)" and "key_id (srv w) k \<noteq> None \<or> room k (srv w)"
  shows "\<exists>i d. get_or_create B self from (have_row B self from' (count_q k) m1) (ins_q k) m2 (id_q k) m3 w
      = (Ret (of_nat i), w\<lparr>srv := d\<rparr>)
    \<and> inv d \<and> key_id d k = Some i \<and> i < 2 ^ 31
    \<and> (\<forall>k' j. key_id (srv w) k' = Some j \<longrightarrow> key_id d k' = Some j)
    \<and> (if key_id (srv w) k = None then d = add k (srv w) else d = srv w)"
proof (cases "key_id (srv w) k")
  case None
  with assms(3) have room: "room k (srv w)" by simp
  obtain i where "get_or_create B self from (have_row B self from' (count_q k) m1) (ins_q k) m2 (id_q k) m3 w
      = (Ret (of_nat i), w\<lparr>srv := add k (srv w)\<rparr>)" and i: "key_id (add k (srv w)) k = Some i"
    using get_or_create_new [OF assms(1,2) None room] by blast
  moreover have inv': "inv (add k (srv w))" using assms(2) room None by (rule inv_add)
  moreover have "i < 2 ^ 31" using inv' i by (rule id_bound)
  moreover have "\<forall>k' j. key_id (srv w) k' = Some j \<longrightarrow> key_id (add k (srv w)) k' = Some j"
    using add_other [OF assms(2) room None] by blast
  ultimately show ?thesis using None by (intro exI [of _ i] exI [of _ "add k (srv w)"]) simp
next
  case (Some i)
  have eq: "w\<lparr>srv := srv w\<rparr> = w" by simp
  show ?thesis
    using get_or_create_found [OF assms(1,2) Some] id_bound [OF assms(2) Some] Some assms(2)
    by (intro exI [of _ i] exI [of _ "srv w"]) (simp add: eq)
qed

end

end
