(* ===== verification/Config.thy ===== *)
theory Config
  imports Json
begin

text \<open>
  The configuration (class \<open>Config\<close>, \<open>src/config.cpp\<close>): a JSON document read from a file, whose
  sections are completed with documented defaults, the members the file has being kept. The paths
  that \<open>include/config.h\<close> receives from the build are the fields of a record.
\<close>

section \<open>Operations\<close>

record build_paths =
  watched_ssl_key :: string
  watched_ssl_cert :: string
  watched_ssl_vrf :: string
  watched_log_file :: string
  watched_dll_alert :: string
  watched_lua_alert :: string

text \<open>A documentation comment: a slash, a star, some tabs, the text, a star, a slash.\<close>

definition doc :: "nat \<Rightarrow> string \<Rightarrow> string" where
  "doc tabs t = ''/*'' @ replicate tabs (CHR 0x09) @ t @ ''*/''"

text \<open>\<open>data[s][k] = x; data[s][k].setComment(...)\<close>, and the same only where the member is missing.\<close>

definition put_member :: "'j json_api \<Rightarrow> string \<Rightarrow> string \<times> 'j \<times> string \<Rightarrow> 'j \<Rightarrow> 'j outcome" where
  "put_member J s m data =
     (case m of (k, x, c) \<Rightarrow> j_put2 J data s k (j_comment J x c CommentAfterOnSameLine))"

definition default_member :: "'j json_api \<Rightarrow> string \<Rightarrow> string \<times> 'j \<times> string \<Rightarrow> 'j \<Rightarrow> 'j outcome" where
  "default_member J s m data =
     obind (j_at J data s) (\<lambda>sect. obind (j_isMember J sect (fst m)) (\<lambda>have.
       if have then Ret data else put_member J s m data))"

primrec default_members :: "'j json_api \<Rightarrow> string \<Rightarrow> (string \<times> 'j \<times> string) list \<Rightarrow> 'j \<Rightarrow> 'j outcome" where
  "default_members J s [] data = Ret data"
| "default_members J s (m # ms) data =
     obind (default_member J s m data) (\<lambda>data. default_members J s ms data)"

definition ssl_cert_default :: "'j json_api \<Rightarrow> build_paths \<Rightarrow> string \<times> 'j \<times> string" where
  "ssl_cert_default J p =
     (''SSL_cert'', j_of_string J (watched_ssl_cert p), doc 2 ''SSL certificate file for the backend '')"

definition backend_defaults :: "'j json_api \<Rightarrow> build_paths \<Rightarrow> (string \<times> 'j \<times> string) list" where
  "backend_defaults J p =
    [(''SSL_key'', j_of_string J (watched_ssl_key p), doc 2 ''SSL backend private key file ''),
     (''SSL_verify'', j_of_string J (watched_ssl_vrf p),
        doc 2 ''SSL certificate file containing the agents keychain ''),
     (''SSL_verify_name'', j_of_bool J True,
        doc 2 ''Should the agent name checked in the certificate ''),
     (''central_id'', j_of_int J (- 1),
        doc 2 ''Select the agents to collect based on their central_id [default: all agents (-1)] ''),
     (''pool_freq'', j_of_int J (5 * 60),
        doc 2 ''Frequency at which the backend pool the database for new agent (in seconds) '')]"

text \<open>
  The constructor: \<open>file\<close> is the text of the configuration file, or \<open>None\<close> when it cannot be read.
  Malformed text makes \<open>operator>>\<close> throw.
\<close>

definition Config_init :: "'j json_api \<Rightarrow> build_paths \<Rightarrow> string option \<Rightarrow> 'j outcome" where
  "Config_init J p file_text =
     obind (case file_text of None \<Rightarrow> Ret (j_null J)
            | Some t \<Rightarrow> (case j_parse J t of None \<Rightarrow> Throw ''Json::RuntimeError'' | Some v \<Rightarrow> Ret v)) (\<lambda>data.
     obind (j_isMember J data ''backend'') (\<lambda>have.
     obind (if \<not> have then put_member J ''backend'' (ssl_cert_default J p) data
            else default_member J ''backend'' (ssl_cert_default J p) data) (\<lambda>data.
     default_members J ''backend'' (backend_defaults J p) data)))"

text \<open>A section that is missing is created as an empty object with a comment before it.\<close>

definition section_of :: "'j json_api \<Rightarrow> string \<Rightarrow> string \<Rightarrow> 'j \<Rightarrow> 'j outcome" where
  "section_of J s c data = obind (j_isMember J data s) (\<lambda>have.
     if have then Ret data else j_put J data s (j_comment J (j_object J) c CommentBefore))"

definition getAggregate :: "'j json_api \<Rightarrow> 'j \<Rightarrow> 'j outcome" where
  "getAggregate J = section_of J ''aggregate'' (doc 1 ''Configure the data aggregate process '')"

definition getAlerter :: "'j json_api \<Rightarrow> 'j \<Rightarrow> 'j outcome" where
  "getAlerter J = section_of J ''alerters'' (doc 1 ''Configure the alerters '')"

definition getCentral :: "'j json_api \<Rightarrow> 'j \<Rightarrow> 'j outcome" where
  "getCentral J = section_of J ''central'' (doc 1 ''Central server specific configuration '')"

definition getLog :: "'j json_api \<Rightarrow> 'j \<Rightarrow> 'j outcome" where
  "getLog J = section_of J ''log'' (doc 1 ''The backend logging configuration '')"

definition db_defaults :: "'j json_api \<Rightarrow> (string \<times> 'j \<times> string) list" where
  "db_defaults J =
    [(''connection_string'', j_of_string J ''localhost:3306'', doc 1 ''MySQL database connection string ''),
     (''database_name'', j_of_string J ''watcheddb'', doc 2 ''MySQL database name ''),
     (''login'', j_of_string J ''watched'', doc 3 ''MySQL login ''),
     (''password'', j_of_string J ''watched'', doc 3 ''MySQL password ''),
     (''pool_size'', j_of_int J 32, doc 3 ''Number of concurrent connections to the database '')]"

definition getDB :: "'j json_api \<Rightarrow> 'j \<Rightarrow> 'j outcome" where
  "getDB J data = obind (section_of J ''db'' (doc 1 ''MySQL database informations '') data) (\<lambda>data.
     default_members J ''db'' (db_defaults J) data)"

section \<open>Lemmas\<close>

text \<open>A section that can be completed: present or not, its value can hold members.\<close>

definition usable :: "'j json_api \<Rightarrow> string \<Rightarrow> 'j \<Rightarrow> bool" where
  "usable J s data \<longleftrightarrow> (\<exists>b v. j_isMember J data s = Ret b \<and> j_at J data s = Ret v
     \<and> (\<forall>k. \<exists>c. j_isMember J v k = Ret c))"

text \<open>What a completion does to the document: other sections stay, members of the section stay.\<close>

definition extends :: "'j json_api \<Rightarrow> string \<Rightarrow> 'j \<Rightarrow> 'j \<Rightarrow> bool" where
  "extends J s d e \<longleftrightarrow> usable J s e
     \<and> (\<forall>k. k \<noteq> s \<longrightarrow> j_at J e k = j_at J d k \<and> j_isMember J e k = j_isMember J d k)
     \<and> (\<forall>v w k. j_at J d s = Ret v \<longrightarrow> j_at J e s = Ret w \<longrightarrow> j_isMember J v k = Ret True \<longrightarrow>
          j_isMember J w k = Ret True \<and> j_at J w k = j_at J v k)"

definition has_member :: "'j json_api \<Rightarrow> string \<Rightarrow> string \<Rightarrow> 'j \<Rightarrow> bool" where
  "has_member J s k d \<longleftrightarrow> (\<exists>v. j_at J d s = Ret v \<and> j_isMember J v k = Ret True)"

lemma extends_refl: "usable J s d \<Longrightarrow> extends J s d d"
  by (auto simp: extends_def)

lemma extends_trans: "extends J s d e \<Longrightarrow> extends J s e f \<Longrightarrow> extends J s d f"
  unfolding extends_def usable_def by (metis (no_types, lifting))

lemma extends_has_member: "extends J s d e \<Longrightarrow> has_member J s k d \<Longrightarrow> has_member J s k e"
  unfolding extends_def has_member_def usable_def by (metis (no_types, lifting))

text \<open>A section an object holds, or that is missing from the document, can be completed.\<close>

fun object_or_absent :: "json option \<Rightarrow> bool" where
  "object_or_absent None \<longleftrightarrow> True"
| "object_or_absent (Some (JObj ms)) \<longleftrightarrow> True"
| "object_or_absent (Some JNull) \<longleftrightarrow> True"
| "object_or_absent (Some v) \<longleftrightarrow> False"

lemma usable_jsoncpp:
  "object_or_absent (map_of ms s) \<Longrightarrow> usable jsoncpp s (JObj ms)"
  "usable jsoncpp s JNull"
  by (cases "map_of ms s" rule: object_or_absent.cases) (auto simp: usable_def)

context json_laws
begin

lemma default_member_run:
  assumes "usable J s d"
  shows "\<exists>e. default_member J s m d = Ret e \<and> extends J s d e \<and> has_member J s (fst m) e
    \<and> (\<not> has_member J s (fst m) d \<longrightarrow>
         (\<exists>w. j_at J e s = Ret w \<and> j_at J w (fst m) = Ret (j_comment J (fst (snd m)) (snd (snd m)) CommentAfterOnSameLine)))"
proof -
  obtain k x c where m: "m = (k, x, c)" by (metis prod_cases3)
  obtain b v where b: "j_isMember J d s = Ret b" and v: "j_at J d s = Ret v"
    and mem: "\<And>k. \<exists>c. j_isMember J v k = Ret c"
    using assms unfolding usable_def by blast
  obtain h where h: "j_isMember J v k = Ret h" using mem by blast
  show ?thesis
  proof (cases h)
    case True
    then have "default_member J s m d = Ret d" using v h m by (simp add: default_member_def)
    moreover have "has_member J s k d" using v h True by (simp add: has_member_def)
    ultimately show ?thesis using m extends_refl [OF assms] by auto
  next
    case False
    let ?x = "j_comment J x c CommentAfterOnSameLine"
    obtain v' where v': "j_put J v k ?x = Ret v'" using put_defined [OF h] by blast
    obtain e where e: "j_put J d s v' = Ret e" using put_defined [OF b] by blast
    have run: "default_member J s m d = Ret e"
      using v h False m v' e by (simp add: default_member_def put_member_def j_put2_def)
    have ms: "j_isMember J v' k' = (if k' = k then Ret True else j_isMember J v k')" for k'
      using isMember_put [OF v'] by simp
    have at: "j_at J v' k' = (if k' = k then Ret ?x else j_at J v k')" for k'
      using at_put [OF v'] by simp
    have es: "j_at J e s = Ret v'" "j_isMember J e s = Ret True" using put_same [OF e] by simp_all
    have others: "j_at J e k' = j_at J d k'" "j_isMember J e k' = j_isMember J d k'" if "k' \<noteq> s" for k'
      using at_put [OF e, of k'] isMember_put [OF e, of k'] that by simp_all
    have "usable J s e"
      unfolding usable_def using es ms mem by (intro exI [of _ True] exI [of _ v']) auto
    moreover have "j_isMember J v' k' = Ret True \<and> j_at J v' k' = j_at J v k'"
      if "j_isMember J v k' = Ret True" for k'
      using that ms [of k'] at [of k'] h False by auto
    ultimately have "extends J s d e"
      unfolding extends_def using others v es by auto
    moreover have "has_member J s k e" using es ms by (simp add: has_member_def)
    ultimately show ?thesis using run m es at by (intro exI [of _ e]) auto
  qed
qed

lemma default_members_run:
  "usable J s d \<Longrightarrow> \<exists>e. default_members J s ms d = Ret e \<and> extends J s d e
     \<and> (\<forall>m \<in> set ms. has_member J s (fst m) e)"
proof (induction ms arbitrary: d)
  case Nil
  then show ?case by (simp add: extends_refl)
next
  case (Cons m ms)
  obtain d' where d': "default_member J s m d = Ret d'" "extends J s d d'" "has_member J s (fst m) d'"
    using default_member_run [OF Cons.prems, of m] by blast
  then have "usable J s d'" by (simp add: extends_def)
  then obtain e where e: "default_members J s ms d' = Ret e" "extends J s d' e"
    "\<forall>m \<in> set ms. has_member J s (fst m) e"
    using Cons.IH by blast
  have "has_member J s (fst m) e" using e(2) d'(3) by (rule extends_has_member)
  with d' e extends_trans [OF d'(2) e(2)] show ?case by (intro exI [of _ e]) simp
qed

text \<open>Where every member is there, a completion changes nothing.\<close>

lemma default_members_noop:
  "\<forall>m \<in> set ms. has_member J s (fst m) d \<Longrightarrow> default_members J s ms d = Ret d"
proof (induction ms)
  case (Cons m ms)
  then have "has_member J s (fst m) d" by simp
  then have "default_member J s m d = Ret d"
    by (auto simp: default_member_def has_member_def)
  with Cons show ?case by simp
qed simp

text \<open>Without the section, the first member is stored without a test; the result is the same.\<close>

lemma first_member_run:
  assumes "usable J s d" and "j_isMember J d s = Ret b"
  shows "(if \<not> b then put_member J s m d else default_member J s m d) = default_member J s m d"
proof (cases b)
  case False
  then have "j_at J d s = Ret (j_null J)" using assms(2) at_absent by simp
  then show ?thesis using False by (simp add: default_member_def isMember_null)
qed simp

lemma section_of_run:
  assumes "j_isMember J d s = Ret b" and "b \<Longrightarrow> usable J s d"
  shows "\<exists>e. section_of J s c d = Ret e \<and> usable J s e \<and> j_isMember J e s = Ret True
    \<and> (b \<longrightarrow> e = d)
    \<and> (\<forall>k. k \<noteq> s \<longrightarrow> j_at J e k = j_at J d k \<and> j_isMember J e k = j_isMember J d k)"
proof (cases b)
  case True
  with assms show ?thesis by (simp add: section_of_def)
next
  case False
  let ?v = "j_comment J (j_object J) c CommentBefore"
  obtain e where e: "j_put J d s ?v = Ret e" using put_defined [OF assms(1)] by blast
  have at: "j_at J e s = Ret ?v" "j_isMember J e s = Ret True" using put_same [OF e] by simp_all
  moreover have "j_isMember J ?v k = Ret False" for k by (simp add: isMember_comment isMember_object)
  ultimately have "usable J s e" unfolding usable_def by blast
  with e False assms(1) at at_put [OF e] isMember_put [OF e] show ?thesis
    by (intro exI [of _ e]) (simp add: section_of_def)
qed

lemma Config_init_run:
  assumes load: "(case file_text of None \<Rightarrow> Ret (j_null J)
      | Some t \<Rightarrow> (case j_parse J t of None \<Rightarrow> Throw ''Json::RuntimeError'' | Some v \<Rightarrow> Ret v)) = Ret d"
    and use: "usable J ''backend'' d"
  shows "\<exists>e. Config_init J p file_text = Ret e \<and> extends J ''backend'' d e
    \<and> (\<forall>m \<in> set (ssl_cert_default J p # backend_defaults J p). has_member J ''backend'' (fst m) e)"
proof -
  obtain b where b: "j_isMember J d ''backend'' = Ret b" using use by (auto simp: usable_def)
  have "Config_init J p file_text
      = default_members J ''backend'' (ssl_cert_default J p # backend_defaults J p) d"
    by (simp add: Config_init_def load b first_member_run [OF use b])
  then show ?thesis
    using default_members_run [OF use, of "ssl_cert_default J p # backend_defaults J p"] by simp
qed

lemma getDB_run:
  assumes "j_isMember J d ''db'' = Ret b" and "b \<Longrightarrow> usable J ''db'' d"
  shows "\<exists>e. getDB J d = Ret e \<and> usable J ''db'' e
    \<and> (b \<longrightarrow> extends J ''db'' d e)
    \<and> (\<forall>k. k \<noteq> ''db'' \<longrightarrow> j_at J e k = j_at J d k)
    \<and> (\<forall>m \<in> set (db_defaults J). has_member J ''db'' (fst m) e)
    \<and> getDB J e = Ret e"
proof -
  obtain d' where d': "section_of J ''db'' (doc 1 ''MySQL database informations '') d = Ret d'"
    "usable J ''db'' d'" "b \<longrightarrow> d' = d" "\<forall>k. k \<noteq> ''db'' \<longrightarrow> j_at J d' k = j_at J d k"
    using section_of_run [where c = "doc 1 ''MySQL database informations ''", OF assms] by blast
  obtain e where e: "default_members J ''db'' (db_defaults J) d' = Ret e" "extends J ''db'' d' e"
    "\<forall>m \<in> set (db_defaults J). has_member J ''db'' (fst m) e"
    using default_members_run [OF d'(2)] by blast
  have run: "getDB J d = Ret e" using d' e by (simp add: getDB_def)
  have "has_member J ''db'' ''login'' e" using e(3) by (simp add: db_defaults_def)
  then obtain v where v: "j_at J e ''db'' = Ret v" "j_isMember J v ''login'' = Ret True"
    unfolding has_member_def by blast
  have "usable J ''db'' e" using e(2) unfolding extends_def by blast
  then obtain b' where b': "j_isMember J e ''db'' = Ret b'" unfolding usable_def by blast
  with v have "b'" using at_absent [of e "''db''"] isMember_null by (cases b') auto
  then have "getDB J e = Ret e"
    using b' default_members_noop [OF e(3)] by (simp add: getDB_def section_of_def)
  with run d' e show ?thesis
    by (intro exI [of _ e]) (simp add: extends_def)
qed

end

section \<open>Properties\<close>

text \<open>Loading a configuration in which the section \<open>backend\<close> is an object or missing always
  succeeds, and then every setting the backend reads from that section is there; a setting the
  file has keeps its value and the other sections are as in the file.\<close>

theorem Config_init_complete:
  assumes "j_parse jsoncpp t = Some (JObj ms)" and "object_or_absent (map_of ms ''backend'')"
  shows "\<exists>e. Config_init jsoncpp p (Some t) = Ret e
    \<and> (\<forall>k \<in> {''SSL_cert'', ''SSL_key'', ''SSL_verify'', ''SSL_verify_name'', ''central_id'', ''pool_freq''}.
          has_member jsoncpp ''backend'' k e)
    \<and> (\<forall>s. s \<noteq> ''backend'' \<longrightarrow> json_at e s = json_at (JObj ms) s)
    \<and> (\<forall>bs k x. map_of ms ''backend'' = Some (JObj bs) \<longrightarrow> map_of bs k = Some x \<longrightarrow>
          (\<exists>w. json_at e ''backend'' = Ret w \<and> json_at w k = Ret x))"
proof -
  obtain e where e: "Config_init jsoncpp p (Some t) = Ret e"
    "extends jsoncpp ''backend'' (JObj ms) e"
    "\<forall>m \<in> set (ssl_cert_default jsoncpp p # backend_defaults jsoncpp p). has_member jsoncpp ''backend'' (fst m) e"
    using jsoncpp.Config_init_run [of "Some t" "JObj ms" p] assms usable_jsoncpp(1) by auto
  have "\<exists>w. json_at e ''backend'' = Ret w \<and> json_at w k = Ret x"
    if "map_of ms ''backend'' = Some (JObj bs)" "map_of bs k = Some x" for bs k x
  proof -
    have "json_at (JObj ms) ''backend'' = Ret (JObj bs)" "json_isMember (JObj bs) k = Ret True"
      using that by simp_all
    moreover obtain w where "json_at e ''backend'' = Ret w"
      using e(2) by (auto simp: extends_def usable_def)
    ultimately have "json_at e ''backend'' = Ret w \<and> json_at w k = json_at (JObj bs) k"
      using e(2) by (auto simp: extends_def)
    with that show ?thesis by auto
  qed
  moreover have "json_at e s = json_at (JObj ms) s" if "s \<noteq> ''backend''" for s
    using e(2) that by (simp add: extends_def)
  ultimately show ?thesis
    using e(1,3) by (intro exI [of _ e]) (simp add: ssl_cert_default_def backend_defaults_def)
qed

definition demo_paths :: build_paths where
  "demo_paths = \<lparr>watched_ssl_key = ''key'', watched_ssl_cert = ''cert'', watched_ssl_vrf = ''vrf'',
     watched_log_file = ''log'', watched_dll_alert = ''dll'', watched_lua_alert = ''lua''\<rparr>"

theorem Config_init_complete_witness:
  "\<exists>e. Config_init jsoncpp demo_paths (Some ''{}'') = Ret e \<and> has_member jsoncpp ''backend'' ''pool_freq'' e"
  using Config_init_complete [of "''{}''" "[]" demo_paths] by (auto simp: json_parse_def)

text \<open>\<open>getDB\<close> completes the section \<open>db\<close> with every setting the connection pool reads, keeps the
  rest of the document, and called again leaves the document as it is, so that the pointer it
  hands out stays the completed section.\<close>

theorem getDB_complete:
  assumes "object_or_absent (map_of ms ''db'')"
  shows "\<exists>e. getDB jsoncpp (JObj ms) = Ret e
    \<and> (\<forall>k \<in> {''connection_string'', ''database_name'', ''login'', ''password'', ''pool_size''}.
          has_member jsoncpp ''db'' k e)
    \<and> (\<forall>s. s \<noteq> ''db'' \<longrightarrow> json_at e s = json_at (JObj ms) s)
    \<and> getDB jsoncpp e = Ret e"
proof -
  have mem: "j_isMember jsoncpp (JObj ms) ''db'' = Ret (map_of ms ''db'' \<noteq> None)" by simp
  obtain e where "getDB jsoncpp (JObj ms) = Ret e" "\<forall>s. s \<noteq> ''db'' \<longrightarrow> json_at e s = json_at (JObj ms) s"
    "\<forall>m \<in> set (db_defaults jsoncpp). has_member jsoncpp ''db'' (fst m) e" "getDB jsoncpp e = Ret e"
    using jsoncpp.getDB_run [OF mem] usable_jsoncpp(1) [OF assms] by auto
  then show ?thesis by (intro exI [of _ e]) (simp add: db_defaults_def)
qed

theorem getDB_complete_witness:
  "\<exists>e. getDB jsoncpp (JObj [(''db'', JObj [(''login'', JStr ''me'')])]) = Ret e \<and> getDB jsoncpp e = Ret e"
  using getDB_complete [of "[(''db'', JObj [(''login'', JStr ''me'')])]"] by auto

end
