(* ===== verification/Alerter.thy ===== *)
theory Alerter
  imports DbTools Config
begin

unbundle bit_operations_syntax

text \<open>
  Alerting (\<open>src/alerter.cpp\<close>, class \<open>alerterManager\<close>): the alerters found in two directories,
  their registration in the database, and the functions that send an event to everyone set up for
  its host or service. What an alerter does with an alert is outside: the alerts handed to
  alerters are kept in the shared state, in order.
\<close>

section \<open>Alerters\<close>

text \<open>\<open>enum levels\<close> of class \<open>alerter\<close>, by value; a level is passed on as the number it is cast from.\<close>

datatype alerter_level = Lok | Linfo | Lnotice | Lwarning | Lerror | Lcritical

primrec level_value :: "alerter_level \<Rightarrow> u32" where
  "level_value Lok = 0"
| "level_value Linfo = 1"
| "level_value Lnotice = 2"
| "level_value Lwarning = 3"
| "level_value Lerror = 4"
| "level_value Lcritical = 5"

text \<open>Levels are ordered as their values are.\<close>

lemma level_value_inject [simp]: "level_value a = level_value b \<longleftrightarrow> a = b"
  by (cases a; cases b; simp)

instantiation alerter_level :: linorder
begin

definition less_eq_alerter_level :: "alerter_level \<Rightarrow> alerter_level \<Rightarrow> bool" where
  "less_eq_alerter_level a b \<longleftrightarrow> level_value a \<le> level_value b"

definition less_alerter_level :: "alerter_level \<Rightarrow> alerter_level \<Rightarrow> bool" where
  "less_alerter_level a b \<longleftrightarrow> level_value a < level_value b"

instance
  by standard (auto simp: less_eq_alerter_level_def less_alerter_level_def order.strict_iff_order)

end

text \<open>The levels as the constructor of \<open>luaAlerter\<close> names them for the script.\<close>

definition lua_prelude :: string where
  "lua_prelude = ''ok='' @ to_str (level_value Lok) @ '';notice='' @ to_str (level_value Lnotice) @
     '';info='' @ to_str (level_value Linfo) @ '';warning='' @ to_str (level_value Lwarning) @
     '';error='' @ to_str (level_value Lerror) @ '';critical='' @ to_str (level_value Lcritical)"

datatype alerter_kind = Plugin | LuaScript string

type_synonym alerters = "string \<Rightarrow> alerter_kind option"

text \<open>
  The file system and the dynamic loader: the names \<open>readdir\<close> yields (\<open>None\<close> when the directory
  cannot be opened), the mode of a file (\<open>None\<close> when \<open>stat\<close> fails), loading a library, which may
  register factories, and the names of the factories registered, in the order of the map.
\<close>

record 'db fs =
  fs_dir :: "string \<Rightarrow> 'db \<Rightarrow> string list option"
  fs_mode :: "string \<Rightarrow> 'db \<Rightarrow> u32 option"
  fs_dlopen :: "string \<Rightarrow> 'db \<Rightarrow> string option \<times> 'db"
  fs_factory :: "'db \<Rightarrow> string list"

definition S_IFDIR :: u32 where
  "S_IFDIR = 0x4000"

text \<open>The tests at the head of both loops: hidden files, files without status, directories.\<close>

definition skipped :: "'db fs \<Rightarrow> string \<Rightarrow> string \<Rightarrow> 'db \<Rightarrow> bool" where
  "skipped F dirname file_name d \<longleftrightarrow>
     (case file_name of [] \<Rightarrow> False | c # _ \<Rightarrow> c = CHR ''.'') \<or>
     (case fs_mode F (c_str (dirname @ ''/'' @ file_name)) d of
        None \<Rightarrow> True | Some mode \<Rightarrow> mode AND S_IFDIR \<noteq> 0)"

definition extension :: "string \<Rightarrow> string outcome" where
  "extension file_name = substr file_name (str_rfind file_name (CHR ''.'')) npos"

definition base_name :: "string \<Rightarrow> string" where
  "base_name file_name = take (str_rfind file_name (CHR ''.'')) file_name"

definition load_plugin :: "'db fs \<Rightarrow> string \<Rightarrow> string \<Rightarrow> ('db world, unit) prog" where
  "load_plugin F dirname file_name =
     bnd (gets (\<lambda>w. skipped F dirname file_name (srv w))) (\<lambda>skip.
     if skip then ret ()
     else bnd (lift (extension file_name)) (\<lambda>ext.
       if ext = ''.so'' then
         bnd (on_srv (fs_dlopen F (c_str (dirname @ ''/'' @ file_name)))) (\<lambda>err. case err of
           None \<Rightarrow> ret ()
         | Some e \<Rightarrow> l_error ''alerterManager::'' (e @ '' while loading '' @ dirname @ ''/'' @ file_name))
       else ret ()))"

definition addAlerter :: "'db mysql \<Rightarrow> string \<Rightarrow> ('db world, unit) prog" where
  "addAlerter B p_name = with_conn B Alerting ''alerterManager::addAlerter'' ()
     (myqExec B (Query ''insert into c$properties(name) values(%0q:name) on duplicate key update name=%0q:name''
          [(''name'', v_str p_name)])
        ''alerterManager::addAlerter'' ''Failed to insert alerter'')"

definition add_plugin :: "'db mysql \<Rightarrow> string \<Rightarrow> alerters \<Rightarrow> ('db world, alerters) prog" where
  "add_plugin B name al = bnd (addAlerter B name) (\<lambda>_. ret (al(name \<mapsto> Plugin)))"

definition add_script :: "'db mysql \<Rightarrow> 'db fs \<Rightarrow> string \<Rightarrow> string \<Rightarrow> alerters \<Rightarrow> ('db world, alerters) prog" where
  "add_script B F dirname file_name al =
     bnd (gets (\<lambda>w. skipped F dirname file_name (srv w))) (\<lambda>skip.
     if skip then ret al
     else bnd (lift (extension file_name)) (\<lambda>ext.
       if ext = ''.lua'' \<and> al (base_name file_name) = None then
         bnd (addAlerter B (base_name file_name)) (\<lambda>_.
         ret (al(base_name file_name \<mapsto> LuaScript (dirname @ ''/'' @ file_name))))
       else ret al))"

text \<open>The constructor: the completed configuration and the alerters.\<close>

definition alerter_config :: "'j json_api \<Rightarrow> build_paths \<Rightarrow> 'j \<Rightarrow> 'j outcome" where
  "alerter_config J p cfg =
     obind (j_isMember J cfg ''alerter_cpp'') (\<lambda>have.
     obind (if have then Ret cfg else j_put J cfg ''alerter_cpp'' (j_of_string J (watched_dll_alert p))) (\<lambda>cfg.
     obind (j_isMember J cfg ''alerter_lua'') (\<lambda>have.
     if have then Ret cfg else j_put J cfg ''alerter_lua'' (j_of_string J (watched_lua_alert p)))))"

definition alerterManager_init :: "'db mysql \<Rightarrow> 'j json_api \<Rightarrow> 'db fs \<Rightarrow> build_paths \<Rightarrow> 'j \<Rightarrow>
    ('db world, 'j \<times> alerters) prog" where
  "alerterManager_init B J F p cfg =
     bnd (lift (alerter_config J p cfg)) (\<lambda>cfg.
     bnd (lift (obind (j_at J cfg ''alerter_cpp'') (j_asString J))) (\<lambda>dirname.
     bnd (gets (\<lambda>w. fs_dir F (c_str dirname) (srv w))) (\<lambda>dir.
     bnd (case dir of
            Some files \<Rightarrow> for_each files (load_plugin F dirname)
          | None \<Rightarrow> l_warning ''alerterManager::'' (dirname @ '' doesnt exist. No alerter plugins will be used'')) (\<lambda>_.
     bnd (gets (\<lambda>w. fs_factory F (srv w))) (\<lambda>names.
     bnd (fold_prog (add_plugin B) names (\<lambda>_. None)) (\<lambda>al.
     bnd (lift (obind (j_at J cfg ''alerter_lua'') (j_asString J))) (\<lambda>dirname.
     bnd (gets (\<lambda>w. fs_dir F (c_str dirname) (srv w))) (\<lambda>dir.
     bnd (case dir of
            Some files \<Rightarrow> fold_prog (add_script B F dirname) files al
          | None \<Rightarrow> bnd (l_warning ''alerterManager::''
              (dirname @ '' doesnt exist. No lua alerter plugins will be used'')) (\<lambda>_. ret al)) (\<lambda>al.
     ret (cfg, al))))))))))"

section \<open>Sending\<close>

definition send :: "alerters \<Rightarrow> u32 \<Rightarrow> string \<Rightarrow> string \<Rightarrow> string \<Rightarrow> string \<Rightarrow> ('db world, unit) prog" where
  "send al p_lvl p_alerter p_dest p_title p_message =
     (if al p_alerter \<noteq> None then
        modify (\<lambda>w. w\<lparr>sent := sent w @ [\<lparr>al_alerter = p_alerter, al_level = p_lvl, al_dest = p_dest,
          al_title = p_title, al_message = p_message\<rparr>]\<rparr>)
      else l_warning ''alerterManager::send''
        (''Alerter '' @ p_alerter @ '' NOT found to handle alert: '' @ p_title))"

text \<open>
  The shared end of the four functions: everyone in the result of the query gets the alert; an
  empty result is noted with the name of the service or host.
\<close>

definition send_row :: "alerters \<Rightarrow> u32 \<Rightarrow> string \<Rightarrow> string \<Rightarrow> row \<Rightarrow> ('db world, unit) prog" where
  "send_row al lvl title msg r =
     bnd (lift (cell r 0)) (\<lambda>name. bnd (lift (cell r 1)) (\<lambda>dest.
     send al lvl (c_str name) (c_str dest) title msg))"

definition dispatch :: "'db mysql \<Rightarrow> alerters \<Rightarrow> string \<Rightarrow> query \<Rightarrow> string \<Rightarrow> ('db world, string) prog \<Rightarrow>
    u32 \<Rightarrow> string \<Rightarrow> string \<Rightarrow> ('db world, unit) prog" where
  "dispatch B al from q failed whom lvl title msg = with_conn B Alerting from ()
     (bnd (try_store B q from failed (\<lambda>rs.
        bnd (if rs = [] then bnd whom (\<lambda>s. l_notice from s) else ret ()) (\<lambda>_.
        bnd (for_each rs (send_row al lvl title msg)) (\<lambda>_. ret (None :: unit option)))))
      (\<lambda>_. ret ()))"

definition alert_services_query :: "u32 \<Rightarrow> query" where
  "alert_services_query serv_id = Query
     ''select p.name, a.value from p$alert_services a, c$properties p where a.prop_id=p.id and serv_id=%0:id''
     [(''id'', v_u32 serv_id)]"

definition alert_hosts_query :: "u32 \<Rightarrow> query" where
  "alert_hosts_query host_id = Query
     ''select p.name, a.value from p$alert_hosts a, c$properties p where a.prop_id=p.id and host_id=%0:id''
     [(''id'', v_u32 host_id)]"

definition sendService :: "'db mysql \<Rightarrow> alerters \<Rightarrow> u32 \<Rightarrow> u32 \<Rightarrow> string \<Rightarrow> ('db world, unit) prog" where
  "sendService B al p_host_id p_serv_id p_msg =
     dispatch B al ''alerterManager::sendService'' (alert_services_query p_serv_id)
       (''Failed to get alerters for service '' @ to_str p_serv_id)
       (bnd (getServiceName B Alerting p_host_id p_serv_id) (\<lambda>n. ret (''No alerting setup for service '' @ n)))
       (level_value Lcritical) p_msg p_msg"

definition sendLog :: "'db mysql \<Rightarrow> alerters \<Rightarrow> u32 \<Rightarrow> u32 \<Rightarrow> u32 \<Rightarrow> string \<Rightarrow> ('db world, unit) prog" where
  "sendLog B al p_host_id p_serv_id p_level p_lines =
     bnd (getServiceName B Alerting p_host_id p_serv_id) (\<lambda>s.
     bnd (getHostName B Alerting p_host_id) (\<lambda>h.
     dispatch B al ''alerterManager::sendLog'' (alert_services_query p_serv_id)
       (''Failed to get alerters for service '' @ to_str p_serv_id)
       (bnd (getServiceName B Alerting p_host_id p_serv_id) (\<lambda>n. ret (''No alerting setup for service '' @ n)))
       p_level (''Service '' @ s @ '' on '' @ h @ '' new log elements'') p_lines))"

text \<open>An event of a resource, the \<open>struct res_event\<close> of \<open>include/backend.h\<close>.\<close>

record res_event =
  event_type :: u32
  property :: string
  oper :: char
  threshold :: double

text \<open>\<open>ftoa\<close> is \<open>std::to_string\<close> on a double.\<close>

definition tab :: string where "tab = [CHR 0x09]"

definition newline :: string where "newline = [CHR 0x0A]"

definition rule_text :: "(double \<Rightarrow> string) \<Rightarrow> string \<Rightarrow> res_event \<Rightarrow> double \<Rightarrow> string" where
  "rule_text ftoa res p_event p_current =
     newline @ ''Ressource:'' @ tab @ '' '' @ res @ newline @ ''Property:'' @ tab @ '' '' @ property p_event @
     newline @ ''Rule:'' @ tab @ tab @ '' '' @ ftoa p_current @ [oper p_event] @ ftoa (threshold p_event)"

definition sendServRessource :: "'db mysql \<Rightarrow> (double \<Rightarrow> string) \<Rightarrow> alerters \<Rightarrow> u32 \<Rightarrow> u32 \<Rightarrow> res_event \<Rightarrow> double \<Rightarrow>
    ('db world, unit) prog" where
  "sendServRessource B ftoa al p_serv_id p_res_id p_event p_current =
     bnd (getServiceHost B Alerting p_serv_id) (\<lambda>host_id.
     bnd (getServiceName B Alerting host_id p_serv_id) (\<lambda>s.
     bnd (getHostName B Alerting host_id) (\<lambda>h.
     bnd (getRessourceName B Alerting p_res_id) (\<lambda>r.
     bnd (getServiceName B Alerting host_id p_serv_id) (\<lambda>s2.
     bnd (getHostName B Alerting host_id) (\<lambda>h2.
     bnd (getRessourceName B Alerting p_res_id) (\<lambda>r2.
     dispatch B al ''alerterManager::sendServRessource'' (alert_services_query p_serv_id)
       (''Failed to get alerters for service '' @ to_str p_serv_id)
       (bnd (getServiceName B Alerting host_id p_serv_id) (\<lambda>n. ret (''No alerting setup for service '' @ n)))
       (event_type p_event)
       (''Service '' @ s @ '' on '' @ h @ '' resource '' @ r @ '' new event'')
       (''Service:'' @ tab @ '' '' @ s2 @ newline @ ''Host:'' @ tab @ tab @ '' '' @ h2 @
        rule_text ftoa r2 p_event p_current))))))))"

definition sendHostRessource :: "'db mysql \<Rightarrow> (double \<Rightarrow> string) \<Rightarrow> alerters \<Rightarrow> u32 \<Rightarrow> u32 \<Rightarrow> res_event \<Rightarrow> double \<Rightarrow>
    ('db world, unit) prog" where
  "sendHostRessource B ftoa al p_host_id p_res_id p_event p_current =
     bnd (getHostName B Alerting p_host_id) (\<lambda>h.
     bnd (getRessourceName B Alerting p_res_id) (\<lambda>r.
     bnd (getHostName B Alerting p_host_id) (\<lambda>h2.
     bnd (getRessourceName B Alerting p_res_id) (\<lambda>r2.
     dispatch B al ''alerterManager::sendHostRessource'' (alert_hosts_query p_host_id)
       (''Failed to get alerters for host '' @ to_str p_host_id)
       (bnd (getHostName B Alerting p_host_id) (\<lambda>n. ret (''No alerting setup for host '' @ n)))
       (event_type p_event)
       (''Host '' @ h @ '' resource '' @ r @ '' new event'')
       (''Host:'' @ tab @ tab @ '' '' @ h2 @ rule_text ftoa r2 p_event p_current)))))"

text \<open>
  The script \<open>luaAlerters/email.lua\<close>: the command it opens a pipe to and what it writes there; the
  names of the levels it compares with are the globals set by \<^const>\<open>lua_prelude\<close>.
\<close>

definition email_sendAlert :: "u32 \<Rightarrow> string \<Rightarrow> string \<Rightarrow> string \<Rightarrow> (string \<times> string) option" where
  "email_sendAlert lvl dest title message =
     (if lvl \<in> {level_value Lcritical, level_value Lerror, level_value Lwarning}
      then Some (''mail -s '' @ [CHR 0x27] @ title @ [CHR 0x27] @ '' '' @ dest, message @ newline @ [CHR 0x04])
      else None)"

section \<open>Lemmas\<close>

text \<open>The alerts the rows of a query are due, in order: one for every alerter that exists.\<close>

definition due :: "alerters \<Rightarrow> u32 \<Rightarrow> string \<Rightarrow> string \<Rightarrow> row list \<Rightarrow> alert list" where
  "due al lvl title msg rs = map (\<lambda>r. \<lparr>al_alerter = c_str (r ! 0), al_level = lvl, al_dest = c_str (r ! 1),
       al_title = title, al_message = msg\<rparr>) (filter (\<lambda>r. al (c_str (r ! 0)) \<noteq> None) rs)"

lemma due_simps [simp]:
  "due al lvl title msg [] = []"
  "due al lvl title msg (r # rs) = (if al (c_str (r ! 0)) \<noteq> None
     then \<lparr>al_alerter = c_str (r ! 0), al_level = lvl, al_dest = c_str (r ! 1),
       al_title = title, al_message = msg\<rparr> # due al lvl title msg rs else due al lvl title msg rs)"
  by (simp_all add: due_def)

lemma send_row_run:
  assumes "2 \<le> length r"
  shows "\<exists>w'. send_row al lvl title msg r w = (Ret (), w') \<and> sent w' = sent w @ due al lvl title msg [r]"
proof -
  have "0 < length r" "1 < length r" using assms by linarith+
  then show ?thesis by (simp add: send_row_def cell_def send_def prog_simps l_defs)
qed

lemma send_rows_run:
  "list_all (\<lambda>r. 2 \<le> length r) rs \<Longrightarrow>
   \<exists>w'. for_each rs (send_row al lvl title msg) w = (Ret (), w') \<and> sent w' = sent w @ due al lvl title msg rs"
proof (induction rs arbitrary: w)
  case Nil then show ?case by (simp add: prog_simps)
next
  case (Cons r rs)
  obtain v where v: "send_row al lvl title msg r w = (Ret (), v)" "sent v = sent w @ due al lvl title msg [r]"
    using send_row_run [of r al lvl title msg w] Cons.prems by auto
  obtain u where "for_each rs (send_row al lvl title msg) v = (Ret (), u)" "sent u = sent v @ due al lvl title msg rs"
    using Cons by fastforce
  with v show ?case by (auto simp: prog_simps)
qed

lemma dispatch_run:
  assumes "conn w Alerting" and "my_store B q (srv w) = (Rows rs, d)" and "rs \<noteq> []"
    and "list_all (\<lambda>r. 2 \<le> length r) rs"
  shows "\<exists>w'. dispatch B al from q failed whom lvl title msg w = (Ret (), w')
    \<and> sent w' = sent w @ due al lvl title msg rs"
proof -
  obtain v where "for_each rs (send_row al lvl title msg) (w\<lparr>srv := d\<rparr>) = (Ret (), v)"
    "sent v = sent w @ due al lvl title msg rs"
    using send_rows_run [OF assms(4), of al lvl title msg "w\<lparr>srv := d\<rparr>"] by auto
  then show ?thesis
    using assms(1-3) by (simp add: dispatch_def try_store_def prog_simps with_conn_held)
qed

lemma getHostName_run:
  assumes "conn w self" and "my_store B (Query ''select name from h$hosts where id=%0:id'' [(''id'', v_u32 i)]) (srv w)
      = (Rows ((n # cs) # rest), srv w)"
  shows "getHostName B self i w = (Ret (c_str n), w)"
  using ask_rows [OF assms(2), of row_text "c_str n"] assms(1)
  by (simp add: getHostName_def with_conn_held row_text_def first_row_def cell_def)

lemma getRessourceName_run:
  assumes "conn w self" and "my_store B (Query ''select name from c$ressources where id=%0:id'' [(''id'', v_u32 i)]) (srv w)
      = (Rows ((n # cs) # rest), srv w)"
  shows "getRessourceName B self i w = (Ret (c_str n), w)"
  using ask_rows [OF assms(2), of row_text "c_str n"] assms(1)
  by (simp add: getRessourceName_def prog_simps row_text_def first_row_def cell_def)

lemma sendHostRessource_run:
  assumes "conn w Alerting"
    and "my_store B (Query ''select name from h$hosts where id=%0:id'' [(''id'', v_u32 hid)]) (srv w) = (Rows ((h # cs) # rest), srv w)"
    and "my_store B (Query ''select name from c$ressources where id=%0:id'' [(''id'', v_u32 rid)]) (srv w) = (Rows ((n # cs') # rest'), srv w)"
    and "my_store B (alert_hosts_query hid) (srv w) = (Rows rs, d)" and "rs \<noteq> []" and "\<forall>r\<in>set rs. 2 \<le> length r"
  shows "\<exists>w' text. sendHostRessource B ftoa al hid rid e x w = (Ret (), w')
    \<and> sent w' = sent w @ due al (event_type e) (''Host '' @ c_str h @ '' resource '' @ c_str n @ '' new event'') text rs"
  using dispatch_run [OF assms(1) assms(4,5), of al "''alerterManager::sendHostRessource''"] assms(6)
  by (simp add: sendHostRessource_def prog_simps getHostName_run [OF assms(1,2)]
      getRessourceName_run [OF assms(1,3)] list_all_iff) blast

subsection \<open>What the functions of the program leave intact\<close>

text \<open>
  A property of the shared state that survives whatever happens to the server, the log and the
  alerts, and the grabbing of connections, survives all the functions that use the database.
\<close>

locale shared_inv =
  fixes B :: "'db mysql" and R :: "'db world \<Rightarrow> bool"
  assumes log_free: "srv_log_free R"
    and sent_free: "R w \<Longrightarrow> R (w\<lparr>sent := x\<rparr>)"
    and grab_free: "keeps R (grab B self)"
    and release_free: "keeps R (release self)"
begin

lemmas db_intros = keeps_intros log_free grab_free release_free

lemma keeps_send: "keeps R (send al lvl a dest title msg)"
  unfolding send_def by (intro db_intros keeps_modify sent_free)

lemma keeps_dispatch: "keeps R whom \<Longrightarrow> keeps R (dispatch B al from q failed whom lvl title msg)"
  unfolding dispatch_def send_row_def by (intro db_intros keeps_send)

lemma keeps_alerts:
  "keeps R (sendService B al h s msg)" "keeps R (sendLog B al h s lvl msg)"
  "keeps R (sendServRessource B ftoa al s r e x)" "keeps R (sendHostRessource B ftoa al h r e x)"
  unfolding sendService_def sendLog_def sendServRessource_def sendHostRessource_def
  by (intro db_intros keeps_dispatch)+

end

subsection \<open>The alerters found at the start\<close>

lemma extension_no_dot:
  assumes "CHR ''.'' \<notin> set f" and "length f < npos"
  shows "extension f = Throw ''basic_string::substr''"
  using assms by (simp add: extension_def str_rfind_none substr_def)

text \<open>A loop ends by an exception as soon as one of its steps has to and the others end by the same.\<close>

lemma for_each_throws:
  assumes "x \<in> set xs" and "\<And>s. \<exists>t. f x s = (Throw e, t)"
    and "\<And>y s. y \<in> set xs \<Longrightarrow> \<exists>t. f y s = (Ret (), t) \<or> f y s = (Throw e, t)"
  shows "\<exists>t. for_each xs f s = (Throw e, t)"
  using assms(1,3)
proof (induction xs arbitrary: s)
  case Nil then show ?case by simp
next
  case (Cons y ys)
  obtain t where t: "f y s = (Ret (), t) \<or> f y s = (Throw e, t)" using Cons.prems(2) by auto
  then show ?case
  proof
    assume y: "f y s = (Ret (), t)"
    with assms(2) [of s] have "y \<noteq> x" by auto
    with Cons.prems have "x \<in> set ys" by simp
    from Cons.IH [OF this] Cons.prems(2) y show ?thesis by (simp add: prog_simps)
  qed (simp add: prog_simps)
qed

lemma load_plugin_ends:
  "\<exists>t. load_plugin F dirname f w = (Ret (), t) \<or> load_plugin F dirname f w = (Throw ''basic_string::substr'', t)"
proof (cases "skipped F dirname f (srv w)")
  case True then show ?thesis by (simp add: load_plugin_def prog_simps)
next
  case False
  show ?thesis
  proof (cases "fs_dlopen F (c_str (dirname @ ''/'' @ f)) (srv w)")
    case (Pair err d)
    with False show ?thesis
      by (cases err; cases "extension f")
        (simp_all add: load_plugin_def prog_simps l_defs extension_def substr_def split: if_splits)
  qed
qed

lemma load_plugin_no_dot:
  assumes "\<not> skipped F dirname f (srv w)" and "CHR ''.'' \<notin> set f" and "length f < npos"
  shows "load_plugin F dirname f w = (Throw ''basic_string::substr'', w)"
  using assms by (simp add: load_plugin_def prog_simps extension_no_dot)

lemma extension_split:
  assumes "extension f = Ret e" and "length e < npos"
  shows "f = base_name f @ e"
proof -
  let ?k = "str_rfind f (CHR ''.'')"
  have e: "e = take npos (drop ?k f)" using assms(1) by (simp add: extension_def substr_def split: if_splits)
  with assms(2) have "length (drop ?k f) < npos" by (simp del: length_drop split: if_splits)
  with e have "e = drop ?k f" by simp
  then show ?thesis by (simp add: base_name_def)
qed

lemma add_plugin_run: "add_plugin B m al w = (Ret al', w') \<Longrightarrow> al' = al(m \<mapsto> Plugin)"
  by (auto simp: add_plugin_def bnd_Ret_iff ret_def)

lemma add_plugins_run:
  "fold_prog (add_plugin B) names al w = (Ret al', w') \<Longrightarrow>
   al' n = (if n \<in> set names then Some Plugin else al n)"
proof (induction names arbitrary: al w)
  case Nil then show ?case by (simp add: prog_simps)
next
  case (Cons m names)
  from Cons.prems obtain al1 v where al1: "add_plugin B m al w = (Ret al1, v)"
    and rest: "fold_prog (add_plugin B) names al1 v = (Ret al', w')"
    by (auto simp: bnd_Ret_iff)
  from Cons.IH [OF rest] add_plugin_run [OF al1] show ?case by auto
qed

definition script_of :: "string \<Rightarrow> string \<Rightarrow> alerter_kind" where
  "script_of dirname n = LuaScript (dirname @ ''/'' @ n @ ''.lua'')"

lemma add_script_run:
  assumes "add_script B F dirname f al w = (Ret al', w')"
  shows "al' = al \<or> (\<exists>n. al n = None \<and> al' = al(n \<mapsto> script_of dirname n) \<and> f = n @ ''.lua'')"
proof (cases "skipped F dirname f (srv w)")
  case True with assms show ?thesis by (simp add: add_script_def prog_simps)
next
  case False
  with assms obtain e where e: "extension f = Ret e"
    by (cases "extension f") (auto simp: add_script_def prog_simps)
  show ?thesis
  proof (cases "e = ''.lua'' \<and> al (base_name f) = None")
    case True
    with e extension_split [of f e] have f: "f = base_name f @ ''.lua''" by (simp add: npos_def)
    from assms False e True have "al' = al(base_name f \<mapsto> LuaScript (dirname @ ''/'' @ f))"
      by (auto simp: add_script_def prog_simps bnd_Ret_iff)
    moreover have "LuaScript (dirname @ ''/'' @ f) = script_of dirname (base_name f)"
      unfolding script_of_def using f by simp
    ultimately show ?thesis using f True by auto
  next
    case other: False
    with assms False e show ?thesis by (simp add: add_script_def prog_simps)
  qed
qed

lemma add_scripts_run:
  "fold_prog (add_script B F dirname) files al w = (Ret al', w') \<Longrightarrow>
   (if al n \<noteq> None then al' n = al n
    else al' n = None \<or> al' n = Some (script_of dirname n) \<and> n @ ''.lua'' \<in> set files)"
proof (induction files arbitrary: al w)
  case Nil then show ?case by (simp add: prog_simps)
next
  case (Cons f files)
  from Cons.prems obtain al1 v where al1: "add_script B F dirname f al w = (Ret al1, v)"
    and rest: "fold_prog (add_script B F dirname) files al1 v = (Ret al', w')"
    by (auto simp: bnd_Ret_iff)
  from add_script_run [OF al1] Cons.IH [OF rest] show ?case by (auto split: if_splits)
qed

section \<open>Properties\<close>

text \<open>C25. A failed component is reported to everyone set up for its service: each row of the query
  makes one alert, in order, of level critical, with the message as title and text; a row that
  names an alerter that does not exist is skipped and keeps no other row from its alert.\<close>

theorem sendService_delivers:
  assumes "conn w Alerting" and "my_store B (alert_services_query serv_id) (srv w) = (Rows rs, d)"
    and "rs \<noteq> []" and "\<forall>r\<in>set rs. 2 \<le> length r"
  shows "\<exists>w'. sendService B al host_id serv_id msg w = (Ret (), w') \<and> sent w' = sent w @
    map (\<lambda>r. \<lparr>al_alerter = c_str (r ! 0), al_level = 5, al_dest = c_str (r ! 1), al_title = msg, al_message = msg\<rparr>)
      (filter (\<lambda>r. al (c_str (r ! 0)) \<noteq> None) rs)"
  using dispatch_run [OF assms(1-3), where al = al and lvl = 5 and title = msg and msg = msg] assms(4)
  by (simp add: sendService_def due_def list_all_iff)

theorem sendService_delivers_witness:
  "\<exists>w'. sendService (fixed_mysql [[''mail'', ''a@b''], [''fax'', ''c''], [''sms'', ''d'']])
        [''mail'' \<mapsto> Plugin, ''sms'' \<mapsto> LuaScript ''sms.lua''] 1 2 ''down'' (demo_world ()) = (Ret (), w')
    \<and> map al_dest (sent w') = [''a@b'', ''d'']"
  using sendService_delivers [of "demo_world ()" "fixed_mysql [[''mail'', ''a@b''], [''fax'', ''c''], [''sms'', ''d'']]"
      2 "[[''mail'', ''a@b''], [''fax'', ''c''], [''sms'', ''d'']]" "()"
      "[''mail'' \<mapsto> Plugin, ''sms'' \<mapsto> LuaScript ''sms.lua'']" 1 "''down''"]
  by (auto simp: c_str_def)

text \<open>The directories of the examples: plain files, the same list in both.\<close>

definition demo_fs :: "string list \<Rightarrow> string list \<Rightarrow> unit fs" where
  "demo_fs files plugins = \<lparr>fs_dir = (\<lambda>p d. Some files), fs_mode = (\<lambda>p d. Some 0x8000),
     fs_dlopen = (\<lambda>p d. (None, d)), fs_factory = (\<lambda>d. plugins)\<rparr>"

lemma demo_fs_simps [simp]:
  "fs_dir (demo_fs files plugins) p d = Some files" "fs_factory (demo_fs files plugins) d = plugins"
  "skipped (demo_fs files plugins) p f d \<longleftrightarrow> (case f of [] \<Rightarrow> False | c # _ \<Rightarrow> c = CHR ''.'')"
  "fs_dlopen (demo_fs files plugins) p d = (None, d)"
  by (simp_all add: demo_fs_def skipped_def S_IFDIR_def split: list.split)

lemma demo_alerter_config [simp]:
  "alerter_config jsoncpp demo_paths JNull
    = Ret (JObj [(''alerter_cpp'', JStr ''dll''), (''alerter_lua'', JStr ''lua'')])"
  by (simp add: alerter_config_def demo_paths_def)

text \<open>A file without a dot in the plugin directory keeps the program from starting: if a file that
  is not hidden and not a directory has no dot in its name, the constructor of the alerter manager
  throws \<open>out_of_range\<close>, which nothing in \<open>main\<close> catches, whatever the other files are.\<close>

theorem undotted_file_stops_start:
  assumes "alerter_config J p cfg = Ret cfg'" and "obind (j_at J cfg' ''alerter_cpp'') (j_asString J) = Ret dirname"
    and "fs_dir F (c_str dirname) (srv w) = Some files" and "f \<in> set files"
    and "\<And>d. \<not> skipped F dirname f d" and "CHR ''.'' \<notin> set f" and "length f < npos"
  shows "fst (alerterManager_init B J F p cfg w) = Throw ''basic_string::substr''"
proof -
  have "\<exists>t. for_each files (load_plugin F dirname) w = (Throw ''basic_string::substr'', t)"
    by (rule for_each_throws [OF assms(4)]) (use load_plugin_no_dot assms(5-7) load_plugin_ends in blast)+
  with assms(1-3) show ?thesis by (auto simp: alerterManager_init_def prog_simps)
qed

theorem undotted_file_stops_start_witness:
  "fst (alerterManager_init (fixed_mysql []) jsoncpp (demo_fs [''mail.so'', ''README''] []) demo_paths JNull (demo_world ()))
    = Throw ''basic_string::substr''"
  using undotted_file_stops_start [of jsoncpp demo_paths JNull _ "''dll''" "demo_fs [''mail.so'', ''README''] []"
      "demo_world ()" "[''mail.so'', ''README'']" "''README''" "fixed_mysql []"]
  by (simp add: npos_def)


lemma demo_extensions:
  "extension ''mail.lua'' = Ret ''.lua''" "base_name ''mail.lua'' = ''mail''"
  "extension ''sms.lua'' = Ret ''.lua''" "base_name ''sms.lua'' = ''sms''"
  using str_rfind_stop [of "CHR ''.''" "''lua''" "''mail''"] str_rfind_stop [of "CHR ''.''" "''lua''" "''sms''"]
  by (simp_all add: extension_def base_name_def substr_def npos_def)


end
