(* ===== verification/Ressource.thy ===== *)
theory Ressource
  imports Alerter
begin

text \<open>
  One monitored resource of an agent (\<open>src/ressourceClient.cpp\<close>, class \<open>ressourceClient\<close>): the
  insert statement built from the definition of its data, the events of the database that are
  still open, the rules that raise them, and \<open>parse\<close>, which compares every new line of data with
  the rules, opens and closes events, sends alerts and stores the line.
\<close>

section \<open>The object\<close>

text \<open>
  \<open>def\<close> points into the API document of the agent: \<open>None\<close> once that document was replaced. The
  definition is only ever read for its member names. \<open>current_events\<close> is a \<open>std::map\<close>.
\<close>

record 'j ressource =
  isService :: bool
  rc_host_id :: u32
  rc_res_id :: u32
  rc_baseurl :: string
  rc_table :: string
  rc_servName :: string
  rc_def :: "'j option"
  baseInsert :: string
  event_factory :: "res_event list"
  current_events :: "(u32 \<times> res_event) list"

definition new_ressource :: "u32 \<Rightarrow> u32 \<Rightarrow> string \<Rightarrow> string \<Rightarrow> 'j \<Rightarrow> 'j ressource" where
  "new_ressource p_host_id p_resid p_url p_table p_def =
     \<lparr>isService = False, rc_host_id = p_host_id, rc_res_id = p_resid, rc_baseurl = p_url, rc_table = p_table,
      rc_servName = [], rc_def = Some p_def, baseInsert = [], event_factory = [], current_events = []\<rparr>"

definition setService :: "string \<Rightarrow> 'j ressource \<Rightarrow> 'j ressource" where
  "setService n r = r\<lparr>rc_servName := n, isService := True\<rparr>"

definition id_name :: "'j ressource \<Rightarrow> string" where
  "id_name r = (if isService r then ''serv_id'' else ''host_id'')"

definition typed :: "'j ressource \<Rightarrow> string" where
  "typed r = (if isService r then ''s$'' else ''h$'')"

section \<open>The insert statement\<close>

text \<open>
  The three loops over the members of the definition: the columns, the numbered parameters, and
  the assignments of the update, without the column \<open>timestamp\<close>.
\<close>

primrec column_list :: "string list \<Rightarrow> string" where
  "column_list [] = []"
| "column_list (k # ks) = '', '' @ k @ column_list ks"

primrec value_list :: "nat \<Rightarrow> string list \<Rightarrow> string" where
  "value_list n [] = []"
| "value_list n (k # ks) = '', %'' @ dec n @ '':'' @ k @ value_list (Suc n) ks"

primrec update_list :: "nat \<Rightarrow> bool \<Rightarrow> string list \<Rightarrow> string" where
  "update_list n first [] = []"
| "update_list n first (k # ks) =
     (if k = ''timestamp'' then update_list (Suc n) first ks
      else (if first then [] else '', '') @ k @ ''=%'' @ dec n @ '':'' @ k @ update_list (Suc n) False ks)"

definition updateDefs :: "'j json_api \<Rightarrow> 'j \<Rightarrow> 'j ressource \<Rightarrow> 'j ressource" where
  "updateDefs J p_def r = (let ks = map fst (j_items J p_def) in
     r\<lparr>rc_def := Some p_def,
       baseInsert := ''insert into d$'' @ rc_table r @ ''('' @ id_name r @ '', res_id'' @ column_list ks @
         '') values ('' @ to_str (rc_host_id r) @ '', '' @ to_str (rc_res_id r) @ value_list 0 ks @
         '') ON DUPLICATE KEY UPDATE '' @ update_list 0 True ks\<rparr>)"

section \<open>Loading the events\<close>

definition first_char :: "string \<Rightarrow> char" where
  "first_char s = (case c_str s of [] \<Rightarrow> CHR 0x00 | c # _ \<Rightarrow> c)"

text \<open>The event in the cells of a row from position \<open>i\<close> on.\<close>

definition event_of_row :: "'db mysql \<Rightarrow> row \<Rightarrow> nat \<Rightarrow> res_event outcome" where
  "event_of_row B r i =
     obind (conv (my_u32 B) r i) (\<lambda>et. obind (cell r (i + 1)) (\<lambda>prop.
     obind (cell r (i + 2)) (\<lambda>op. obind (conv (my_double B) r (i + 3)) (\<lambda>v.
     Ret \<lparr>event_type = et, property = c_str prop, oper = first_char op, threshold = v\<rparr>))))"

definition load_current :: "'db mysql \<Rightarrow> row \<Rightarrow> ('j ressource \<times> 'db world, unit) prog" where
  "load_current B r =
     bnd (lift (event_of_row B r 1)) (\<lambda>e. bnd (lift (conv (my_u32 B) r 0)) (\<lambda>i.
     on_fst (modify (\<lambda>c. c\<lparr>current_events := om_put i e (current_events c)\<rparr>))))"

definition load_rule :: "'db mysql \<Rightarrow> row \<Rightarrow> ('j ressource \<times> 'db world, unit) prog" where
  "load_rule B r =
     bnd (lift (event_of_row B r 0)) (\<lambda>e.
     on_fst (modify (\<lambda>c. c\<lparr>event_factory := event_factory c @ [e]\<rparr>)))"

definition current_query :: "'j ressource \<Rightarrow> query" where
  "current_query r = Query
     (''select id, event_type, property, oper, value from '' @ typed r @
      ''res_events where end_time is null and %0:nid=%1:hid and res_id=%2:rid'')
     [(''nid'', v_str (id_name r)), (''hid'', v_u32 (rc_host_id r)), (''rid'', v_u32 (rc_res_id r))]"

definition factory_query :: "'j ressource \<Rightarrow> query" where
  "factory_query r = Query
     (''select event_type, property, oper, value from '' @ typed r @
      ''event_factory where (%0:nid=%1:hid or %0:nid is null) and (res_id=%2:rid or res_id is null) and (res_type=%3q:table or res_type is null)'')
     [(''nid'', v_str (id_name r)), (''hid'', v_u32 (rc_host_id r)), (''rid'', v_u32 (rc_res_id r)),
      (''table'', v_str (rc_table r))]"

definition load_rows :: "'db mysql \<Rightarrow> query \<Rightarrow> string \<Rightarrow> (row \<Rightarrow> ('j ressource \<times> 'db world, unit) prog) \<Rightarrow>
    ('j ressource \<times> 'db world, unit) prog" where
  "load_rows B q msg step =
     bnd (try_store_on B q ''ressourceClient::init'' msg
            (\<lambda>rs. bnd (for_each rs step) (\<lambda>_. ret (None :: unit option))) (ret None)) (\<lambda>_. ret ())"

text \<open>\<open>init\<close> reads the definition through the pointer.\<close>

definition ressource_init :: "'db mysql \<Rightarrow> 'j json_api \<Rightarrow> ('j ressource \<times> 'db world, unit) prog" where
  "ressource_init B J =
     bnd (gets (\<lambda>(r, w). rc_def r)) (\<lambda>d. case d of None \<Rightarrow> undef | Some d \<Rightarrow>
     bnd (on_fst (modify (updateDefs J d))) (\<lambda>_.
     bnd (gets fst) (\<lambda>r.
     bnd (load_rows B (current_query r) (''Failed to get current events for '' @ rc_table r) (load_current B)) (\<lambda>_.
     load_rows B (factory_query r) (''Failed to get event factory for '' @ rc_table r) (load_rule B)))))"

section \<open>New data\<close>

text \<open>When a rule is met, and when an open event is over; any other operator does neither.\<close>

definition met :: "res_event \<Rightarrow> double \<Rightarrow> bool" where
  "met e x = (if oper e = CHR ''<'' then x < threshold e
     else if oper e = CHR ''>'' then x > threshold e
     else if oper e = CHR ''='' then x = threshold e else False)"

definition over :: "res_event \<Rightarrow> double \<Rightarrow> bool" where
  "over e x = (if oper e = CHR ''<'' then x \<ge> threshold e
     else if oper e = CHR ''>'' then x \<le> threshold e
     else if oper e = CHR ''='' then x \<noteq> threshold e else False)"

definition comparing :: "res_event \<Rightarrow> bool" where
  "comparing e \<longleftrightarrow> oper e \<in> {CHR ''<'', CHR ''>'', CHR ''=''}"

text \<open>The guard of both loops: the line has a value for the property and the test holds for it.\<close>

definition holds_for :: "'j json_api \<Rightarrow> (res_event \<Rightarrow> double \<Rightarrow> bool) \<Rightarrow> 'j \<Rightarrow> res_event \<Rightarrow> bool outcome" where
  "holds_for J test line e =
     obind (j_isMember J line (property e)) (\<lambda>have. if \<not> have then Ret False
     else obind (j_at J line (property e)) (\<lambda>v. if j_isNull J v \<or> \<not> comparing e then Ret False
     else obind (j_asDouble J v) (\<lambda>x. Ret (test e x))))"

definition line_float :: "'j json_api \<Rightarrow> 'j \<Rightarrow> string \<Rightarrow> double outcome" where
  "line_float J line k = obind (j_at J line k) (j_asFloat J)"

text \<open>The id of the last open event equal to the rule, 0 if there is none.\<close>

definition found_id :: "res_event \<Rightarrow> (u32 \<times> res_event) list \<Rightarrow> u32" where
  "found_id e m = fold (\<lambda>(k, f) found. if e = f then k else found) m 0"

definition event_message :: "'j ressource \<Rightarrow> string" where
  "event_message r = ''Update an event for '' @ rc_table r @ '' ('' @ to_str (rc_host_id r) @ '','' @
     to_str (rc_res_id r) @ '')''"

definition current_value_query :: "'j json_api \<Rightarrow> 'j \<Rightarrow> res_event \<Rightarrow> u32 \<Rightarrow> 'j ressource \<Rightarrow> query outcome" where
  "current_value_query J line e found r =
     obind (line_float J line (property e)) (\<lambda>cv.
     Ret (Query (''update '' @ typed r @ ''res_events set current_value=%0:cv where id=%1:id'')
       [(''cv'', VDbl cv), (''id'', v_u32 found)]))"

definition new_event_query :: "'j json_api \<Rightarrow> 'j \<Rightarrow> res_event \<Rightarrow> 'j ressource \<Rightarrow> query outcome" where
  "new_event_query J line e r =
     obind (line_float J line ''timestamp'') (\<lambda>ts.
     obind (line_float J line (property e)) (\<lambda>cv.
     Ret (Query (''insert into '' @ typed r @ ''res_events (%0:name, res_id, start_time, event_type, property, current_value, oper, value) values (%1:id, %2:rid, %3:ts, %4:type, %5q:prop, %6:cv, %7q:op, %8:val)'')
       [(''name'', v_str (id_name r)), (''id'', v_u32 (rc_host_id r)), (''rid'', v_u32 (rc_res_id r)),
        (''ts'', VDbl ts), (''type'', v_u32 (event_type e)), (''prop'', v_str (property e)),
        (''cv'', VDbl cv), (''op'', VChar (oper e)), (''val'', VDbl (threshold e))])))"

definition event_alert :: "'db mysql \<Rightarrow> 'j json_api \<Rightarrow> (double \<Rightarrow> string) \<Rightarrow> alerters \<Rightarrow> 'j \<Rightarrow> res_event \<Rightarrow>
    'j ressource \<Rightarrow> ('db world, unit) prog" where
  "event_alert B J ftoa al line e r =
     bnd (lift (obind (j_at J line (property e)) (j_asDouble J))) (\<lambda>x.
     if typed r = ''s$'' then sendServRessource B ftoa al (rc_host_id r) (rc_res_id r) e x
     else sendHostRessource B ftoa al (rc_host_id r) (rc_res_id r) e x)"

text \<open>A rule that is met updates the event it already raised, or opens one and sends an alert.\<close>

definition raise_event :: "'db mysql \<Rightarrow> 'j json_api \<Rightarrow> (double \<Rightarrow> string) \<Rightarrow> alerters \<Rightarrow> 'j \<Rightarrow> res_event \<Rightarrow>
    ('j ressource \<times> 'db world, unit) prog" where
  "raise_event B J ftoa al line e =
     bnd (gets fst) (\<lambda>r. let found = found_id e (current_events r) in
     bnd (lift (if 0 < found then current_value_query J line e found r else new_event_query J line e r)) (\<lambda>q.
     bnd (on_snd (myqExec B q ''ressourceClient::collect'' (event_message r))) (\<lambda>_.
     if found = 0 then
       bnd (gets (\<lambda>(r, w). my_insert_id B (srv w))) (\<lambda>i.
       bnd (on_fst (modify (\<lambda>r. r\<lparr>current_events := om_put i e (current_events r)\<rparr>))) (\<lambda>_.
       on_snd (event_alert B J ftoa al line e r)))
     else ret ())))"

definition check_rule :: "'db mysql \<Rightarrow> 'j json_api \<Rightarrow> (double \<Rightarrow> string) \<Rightarrow> alerters \<Rightarrow> 'j \<Rightarrow> res_event \<Rightarrow>
    ('j ressource \<times> 'db world, unit) prog" where
  "check_rule B J ftoa al line e =
     bnd (lift (holds_for J met line e)) (\<lambda>trig. if trig then raise_event B J ftoa al line e else ret ())"

text \<open>
  The statement that should close an event sets \<open>end_time\<close> to the parameter \<open>end\<close>; the value is
  bound to the name \<open>name\<close>. Behind it the entry is erased and the loop increments the iterator
  that pointed to it: undefined behaviour.
\<close>

definition end_query :: "'j json_api \<Rightarrow> 'j \<Rightarrow> u32 \<Rightarrow> 'j ressource \<Rightarrow> query outcome" where
  "end_query J line i r =
     obind (line_float J line ''timestamp'') (\<lambda>ts.
     Ret (Query (''update '' @ typed r @ ''res_events set end_time=%0:end where id=%1:id'')
       [(''name'', VDbl ts), (''id'', v_u32 i)]))"

definition check_open :: "'db mysql \<Rightarrow> 'j json_api \<Rightarrow> 'j \<Rightarrow> u32 \<times> res_event \<Rightarrow> ('j ressource \<times> 'db world, unit) prog" where
  "check_open B J line = (\<lambda>(i, e).
     bnd (lift (holds_for J over line e)) (\<lambda>trig. if \<not> trig then ret ()
     else bnd (gets fst) (\<lambda>r.
       bnd (lift (end_query J line i r)) (\<lambda>q.
       bnd (on_snd (myqExec B q ''ressourceClient::collect'' (event_message r))) (\<lambda>_.
       bnd (on_fst (modify (\<lambda>r. r\<lparr>current_events := om_erase i (current_events r)\<rparr>))) (\<lambda>_. undef))))))"

primrec line_values :: "'j json_api \<Rightarrow> 'j \<Rightarrow> string list \<Rightarrow> (string \<times> sqlval) list outcome" where
  "line_values J line [] = Ret []"
| "line_values J line (k # ks) = obind (line_float J line (c_str k)) (\<lambda>x.
     obind (line_values J line ks) (\<lambda>vs. Ret ((c_str k, VDbl x) # vs)))"

definition store_line :: "'db mysql \<Rightarrow> 'j json_api \<Rightarrow> 'j \<Rightarrow> ('j ressource \<times> 'db world, unit) prog" where
  "store_line B J line =
     bnd (gets fst) (\<lambda>r. case rc_def r of None \<Rightarrow> undef | Some d \<Rightarrow>
     bnd (lift (line_values J line (map fst (j_items J d)))) (\<lambda>vs.
     on_snd (myqExec B (Query (baseInsert r) vs) ''ressourceClient::collect''
       (''Insert a value in '' @ rc_table r @ '' ('' @ to_str (rc_host_id r) @ '','' @
        to_str (rc_res_id r) @ ''): '' @ baseInsert r))))"

definition parse_line :: "'db mysql \<Rightarrow> 'j json_api \<Rightarrow> (double \<Rightarrow> string) \<Rightarrow> alerters \<Rightarrow> 'j \<Rightarrow>
    ('j ressource \<times> 'db world, unit) prog" where
  "parse_line B J ftoa al line =
     bnd (gets (\<lambda>(r, w). event_factory r)) (\<lambda>rules.
     bnd (for_each rules (check_rule B J ftoa al line)) (\<lambda>_.
     bnd (gets (\<lambda>(r, w). current_events r)) (\<lambda>events.
     bnd (for_each events (check_open B J line)) (\<lambda>_.
     store_line B J line))))"

definition ressource_parse :: "'db mysql \<Rightarrow> 'j json_api \<Rightarrow> (double \<Rightarrow> string) \<Rightarrow> alerters \<Rightarrow> 'j \<Rightarrow>
    ('j ressource \<times> 'db world, unit) prog" where
  "ressource_parse B J ftoa al p_data =
     for_each (map snd (j_items J p_data)) (parse_line B J ftoa al)"

section \<open>Lemmas\<close>

lemmas parse_defs = check_rule_def check_open_def store_line_def parse_line_def

subsection \<open>Rules and open events\<close>

lemma over_iff_not_met: "comparing e \<Longrightarrow> over e x \<longleftrightarrow> \<not> met e x"
  by (auto simp: comparing_def over_def met_def)

definition open_events :: "'j ressource \<Rightarrow> res_event set" where
  "open_events r = snd ` set (current_events r)"

text \<open>
  What keeps the events in order: the map is one, no id is 0, which \<open>parse\<close> takes for "no event",
  and no two entries are the same event.
\<close>

definition events_ok :: "'j ressource \<Rightarrow> bool" where
  "events_ok r \<longleftrightarrow> om_ok (current_events r) \<and> 0 \<notin> fst ` set (current_events r)
     \<and> distinct (map snd (current_events r))"

lemma found_id_fold:
  "fold (\<lambda>(k, f) found. if e = f then k else found) m a = (if e \<in> snd ` set m
     then fold (\<lambda>(k, f) found. if e = f then k else found) m 0 else a)
   \<and> (e \<in> snd ` set m \<longrightarrow> fold (\<lambda>(k, f) found. if e = f then k else found) m a \<in> fst ` set m)"
proof (induction m arbitrary: a)
  case Nil then show ?case by simp
next
  case (Cons p m)
  obtain k f where p: "p = (k, f)" by (cases p)
  show ?case using Cons [of k] Cons [of a] Cons [of 0] p by (auto split: if_splits)
qed

lemma found_id_eq_0: "events_ok r \<Longrightarrow> found_id e (current_events r) = 0 \<longleftrightarrow> e \<notin> open_events r"
proof -
  assume "events_ok r"
  then have "0 \<notin> fst ` set (current_events r)" by (simp add: events_ok_def)
  then show ?thesis
    using conjunct1 [OF found_id_fold [of e "current_events r" 0]]
      conjunct2 [OF found_id_fold [of e "current_events r" 0]]
    unfolding found_id_def open_events_def by (metis (no_types, lifting))
qed

lemma distinct_om_put:
  "distinct (map snd m) \<Longrightarrow> e \<notin> snd ` set m \<Longrightarrow> distinct (map snd (om_put i e m))"
proof (induction m)
  case Nil then show ?case by simp
next
  case (Cons p m)
  have "snd ` set (om_put i e m) \<subseteq> insert e (snd ` set m)" using set_om_put [of i e m] by force
  with Cons show ?case by auto
qed

lemma events_ok_put:
  assumes "events_ok r" and "e \<notin> open_events r" and "i \<noteq> 0"
  shows "events_ok (r\<lparr>current_events := om_put i e (current_events r)\<rparr>)"
  using assms distinct_om_put [of "current_events r" e i] set_om_put [of i e "current_events r"]
  by (auto simp: events_ok_def open_events_def)

lemma events_ok_erase: "events_ok r \<Longrightarrow> events_ok (r\<lparr>current_events := om_erase i (current_events r)\<rparr>)"
  by (auto simp: events_ok_def om_erase_def distinct_map inj_on_def)
    (metis om_erase_def om_ok_erase)

subsection \<open>Preservation\<close>

lemma keeps_on_snd_fst [keeps_intros]: "keeps (\<lambda>(r, w). P r) (on_snd m)"
  by (auto simp: keeps_def on_snd_def split: prod.splits)

text \<open>A rule whose event is open changes nothing but the database.\<close>

lemma raise_known:
  assumes "events_ok r" and "e \<in> open_events r"
  shows "\<exists>out w'. raise_event B J ftoa al line e (r, w) = (out, (r, w')) \<and> sent w' = sent w"
proof -
  have "keeps (\<lambda>v. sent v = sent w) (myqExec B q ''ressourceClient::collect'' (event_message r))" for q
    by (intro keeps_intros) (simp add: srv_log_free_def)
  then have "sent w1 = sent w" if "myqExec B q ''ressourceClient::collect'' (event_message r) w = (o1, w1)" for q o1 w1
    using keeps_run that by fastforce
  moreover have "found_id e (current_events r) \<noteq> 0" using assms by (simp add: found_id_eq_0)
  ultimately show ?thesis
    by (cases "current_value_query J line e (found_id e (current_events r)) r")
      (auto simp: raise_event_def prog_simps Let_def bnd_def on_snd_def ret_def word_gt_0
         split: prod.splits outcome.splits)
qed

text \<open>A rule whose event is not open inserts it, keeps it under the id of the insert, and alerts.\<close>

lemma raise_new:
  assumes "events_ok r" and "e \<notin> open_events r"
  shows "raise_event B J ftoa al line e (r, w) = (case new_event_query J line e r of
      Ret q \<Rightarrow> (case myqExec B q ''ressourceClient::collect'' (event_message r) w of (_, w1) \<Rightarrow>
        (case event_alert B J ftoa al line e r w1 of (out, w2) \<Rightarrow>
          (out, (r\<lparr>current_events := om_put (my_insert_id B (srv w1)) e (current_events r)\<rparr>, w2))))
    | Throw x \<Rightarrow> (Throw x, (r, w)) | Undef \<Rightarrow> (Undef, (r, w)) | Block \<Rightarrow> (Block, (r, w)))"
proof (cases "new_event_query J line e r")
  case (Ret q)
  obtain w1 where "myqExec B q ''ressourceClient::collect'' (event_message r) w = (Ret (), w1)"
    using myqExec_returns by blast
  moreover have "found_id e (current_events r) = 0" using assms by (simp add: found_id_eq_0)
  ultimately show ?thesis using Ret
    by (simp add: raise_event_def prog_simps Let_def)
next
  case (Throw x)
  moreover have "found_id e (current_events r) = 0" using assms by (simp add: found_id_eq_0)
  ultimately show ?thesis by (simp add: raise_event_def prog_simps Let_def)
next
  case Undef
  moreover have "found_id e (current_events r) = 0" using assms by (simp add: found_id_eq_0)
  ultimately show ?thesis by (simp add: raise_event_def prog_simps Let_def)
next
  case Block
  moreover have "found_id e (current_events r) = 0" using assms by (simp add: found_id_eq_0)
  ultimately show ?thesis by (simp add: raise_event_def prog_simps Let_def)
qed

lemma keeps_events_ok_raise:
  fixes J :: "'j json_api" and B :: "'db mysql"
  assumes "\<And>d. my_insert_id B d \<noteq> 0"
  shows "keeps (\<lambda>(r, w). events_ok r) (raise_event B J ftoa al line e)"
proof (rule keepsI_pair)
  fix r :: "'j ressource" and w :: "'db world" assume "(\<lambda>(r, w). events_ok r) (r, w)"
  then have ok: "events_ok r" by simp
  show "(\<lambda>(r, w). events_ok r) (snd (raise_event B J ftoa al line e (r, w)))"
  proof (cases "e \<in> open_events r")
    case True
    then obtain out w' where "raise_event B J ftoa al line e (r, w) = (out, (r, w'))"
      using raise_known [OF ok] by metis
    with ok show ?thesis by simp
  next
    case False
    from events_ok_put [OF ok this assms] ok show ?thesis
      unfolding raise_new [OF ok False] by (simp split: outcome.split prod.split)
  qed
qed

lemma keeps_events_ok:
  assumes "\<And>d. my_insert_id B d \<noteq> 0"
  shows "keeps (\<lambda>(r, w). events_ok r) (ressource_parse B J ftoa al data)"
proof -
  have "keeps (\<lambda>(r, w). events_ok r) (check_open B J line p)" for line p
    unfolding check_open_def
    by (intro keeps_intros keeps_on_fst keeps_modify) (simp add: events_ok_erase)
  then show ?thesis
    unfolding ressource_parse_def parse_line_def check_rule_def store_line_def
    by (intro keeps_intros keeps_events_ok_raise assms)
qed

context shared_inv
begin

lemma keeps_try_store_on:
  assumes "\<And>rs. keeps (\<lambda>(a, w). R w) (body rs)" and "keeps (\<lambda>(a, w). R w) none"
  shows "keeps (\<lambda>(a, w). R w) (try_store_on B q from msg body none)"
  unfolding try_store_on_def
  by (intro db_intros assms) (auto split: store_res.split intro!: db_intros assms)

lemma keeps_ressource:
  "keeps (\<lambda>(r, w). R w) (ressource_init B J)" "keeps (\<lambda>(r, w). R w) (ressource_parse B J ftoa al data)"
proof -
  have "keeps (\<lambda>(r, w). R w) (raise_event B J ftoa al line e)" for line e
    unfolding raise_event_def event_alert_def Let_def by (intro db_intros keeps_alerts)
  moreover have "keeps (\<lambda>(r, w). R w) (check_open B J line p)" for line p
    unfolding check_open_def by (intro db_intros)
  ultimately show "keeps (\<lambda>(r, w). R w) (ressource_parse B J ftoa al data)"
    unfolding ressource_parse_def parse_line_def check_rule_def store_line_def
    by (intro db_intros)
  show "keeps (\<lambda>(r, w). R w) (ressource_init B J)"
    unfolding ressource_init_def load_rows_def load_current_def load_rule_def
    by (intro db_intros keeps_try_store_on)
qed

end

subsection \<open>A line that opens no event\<close>

lemma check_known:
  assumes "events_ok r" and "holds_for J met line e = Ret True \<Longrightarrow> e \<in> open_events r"
  shows "\<exists>out w'. check_rule B J ftoa al line e (r, w) = (out, (r, w')) \<and> sent w' = sent w"
proof (cases "holds_for J met line e = Ret True")
  case True
  with assms raise_known [OF assms(1), of e B J ftoa al line w] show ?thesis
    by (simp add: check_rule_def prog_simps)
next
  case False
  then show ?thesis
    by (cases "holds_for J met line e") (auto simp: check_rule_def prog_simps)
qed

lemma check_rules_known:
  assumes "events_ok r" and "\<forall>e\<in>set rules. holds_for J met line e = Ret True \<longrightarrow> e \<in> open_events r"
  shows "\<exists>out w'. for_each rules (check_rule B J ftoa al line) (r, w) = (out, (r, w')) \<and> sent w' = sent w"
  using assms(2)
proof (induction rules arbitrary: w)
  case Nil then show ?case by (simp add: prog_simps)
next
  case (Cons e rules)
  obtain out v where v: "check_rule B J ftoa al line e (r, w) = (out, (r, v))" "sent v = sent w"
    using check_known [OF assms(1)] Cons.prems by (metis list.set_intros(1))
  obtain out' u where "for_each rules (check_rule B J ftoa al line) (r, v) = (out', (r, u))" "sent u = sent v"
    using Cons by fastforce
  with v show ?case by (cases out) (auto simp: prog_simps)
qed

lemma keeps_sent_myqExec: "keeps (\<lambda>v. sent v = a) (myqExec B q from msg)"
  by (intro keeps_intros) (simp add: srv_log_free_def)

lemma keeps_sent_on_snd: "keeps (\<lambda>v. sent v = a) m \<Longrightarrow> keeps (\<lambda>(r, w). sent w = a) (on_snd m)"
  by (rule keeps_on_snd) simp

lemma keeps_sent_rest: "keeps (\<lambda>(r, w). sent w = a)
  (bnd (for_each events (check_open B J line)) (\<lambda>_. store_line B J line))"
  unfolding check_open_def store_line_def
  by (intro keeps_intros keeps_on_fst keeps_sent_on_snd keeps_sent_myqExec keeps_modify) simp

subsection \<open>A line that ends an event\<close>

lemma check_open_run:
  "holds_for J over line (snd p) = Ret False \<Longrightarrow> check_open B J line p s = (Ret (), s)"
  by (simp add: check_open_def prog_simps case_prod_beta)

lemma check_open_ends:
  assumes "holds_for J over line e = Ret True" and "line_float J line ''timestamp'' = Ret t"
    and "\<And>q d. q_text q = ''update '' @ typed r @ ''res_events set end_time=%0:end where id=%1:id'' \<Longrightarrow>
      ''end'' \<notin> fst ` set (q_defaults q) \<Longrightarrow> \<exists>x. my_exec B q d = (ExecException x, d)"
  shows "\<exists>w'. check_open B J line (i, e) (r, w)
    = (Undef, (r\<lparr>current_events := om_erase i (current_events r)\<rparr>, w')) \<and> srv w' = srv w"
proof -
  let ?q = "Query (''update '' @ typed r @ ''res_events set end_time=%0:end where id=%1:id'')
    [(''name'', VDbl t), (''id'', v_u32 i)]"
  obtain x where "my_exec B ?q (srv w) = (ExecException x, srv w)" using assms(3) [of ?q] by auto
  then have "\<exists>w'. myqExec B ?q ''ressourceClient::collect'' (event_message r) w = (Ret (), w') \<and> srv w' = srv w"
    by (simp add: myqExec_def prog_simps exception_caught_def l_defs)
  with assms(1,2) show ?thesis
    by (auto simp: check_open_def end_query_def prog_simps)
qed

lemma check_opens_end:
  assumes "\<forall>p\<in>set evs. \<exists>b. holds_for J over line (snd p) = Ret b" "\<exists>p\<in>set evs. holds_for J over line (snd p) = Ret True"
    and "line_float J line ''timestamp'' = Ret t"
    and "\<And>q d. q_text q = ''update '' @ typed r @ ''res_events set end_time=%0:end where id=%1:id'' \<Longrightarrow>
      ''end'' \<notin> fst ` set (q_defaults q) \<Longrightarrow> \<exists>x. my_exec B q d = (ExecException x, d)"
  shows "\<exists>r' w'. for_each evs (check_open B J line) (r, w) = (Undef, (r', w')) \<and> srv w' = srv w"
  using assms(1,2)
proof (induction evs)
  case Nil then show ?case by simp
next
  case (Cons p evs)
  obtain b where b: "holds_for J over line (snd p) = Ret b" using Cons.prems(1) by auto
  show ?case
  proof (cases b)
    case True
    obtain i e where "p = (i, e)" by (cases p)
    with b True check_open_ends [OF _ assms(3), of e r B i w] assms(4) show ?thesis
      by (auto simp: prog_simps)
  next
    case False
    with b Cons show ?thesis by (auto simp: prog_simps check_open_run)
  qed
qed

subsection \<open>The values of a line\<close>

lemma line_values_at:
  "line_values J line ks = Ret vs \<Longrightarrow> k \<in> set ks \<Longrightarrow>
   \<exists>x. line_float J line (c_str k) = Ret x \<and> map_of vs (c_str k) = Some (VDbl x)"
  by (induction ks arbitrary: vs) (auto simp: obind_eq_Ret)

subsection \<open>Examples\<close>

text \<open>A disk that has less than five percent left, and a resource whose only rule says so.\<close>

definition disk_full :: res_event where
  "disk_full = \<lparr>event_type = 2, property = ''pctfree'', oper = CHR ''<'', threshold = 5\<rparr>"

definition disk :: "(u32 \<times> res_event) list \<Rightarrow> json ressource" where
  "disk evs = (new_ressource 7 9 ''/x'' ''disk_usage'' JNull)\<lparr>event_factory := [disk_full], current_events := evs\<rparr>"

definition disk_line :: "int \<Rightarrow> json" where
  "disk_line n = JObj [(''pctfree'', JInt n), (''timestamp'', JInt 0)]"

lemma disk_simps [simp]:
  "current_events (disk evs) = evs" "event_factory (disk evs) = [disk_full]" "\<not> isService (disk evs)"
  "rc_host_id (disk evs) = 7" "rc_res_id (disk evs) = 9" "typed (disk evs) = ''h$''"
  "events_ok (disk []) " "events_ok (disk [(1, disk_full)])"
  "open_events (disk []) = {}" "open_events (disk [(1, disk_full)]) = {disk_full}"
  by (simp_all add: disk_def new_ressource_def events_ok_def open_events_def typed_def om_ok_def)

lemma disk_line_holds [simp]:
  "holds_for jsoncpp met (disk_line n) disk_full = Ret (n < 5)"
  "holds_for jsoncpp over (disk_line n) disk_full = Ret (5 \<le> n)"
  "line_float jsoncpp (disk_line n) ''timestamp'' = Ret 0"
  "line_float jsoncpp (disk_line n) (property disk_full) = Ret (of_int n)"
  by (simp_all add: holds_for_def line_float_def disk_line_def disk_full_def comparing_def met_def over_def)

section \<open>Properties\<close>





text \<open>C12. A rule that is met for the first time opens an event and alerts: the event is inserted, kept
  under the id of the insert, and then everyone set up for the host is sent exactly one alert at
  the level of the event, with a title that names the host and the resource.\<close>

theorem new_event_alerts:
  assumes ok: "events_ok r" "e \<notin> open_events r" "\<not> isService r" and met: "holds_for J met line e = Ret True"
    and q: "new_event_query J line e r = Ret q" "my_exec B q (srv w) = (ExecOk, d)" and conn: "conn w Alerting"
    and host: "my_store B (Query ''select name from h$hosts where id=%0:id'' [(''id'', v_u32 (rc_host_id r))]) d
      = (Rows ((h # cs) # rest), d)"
    and res: "my_store B (Query ''select name from c$ressources where id=%0:id'' [(''id'', v_u32 (rc_res_id r))]) d
      = (Rows ((n # cs') # rest'), d)"
    and rows: "my_store B (alert_hosts_query (rc_host_id r)) d = (Rows rs, d)" "rs \<noteq> []" "\<forall>x\<in>set rs. 2 \<le> length x"
  shows "\<exists>w' text. check_rule B J ftoa al line e (r, w)
      = (Ret (), (r\<lparr>current_events := om_put (my_insert_id B d) e (current_events r)\<rparr>, w'))
    \<and> sent w' = sent w @ due al (event_type e) (''Host '' @ c_str h @ '' resource '' @ c_str n @ '' new event'') text rs"
proof -
  let ?w = "w\<lparr>srv := d\<rparr>"
  obtain v x where v: "j_at J line (property e) = Ret v" "j_asDouble J v = Ret x"
    using met by (auto simp: holds_for_def obind_eq_Ret split: if_splits)
  have typed: "typed r = ''h$''" using ok(3) by (simp add: typed_def)
  obtain w' body where "sendHostRessource B ftoa al (rc_host_id r) (rc_res_id r) e x ?w = (Ret (), w')"
    and sent: "sent w' = sent w @ due al (event_type e) (''Host '' @ c_str h @ '' resource '' @ c_str n @ '' new event'') body rs"
    using sendHostRessource_run [of ?w B "rc_host_id r" h cs rest "rc_res_id r" n cs' rest' rs d ftoa al e x] conn host res rows by auto
  then have "event_alert B J ftoa al line e r ?w = (Ret (), w')"
    using v typed by (simp add: event_alert_def)
  then show ?thesis
    using sent met raise_new [OF ok(1,2), of B J ftoa al line w] q(1) myqExec_ok [OF q(2)]
    by (intro exI [of _ w'] exI [of _ body]) (simp add: check_rule_def)
qed

theorem new_event_alerts_witness:
  "\<exists>r' w'. check_rule (fixed_mysql [[''mail'', ''a@b'']]) jsoncpp (\<lambda>x. []) [''mail'' \<mapsto> Plugin] (disk_line 3) disk_full
      (disk [], demo_world ()) = (Ret (), (r', w')) \<and> map al_title (sent w') = [''Host mail resource mail new event'']"
proof -
  let ?B = "fixed_mysql [[''mail'', ''a@b'']] :: unit mysql"
  obtain q where q: "new_event_query jsoncpp (disk_line 3) disk_full (disk []) = Ret q"
    by (simp add: new_event_query_def)
  show ?thesis
    using new_event_alerts [of "disk []" disk_full jsoncpp "disk_line 3" q ?B "demo_world ()" "()" "''mail''"
        "[''a@b'']" "[]" "''mail''" "[''a@b'']" "[]" "[[''mail'', ''a@b'']]" "\<lambda>x. []" "[''mail'' \<mapsto> Plugin]"] q
    by (auto simp: c_str_def)
qed


definition strict_mysql :: "row list \<Rightarrow> unit mysql" where
  "strict_mysql rs = fixed_mysql rs\<lparr>my_exec := (\<lambda>q d. (ExecException ''Not enough parameters'', d))\<rparr>"

lemma strict_mysql_exec [simp]: "my_exec (strict_mysql rs) q d = (ExecException ''Not enough parameters'', d)"
  by (simp add: strict_mysql_def)



definition single_json :: "json json_api" where
  "single_json = jsoncpp\<lparr>j_asFloat := (\<lambda>v. obind (json_asDouble v) (\<lambda>x. Ret (of_int \<lfloor>x / 2 ^ 17 + 1 / 2\<rfloor> * 2 ^ 17)))\<rparr>"

lemma nearest_multiple:
  fixes x :: double
  shows "\<bar>of_int \<lfloor>x / 131072 + 1 / 2\<rfloor> * 131072 - x\<bar> \<le> 65536"
proof -
  have "of_int \<lfloor>x / 131072 + 1 / 2\<rfloor> \<le> x / 131072 + 1 / 2" "x / 131072 + 1 / 2 < of_int \<lfloor>x / 131072 + 1 / 2\<rfloor> + 1"
    by linarith+
  then show ?thesis by (simp add: abs_le_iff field_simps)
qed

definition stamped :: "int \<Rightarrow> json" where
  "stamped t = JObj [(''timestamp'', JInt t)]"


end
