(* ===== verification/Events.thy ===== *)
theory Events
  imports Ressource
begin

text \<open>
  The events of a resource against what they are meant to be: the set of rules that are met and not
  over yet. The locale states what the refinement needs of the server, that every event inserted
  gets an id of its own; a small server of events provides it.
\<close>

section \<open>The ideal monitor\<close>

definition ideal_line :: "'j json_api \<Rightarrow> res_event list \<Rightarrow> 'j \<Rightarrow> res_event set \<Rightarrow> res_event set" where
  "ideal_line J rules line S =
     {e \<in> S \<union> {e \<in> set rules. holds_for J met line e = Ret True}. holds_for J over line e \<noteq> Ret True}"

definition ideal_parse :: "'j json_api \<Rightarrow> res_event list \<Rightarrow> 'j list \<Rightarrow> res_event set \<Rightarrow> res_event set" where
  "ideal_parse J rules lines S = fold (ideal_line J rules) lines S"

section \<open>Lemmas\<close>

lemma om_put_fresh: "k \<notin> fst ` set m \<Longrightarrow> set (om_put k v m) = insert (k, v) (set m)"
  by (induction m) auto

text \<open>A loop over the open events that returns found none of them over, and changed nothing.\<close>

lemma check_open_return:
  "check_open B J line p s = (Ret (), t) \<Longrightarrow> t = s \<and> holds_for J over line (snd p) = Ret False"
  by (cases p; cases "holds_for J over line (snd p)")
    (auto simp: check_open_def prog_simps bnd_Ret_iff undef_def split: if_splits)

lemma check_opens_return:
  "for_each evs (check_open B J line) s = (Ret (), t) \<Longrightarrow>
   t = s \<and> (\<forall>p\<in>set evs. holds_for J over line (snd p) = Ret False)"
proof (induction evs)
  case Nil then show ?case by (simp add: prog_simps)
next
  case (Cons p evs) then show ?case by (auto simp: bnd_Ret_iff dest!: check_open_return)
qed

lemma raise_known_run:
  assumes "events_ok r" and "e \<in> open_events r" and run: "raise_event B J ftoa al line e (r, w) = (Ret (), (r', w'))"
  shows "r' = r \<and> (\<exists>q. current_value_query J line e (found_id e (current_events r)) r = Ret q
    \<and> myqExec B q ''ressourceClient::collect'' (event_message r) w = (Ret (), w'))"
proof -
  have found: "found_id e (current_events r) \<noteq> 0" using assms by (simp add: found_id_eq_0)
  then obtain q where q: "current_value_query J line e (found_id e (current_events r)) r = Ret q"
    using run by (cases "current_value_query J line e (found_id e (current_events r)) r")
      (auto simp: raise_event_def prog_simps Let_def word_gt_0)
  obtain v where "myqExec B q ''ressourceClient::collect'' (event_message r) w = (Ret (), v)"
    using myqExec_returns by blast
  with run q found show ?thesis by (simp add: raise_event_def prog_simps Let_def word_gt_0)
qed

lemma store_line_run:
  assumes run: "store_line B J line (r, w) = (Ret (), (r', w'))"
  shows "r' = r \<and> (\<exists>vs a b. myqExec B (Query (baseInsert r) vs) a b w = (Ret (), w'))"
proof -
  obtain d where d: "rc_def r = Some d" using run by (cases "rc_def r") (simp_all add: store_line_def prog_simps)
  with run obtain vs where vs: "line_values J line (map fst (j_items J d)) = Ret vs"
    by (cases "line_values J line (map fst (j_items J d))") (simp_all add: store_line_def prog_simps)
  with run d show ?thesis by (auto simp: store_line_def prog_simps split: prod.splits)
qed

section \<open>Servers that number their events\<close>

definition insert_into :: "string \<Rightarrow> query \<Rightarrow> bool" where
  "insert_into tbl q \<longleftrightarrow> take 25 (q_text q) = ''insert into '' @ tbl @ ''res_events ''"

lemma insert_into_text: "insert_into tbl (Query t ps) \<longleftrightarrow> insert_into tbl (Query t [])"
  by (simp add: insert_into_def)

text \<open>The insert statement of a resource fills a data table, the others update an event or add one.\<close>

lemma data_insert:
  assumes "take 14 t = ''insert into d$''"
  shows "\<not> insert_into (typed r) (Query t ps)"
proof
  assume "insert_into (typed r) (Query t ps)"
  then have "take 14 (take 25 t) = take 14 (''insert into '' @ typed r @ ''res_events '')" by (simp add: insert_into_def)
  with assms show False by (simp add: typed_def split: if_splits)
qed

lemma event_insert: "new_event_query J line e r = Ret q \<Longrightarrow> insert_into (typed r) q"
  by (auto simp: new_event_query_def obind_eq_Ret insert_into_def typed_def)

lemma event_update:
  "current_value_query J line e i r = Ret q \<Longrightarrow> \<not> insert_into tbl q"
  "end_query J line i r = Ret q \<Longrightarrow> \<not> insert_into tbl q"
  by (auto simp: current_value_query_def end_query_def obind_eq_Ret insert_into_def)

text \<open>
  \<open>used d\<close> are the ids of the table of events \<open>tbl\<close> (\<open>h$\<close> or \<open>s$\<close>) given out so far: an insert into
  it gets one that was not given out before and is not 0, while there is one; nothing else changes
  them.
\<close>

locale event_ids =
  fixes B :: "'db mysql" and used :: "'db \<Rightarrow> u32 set" and tbl :: string
  assumes store_used: "used (snd (my_store B q d)) = used d"
    and grab_used: "used (snd (my_grab B d)) = used d"
    and exec_used: "\<not> insert_into tbl q \<Longrightarrow> used (snd (my_exec B q d)) = used d"
    and insert_used: "insert_into tbl q \<Longrightarrow> card (used d) < 2 ^ 32 - 1 \<Longrightarrow>
      fst (my_exec B q d) = ExecOk \<and> my_insert_id B (snd (my_exec B q d)) \<notin> insert 0 (used d)
      \<and> used (snd (my_exec B q d)) = insert (my_insert_id B (snd (my_exec B q d))) (used d)"
begin

definition R :: "u32 set \<Rightarrow> 'db world \<Rightarrow> bool" where
  "R U w \<longleftrightarrow> used (srv w) = U"

lemma keeps_R_srv: "(\<And>d. used (snd (f d)) = used d) \<Longrightarrow> keeps (R U) (on_srv f)"
  by (auto simp: keeps_def on_srv_def R_def split: prod.split) (metis snd_conv)+

lemma keeps_R_world: "(\<And>w. srv (f w) = srv w) \<Longrightarrow> keeps (R U) (modify f)"
  by (simp add: keeps_def modify_def R_def)

lemma keeps_R_log:
  "keeps (R U) (l_error a b)" "keeps (R U) (l_warning a b)" "keeps (R U) (l_notice a b)" "keeps (R U) (l_info a b)"
  by (simp_all add: l_defs keeps_R_world)

lemma keeps_R_reports: "keeps (R U) (query_failed B q a b)" "keeps (R U) (exception_caught a b c)"
  unfolding query_failed_def exception_caught_def by (intro keeps_intros keeps_R_log)+

lemma keeps_R_exec: "\<not> insert_into tbl q \<Longrightarrow> keeps (R U) (myqExec B q a b)"
  unfolding myqExec_def
  by (intro keeps_intros keeps_R_srv exec_used) (auto split: exec_res.split intro!: keeps_intros keeps_R_reports)

lemma keeps_R_store: "(\<And>rs. keeps (R U) (body rs)) \<Longrightarrow> keeps (R U) (try_store B q a b body)"
  unfolding try_store_def
  by (intro keeps_intros keeps_R_srv store_used) (auto split: store_res.split intro!: keeps_intros keeps_R_reports)

lemma keeps_R_grab: "keeps (R U) (grab B self)"
proof -
  have "keeps (R U) pool_grab" unfolding pool_grab_def by (intro keeps_intros keeps_R_world) simp
  then have "keeps (R U) (pool_grabs n)" for n by (induction n) (auto intro: keeps_intros)
  then show ?thesis
    unfolding grab_def safe_grab_def
    by (intro keeps_intros keeps_R_srv keeps_R_world grab_used) (auto split: grab_end.split intro!: keeps_intros)
qed

lemmas keeps_R = keeps_intros keeps_R_log keeps_R_store keeps_R_grab

lemma keeps_R_dispatch: "keeps (R U) whom \<Longrightarrow> keeps (R U) (dispatch B al a q failed whom lvl title msg)"
proof -
  have "keeps (R U) (send al lvl a dest title msg)" for lvl a dest title msg
    unfolding send_def by (intro keeps_R keeps_R_world) simp
  then show "keeps (R U) whom \<Longrightarrow> ?thesis"
    unfolding dispatch_def send_row_def with_conn_def by (intro keeps_R)
qed

lemma keeps_R_names:
  "keeps (R U) (getServiceHost B self i)" "keeps (R U) (getServiceName B self h i)"
  "keeps (R U) (getHostName B self i)" "keeps (R U) (getRessourceName B self i)"
  unfolding getServiceHost_def getServiceName_def getHostName_def getRessourceName_def get_id_def ask_def with_conn_def
  by (intro keeps_R)+

lemma keeps_R_alert: "keeps (R U) (event_alert B J ftoa al line e r)"
  unfolding event_alert_def sendServRessource_def sendHostRessource_def
  by (intro keeps_intros keeps_R_names keeps_R_dispatch)

text \<open>
  The simulation relation: the map is in order, its ids are in use, and there are ids left for the
  rules that have no event yet.
\<close>

definition left :: "'j ressource \<Rightarrow> 'db world \<Rightarrow> nat" where
  "left r w = card (used (srv w)) + card (set (event_factory r) - open_events r)"

definition numbered :: "'j ressource \<Rightarrow> 'db world \<Rightarrow> bool" where
  "numbered r w \<longleftrightarrow> events_ok r \<and> typed r = tbl \<and> \<not> insert_into tbl (Query (baseInsert r) [])
     \<and> fst ` set (current_events r) \<subseteq> used (srv w)
     \<and> left r w < 2 ^ 32"

lemma R_exec: "myqExec B q a b w = (x, v) \<Longrightarrow> \<not> insert_into tbl q \<Longrightarrow> used (srv v) = used (srv w)"
  using keeps_run [OF keeps_R_exec] by (simp add: R_def)

lemma raise_refines:
  assumes run: "raise_event B J ftoa al line e (r, w) = (Ret (), (r', w'))" and n: "numbered r w"
    and rule: "e \<in> set (event_factory r)"
  shows "numbered r' w' \<and> left r' w' = left r w \<and> open_events r' = insert e (open_events r) \<and> event_factory r' = event_factory r"
proof (cases "e \<in> open_events r")
  case True
  have ok: "events_ok r" using n by (simp add: numbered_def)
  obtain q where r': "r' = r" and q: "current_value_query J line e (found_id e (current_events r)) r = Ret q"
    and exec: "myqExec B q ''ressourceClient::collect'' (event_message r) w = (Ret (), w')"
    using raise_known_run [OF ok True run] by (elim conjE exE)
  have "used (srv w') = used (srv w)" by (rule R_exec [OF exec event_update(1) [OF q]])
  with r' True n show ?thesis by (auto simp: numbered_def left_def)
next
  case False
  have ok: "events_ok r" and typed: "typed r = tbl" using n by (simp_all add: numbered_def)
  from run obtain q where q: "new_event_query J line e r = Ret q"
    unfolding raise_new [OF ok False] by (cases "new_event_query J line e r") auto
  obtain w1 where w1: "myqExec B q ''ressourceClient::collect'' (event_message r) w = (Ret (), w1)"
    using myqExec_returns by blast
  from run have w': "event_alert B J ftoa al line e r w1 = (Ret (), w')"
    and r': "r' = r\<lparr>current_events := om_put (my_insert_id B (srv w1)) e (current_events r)\<rparr>"
    unfolding raise_new [OF ok False] by (simp_all add: q w1 split: prod.splits)
  let ?i = "my_insert_id B (srv w1)" and ?rules = "set (event_factory r)"
  have fewer: "card (?rules - open_events r) = Suc (card (?rules - insert e (open_events r)))"
    using rule False card_Suc_Diff1 [of "?rules - open_events r" e] by (simp add: Diff_insert [symmetric])
  with n have room: "card (used (srv w)) + Suc (card (?rules - insert e (open_events r))) < 2 ^ 32"
    by (simp add: numbered_def left_def)
  have srv1: "srv w1 = snd (my_exec B q (srv w))" 
    using myqExec_returns [of B q "''ressourceClient::collect''" "event_message r" w] w1 by simp
  have "insert_into tbl q" using event_insert [OF q] typed by simp
  from insert_used [OF this, of "srv w"] room
  have i: "?i \<noteq> 0" "?i \<notin> used (srv w)" and used: "used (srv w1) = insert ?i (used (srv w))"
    unfolding srv1 by auto
  have fresh: "?i \<notin> fst ` set (current_events r)" using n i(2) by (auto simp: numbered_def)
  then have "set (current_events r') = insert (?i, e) (set (current_events r))" by (simp add: r' om_put_fresh)
  moreover have "used (srv w') = used (srv w1)"
    using keeps_run [OF keeps_R_alert w', of "used (srv w1)"] by (simp add: R_def)
  moreover have "card (insert ?i (used (srv w))) = Suc (card (used (srv w)))" using i(2) by simp
  moreover have "events_ok r'" unfolding r' by (rule events_ok_put [OF ok False i(1)])
  ultimately show ?thesis
    using n room used fewer by (auto simp: numbered_def left_def open_events_def r' typed_def)
qed

lemma check_refines:
  assumes run: "check_rule B J ftoa al line e (r, w) = (Ret (), (r', w'))" and n: "numbered r w"
    and rule: "e \<in> set (event_factory r)"
  shows "numbered r' w' \<and> left r' w' = left r w \<and> event_factory r' = event_factory r
    \<and> open_events r' = open_events r \<union> {e' \<in> {e}. holds_for J met line e' = Ret True}"
proof -
  from run obtain b where b: "holds_for J met line e = Ret b"
    by (cases "holds_for J met line e") (auto simp: check_rule_def prog_simps)
  show ?thesis
  proof (cases b)
    case True
    with b run have "raise_event B J ftoa al line e (r, w) = (Ret (), (r', w'))" by (simp add: check_rule_def prog_simps)
    from raise_refines [OF this n rule] b True show ?thesis by auto
  next
    case False
    with b run n show ?thesis by (auto simp: check_rule_def prog_simps)
  qed
qed

lemma checks_refine:
  "for_each rules (check_rule B J ftoa al line) (r, w) = (Ret (), (r', w')) \<Longrightarrow> numbered r w \<Longrightarrow>
   set rules \<subseteq> set (event_factory r) \<Longrightarrow> numbered r' w' \<and> left r' w' = left r w \<and> event_factory r' = event_factory r
    \<and> open_events r' = open_events r \<union> {e \<in> set rules. holds_for J met line e = Ret True}"
proof (induction rules arbitrary: r w)
  case Nil then show ?case by (simp add: prog_simps)
next
  case (Cons e rules)
  from Cons.prems(1) obtain r1 w1 where c: "check_rule B J ftoa al line e (r, w) = (Ret (), (r1, w1))"
    and rest: "for_each rules (check_rule B J ftoa al line) (r1, w1) = (Ret (), (r', w'))"
    by (auto simp: bnd_Ret_iff)
  from Cons.prems(3) have "e \<in> set (event_factory r)" by simp
  note one = check_refines [OF c Cons.prems(2) this]
  with Cons.IH [OF rest] Cons.prems(3) show ?case by auto
qed

lemma parse_line_refines:
  assumes run: "parse_line B J ftoa al line (r, w) = (Ret (), (r', w'))" and n: "numbered r w"
  shows "numbered r' w' \<and> left r' w' = left r w \<and> event_factory r' = event_factory r
    \<and> open_events r \<subseteq> open_events r' \<and> open_events r' \<subseteq> open_events r \<union> set (event_factory r)
    \<and> open_events r' = ideal_line J (event_factory r) line (open_events r)"
proof -
  from run obtain r1 w1 v where rules: "for_each (event_factory r) (check_rule B J ftoa al line) (r, w) = (Ret (), (r1, w1))"
    and opens: "for_each (current_events r1) (check_open B J line) (r1, w1) = (Ret (), v)"
    and store: "store_line B J line v = (Ret (), (r', w'))"
    by (auto simp: parse_line_def prog_simps bnd_Ret_iff)
  note r1 = checks_refine [OF rules n subset_refl]
  from check_opens_return [OF opens] have v: "v = (r1, w1)"
    and over: "\<forall>p\<in>set (current_events r1). holds_for J over line (snd p) = Ret False" by simp_all
  have "\<not> insert_into tbl (Query (baseInsert r1) vs)" for vs
    using r1 insert_into_text [of tbl "baseInsert r1" vs] by (simp add: numbered_def)
  then have "r' = r1 \<and> used (srv w') = used (srv w1)"
    using store_line_run [OF store [unfolded v]] R_exec by blast
  moreover have "\<forall>e\<in>open_events r1. holds_for J over line e \<noteq> Ret True" using over by (auto simp: open_events_def)
  ultimately show ?thesis using r1 by (auto simp: numbered_def left_def ideal_line_def)
qed

lemma parse_refines:
  "for_each lines (parse_line B J ftoa al) (r, w) = (Ret (), (r', w')) \<Longrightarrow> numbered r w \<Longrightarrow>
   numbered r' w' \<and> left r' w' = left r w \<and> event_factory r' = event_factory r
   \<and> open_events r \<subseteq> open_events r' \<and> open_events r' \<subseteq> open_events r \<union> set (event_factory r)
   \<and> open_events r' = ideal_parse J (event_factory r) lines (open_events r)"
proof (induction lines arbitrary: r w)
  case Nil then show ?case by (simp add: prog_simps ideal_parse_def)
next
  case (Cons line lines)
  from Cons.prems(1) obtain r1 w1 where c: "parse_line B J ftoa al line (r, w) = (Ret (), (r1, w1))"
    and rest: "for_each lines (parse_line B J ftoa al) (r1, w1) = (Ret (), (r', w'))"
    by (auto simp: bnd_Ret_iff)
  note one = parse_line_refines [OF c Cons.prems(2)]
  have step: "ideal_parse J rules (line # lines) S = ideal_parse J rules lines (ideal_line J rules line S)" for rules S
    by (simp add: ideal_parse_def)
  note two = Cons.IH [OF rest conjunct1 [OF one]]
  from one have r1: "numbered r1 w1" "left r1 w1 = left r w" "event_factory r1 = event_factory r"
    "open_events r \<subseteq> open_events r1" "open_events r1 \<subseteq> open_events r \<union> set (event_factory r)"
    "open_events r1 = ideal_line J (event_factory r) line (open_events r)" by - (elim conjE, assumption)+
  from two have r': "numbered r' w'" "left r' w' = left r1 w1" "event_factory r' = event_factory r1"
    "open_events r1 \<subseteq> open_events r'" "open_events r' \<subseteq> open_events r1 \<union> set (event_factory r1)"
    "open_events r' = ideal_parse J (event_factory r1) lines (open_events r1)" by - (elim conjE, assumption)+
  have "open_events r \<subseteq> open_events r'" by (rule subset_trans [OF r1(4) r'(4)])
  moreover have "open_events r' \<subseteq> open_events r \<union> set (event_factory r)" using r'(5) [unfolded r1(3)] r1(5) by blast
  moreover have "open_events r' = ideal_parse J (event_factory r) (line # lines) (open_events r)"
    using r'(6) unfolding step r1(3) r1(6) .
  moreover have "left r' w' = left r w" "event_factory r' = event_factory r"
    using r1(2,3) r'(2,3) by (simp_all only:)
  ultimately show ?case using r'(1) by (intro conjI)
qed

end

section \<open>A server of events\<close>

text \<open>
  The last id given out in each of the two tables of events, and the last one of all; every select
  is answered with the same rows.
\<close>

record event_db =
  ed_auto :: "string \<Rightarrow> u32"
  ed_last :: u32

definition event_exec :: "query \<Rightarrow> event_db \<Rightarrow> exec_res \<times> event_db" where
  "event_exec q d = (case filter (\<lambda>t. insert_into t q) [''h$'', ''s$''] of
     [] \<Rightarrow> (ExecOk, d)
   | t # _ \<Rightarrow> if ed_auto d t = - 1 then (ExecBadQuery, d)
       else (ExecOk, d\<lparr>ed_auto := (ed_auto d)(t := ed_auto d t + 1), ed_last := ed_auto d t + 1\<rparr>))"

definition event_mysql :: "row list \<Rightarrow> event_db mysql" where
  "event_mysql rs = (fixed_mysql rs)\<lparr>my_exec := event_exec, my_insert_id := ed_last\<rparr>"

definition given_ids :: "string \<Rightarrow> event_db \<Rightarrow> u32 set" where
  "given_ids t d = {0 <.. ed_auto d t}"

lemma card_given: "card {0 <.. (- 1 :: u32)} = 2 ^ 32 - 1"
proof -
  have "{0 <.. (- 1 :: u32)} = UNIV - {0}" by (auto simp: word_gt_0)
  then show ?thesis by (simp add: card_Diff_subset card_word)
qed

lemma given_room: "card (given_ids t d) < 2 ^ 32 - 1 \<Longrightarrow> ed_auto d t \<noteq> - 1"
  using card_given by (auto simp: given_ids_def)

lemma next_id:
  assumes "(n :: u32) \<noteq> - 1"
  shows "n + 1 \<notin> insert 0 {0 <.. n}" and "{0 <.. n + 1} = insert (n + 1) {0 <.. n}"
proof -
  have "1 + n \<noteq> 0" using assms by (metis add.commute add_eq_0_iff)
  then have suc: "unat (n + 1) = Suc (unat n)" by (simp add: unatSuc add.commute)
  then show "n + 1 \<notin> insert 0 {0 <.. n}" by (auto simp: word_le_nat_alt)
  show "{0 <.. n + 1} = insert (n + 1) {0 <.. n}"
  proof (rule set_eqI)
    fix x show "x \<in> {0 <.. n + 1} \<longleftrightarrow> x \<in> insert (n + 1) {0 <.. n}"
      using suc word_unat_eq_iff [of x "n + 1"] by (auto simp: word_le_nat_alt word_less_nat_alt)
  qed
qed

lemma insert_into_one: "t \<in> {''h$'', ''s$''} \<Longrightarrow> t' \<in> {''h$'', ''s$''} \<Longrightarrow> insert_into t q \<Longrightarrow> insert_into t' q \<Longrightarrow> t = t'"
  by (auto simp: insert_into_def)

lemma event_exec_other: "t \<in> {''h$'', ''s$''} \<Longrightarrow> \<not> insert_into t q \<Longrightarrow> given_ids t (snd (event_exec q d)) = given_ids t d"
  by (auto simp: event_exec_def given_ids_def)

lemma event_exec_insert:
  assumes t: "t \<in> {''h$'', ''s$''}" "insert_into t q" and "ed_auto d t \<noteq> - 1"
  shows "event_exec q d = (ExecOk, d\<lparr>ed_auto := (ed_auto d)(t := ed_auto d t + 1), ed_last := ed_auto d t + 1\<rparr>)"
proof -
  have "\<not> insert_into t' q" if "t' \<in> {''h$'', ''s$''}" "t' \<noteq> t" for t'
    using insert_into_one [OF t(1) that(1) t(2)] that(2) by blast
  then have "filter (\<lambda>t. insert_into t q) [''h$'', ''s$''] = [t]" using t by auto
  with assms(3) show ?thesis unfolding event_exec_def by simp
qed

lemma event_mysql_ids:
  assumes "t \<in> {''h$'', ''s$''}"
  shows "event_ids (event_mysql rs) (given_ids t) t"
proof
  fix q and d :: event_db
  show "given_ids t (snd (my_store (event_mysql rs) q d)) = given_ids t d"
    and "given_ids t (snd (my_grab (event_mysql rs) d)) = given_ids t d"
    by (simp_all add: event_mysql_def fixed_mysql_def)
  show "given_ids t (snd (my_exec (event_mysql rs) q d)) = given_ids t d" if "\<not> insert_into t q"
    using event_exec_other [OF assms that] by (simp add: event_mysql_def)
  assume q: "insert_into t q" and "card (given_ids t d) < 2 ^ 32 - 1"
  note room = given_room [OF this(2)]
  note run = event_exec_insert [OF assms q room]
  from next_id [OF room] run show "fst (my_exec (event_mysql rs) q d) = ExecOk
      \<and> my_insert_id (event_mysql rs) (snd (my_exec (event_mysql rs) q d)) \<notin> insert 0 (given_ids t d)
      \<and> given_ids t (snd (my_exec (event_mysql rs) q d))
        = insert (my_insert_id (event_mysql rs) (snd (my_exec (event_mysql rs) q d))) (given_ids t d)"
    by (simp add: event_mysql_def given_ids_def)
qed

interpretation host_events: event_ids "event_mysql rs" "given_ids ''h$''" "''h$''" for rs
  by (rule event_mysql_ids) simp

interpretation service_events: event_ids "event_mysql rs" "given_ids ''s$''" "''s$''" for rs
  by (rule event_mysql_ids) simp

section \<open>Properties\<close>

text \<open>C3. The events refine the ideal monitor: on a server that numbers its events, whenever \<open>parse\<close>
  returns at all, the open events afterwards are those the monitor has after the same lines, which
  opens an event when its rule is met and closes it when it is over; and exactly one row was
  inserted for every event that was not open before. (\<open>parse\<close> only returns when no event is over.)\<close>

theorem events_refine_monitor:
  assumes "event_ids B used (typed r)" and "events_ok r" and "take 14 (baseInsert r) = ''insert into d$''"
    and "fst ` set (current_events r) \<subseteq> used (srv w)" and "card (used (srv w)) + length (event_factory r) < 2 ^ 32"
    and run: "ressource_parse B J ftoa al data (r, w) = (Ret (), (r', w'))"
  shows "open_events r' = ideal_parse J (event_factory r) (map snd (j_items J data)) (open_events r)
    \<and> card (used (srv w')) = card (used (srv w)) + card (open_events r' - open_events r)"
proof -
  note defs = event_ids.numbered_def [OF assms(1)] event_ids.left_def [OF assms(1)]
  let ?rules = "set (event_factory r)"
  have "card (?rules - open_events r) \<le> length (event_factory r)"
    using card_mono [of ?rules "?rules - open_events r"] card_length [of "event_factory r"] by simp
  then have n: "event_ids.numbered used (typed r) r w"
    using assms(2-5) data_insert [of "baseInsert r" r] by (simp add: defs)
  have "for_each (map snd (j_items J data)) (parse_line B J ftoa al) (r, w) = (Ret (), (r', w'))"
    using run by (simp add: ressource_parse_def)
  note all = event_ids.parse_refines [OF assms(1) this n]
  then have same: "event_factory r' = event_factory r" and sub: "open_events r \<subseteq> open_events r'" "open_events r' \<subseteq> open_events r \<union> ?rules"
    and ideal: "open_events r' = ideal_parse J (event_factory r) (map snd (j_items J data)) (open_events r)" by blast+
  have left: "card (used (srv w')) + card (?rules - open_events r') = card (used (srv w)) + card (?rules - open_events r)"
    using all unfolding event_ids.left_def [OF assms(1)] same by blast
  have "?rules - open_events r = (?rules - open_events r') \<union> (open_events r' - open_events r)" using sub by auto
  moreover have "open_events r' - open_events r \<subseteq> ?rules" using sub by auto
  then have "finite (open_events r' - open_events r)" by (rule finite_subset) simp
  then have "card ((?rules - open_events r') \<union> (open_events r' - open_events r))
      = card (?rules - open_events r') + card (open_events r' - open_events r)"
    by (intro card_Un_disjoint) auto
  ultimately have "card (?rules - open_events r) = card (?rules - open_events r') + card (open_events r' - open_events r)"
    by argo
  with left have "card (used (srv w')) = card (used (srv w)) + card (open_events r' - open_events r)" by linarith
  with ideal show ?thesis by blast
qed

text \<open>The disk of the resource theory, with a definition of its data and the insert into its table.\<close>

definition stored_disk :: "json ressource" where
  "stored_disk = (disk [])\<lparr>rc_def := Some (JObj [(''free'', JNull)]), baseInsert := ''insert into d$disk(free) values (%0:free)''\<rparr>"

definition no_events :: event_db where
  "no_events = \<lparr>ed_auto = (\<lambda>t. 0), ed_last = 0\<rparr>"

lemma stored_disk_runs:
  "fst (ressource_parse (event_mysql [[''mail'', ''a@b'']]) jsoncpp (\<lambda>x. []) [''mail'' \<mapsto> Plugin]
     (JArr [disk_line 3, disk_line 2]) (stored_disk, demo_world no_events)) = Ret ()"
  by code_simp

theorem events_refine_monitor_witness:
  "\<exists>r' w'. ressource_parse (event_mysql [[''mail'', ''a@b'']]) jsoncpp (\<lambda>x. []) [''mail'' \<mapsto> Plugin]
      (JArr [disk_line 3, disk_line 2]) (stored_disk, demo_world no_events) = (Ret (), (r', w'))
    \<and> open_events r' = {disk_full} \<and> card (given_ids ''h$'' (srv w')) = 1"
proof -
  let ?B = "event_mysql [[''mail'', ''a@b'']]" and ?data = "JArr [disk_line 3, disk_line 2]"
  have r: "typed stored_disk = ''h$''" "event_factory stored_disk = [disk_full]" "open_events stored_disk = {}"
    "current_events stored_disk = []" "events_ok stored_disk" "take 14 (baseInsert stored_disk) = ''insert into d$''"
    by (simp_all add: stored_disk_def typed_def open_events_def events_ok_def om_ok_def disk_def new_ressource_def)
  have none: "given_ids ''h$'' no_events = {}" by (simp add: given_ids_def no_events_def)
  have "event_ids ?B (given_ids ''h$'') (typed stored_disk)" unfolding r by (rule event_mysql_ids) simp
  moreover obtain r' w' where run: "ressource_parse ?B jsoncpp (\<lambda>x. []) [''mail'' \<mapsto> Plugin] ?data
      (stored_disk, demo_world no_events) = (Ret (), (r', w'))"
    using stored_disk_runs by (metis prod.collapse)
  ultimately have "open_events r' = ideal_parse jsoncpp [disk_full] [disk_line 3, disk_line 2] {}
      \<and> card (given_ids ''h$'' (srv w')) = card (open_events r')"
    using events_refine_monitor [of ?B "given_ids ''h$''" stored_disk "demo_world no_events"] r none by simp
  moreover have "ideal_parse jsoncpp [disk_full] [disk_line 3, disk_line 2] {} = {disk_full}"
    by (auto simp: ideal_parse_def ideal_line_def)
  ultimately show ?thesis using run by simp
qed

end
