(* ===== verification/SwsClient.thy ===== *)
theory SwsClient
  imports Utility Json "HOL-Library.While_Combinator"
begin

text \<open>
  The HTTP client (\<open>sws/client_http.hpp\<close>, \<open>sws/client_https.hpp\<close>), synchronous requests: the
  header that is sent, the connections a client keeps, connecting, writing, and the states of
  reading a response (header, body by length, in chunks or up to the end of the stream), with the
  one reconnection that follows a failed read. Every asynchronous operation has one handler, so a
  request is the sequence of its operations. Boost.Asio is not part of the repository: its
  operations are the fields of a record \<open>A\<close> over an arbitrary state \<open>'db\<close> of the outside.
\<close>

section \<open>Boost.Asio\<close>

text \<open>
  An operation ends with an error code (its text) or none. \<open>a_read_until\<close>, \<open>a_read_exactly\<close> and
  \<open>a_read_all\<close> get what the buffer holds and return what it holds afterwards. The number in front
  of an operation is the time limit of the timer that closes its socket, if there is one.
  \<open>a_pick\<close> chooses among header entries with equivalent keys. The number of chunks of one response
  that are followed is \<open>a_chunks\<close>; a response with more counts as one that does not end.
\<close>

record tls_setup =
  chain_and_key :: "(string \<times> string) option"
  check_name :: "string option"
  trusted :: "string option"
  verify_peer :: bool

record 'db asio =
  a_context :: "tls_setup \<Rightarrow> 'db \<Rightarrow> string option \<times> 'db"
  a_socket :: "tls_setup option \<Rightarrow> 'db \<Rightarrow> nat \<times> 'db"
  a_resolve :: "nat option \<Rightarrow> string \<times> string \<Rightarrow> 'db \<Rightarrow> string option \<times> 'db"
  a_connect :: "nat option \<Rightarrow> nat \<Rightarrow> 'db \<Rightarrow> string option \<times> 'db"
  a_handshake :: "nat option \<Rightarrow> nat \<Rightarrow> 'db \<Rightarrow> string option \<times> 'db"
  a_write :: "nat option \<Rightarrow> nat \<Rightarrow> string \<Rightarrow> 'db \<Rightarrow> string option \<times> 'db"
  a_read_until :: "nat option \<Rightarrow> nat \<Rightarrow> string \<Rightarrow> string \<Rightarrow> 'db \<Rightarrow> (string option \<times> string) \<times> 'db"
  a_read_exactly :: "nat option \<Rightarrow> nat \<Rightarrow> nat \<Rightarrow> string \<Rightarrow> 'db \<Rightarrow> (string option \<times> string) \<times> 'db"
  a_read_all :: "nat option \<Rightarrow> nat \<Rightarrow> string \<Rightarrow> 'db \<Rightarrow> (string option \<times> string) \<times> 'db"
  a_close :: "nat \<Rightarrow> 'db \<Rightarrow> 'db"
  a_pick :: "string list \<Rightarrow> string"
  a_chunks :: nat
  a_stat :: "string \<Rightarrow> 'db \<Rightarrow> bool"

definition crlf :: string where
  "crlf = [CHR 0x0D, CHR 0x0A]"

text \<open>The number of bytes up to and with the first delimiter, which a successful \<open>read_until\<close> reports.\<close>

primrec upto_delim :: "string \<Rightarrow> string \<Rightarrow> nat" where
  "upto_delim d [] = 0"
| "upto_delim d (c # cs) =
     (if take (length d) (c # cs) = d then length d else Suc (upto_delim d cs))"

section \<open>Clients and connections\<close>

record sws_config =
  timeout :: nat
  timeout_connect :: nat
  proxy_server :: string

text \<open>\<open>is_open\<close> is the state of the socket \<open>c_sock\<close>; \<open>c_query\<close> what is resolved to connect it.\<close>

record connection =
  c_host :: string
  c_port :: u16
  c_config :: sws_config
  c_sock :: nat
  c_query :: "string \<times> string"
  is_open :: bool
  in_use :: bool
  reconnecting :: bool

record client =
  cl_tls :: "tls_setup option"
  cl_config :: sws_config
  cl_host :: string
  cl_port :: u16
  connections :: "connection list"

definition default_config :: sws_config where
  "default_config = \<lparr>timeout = 0, timeout_connect = 0, proxy_server = []\<rparr>"

definition parse_host_port :: "string \<Rightarrow> u16 \<Rightarrow> (string \<times> u16) outcome" where
  "parse_host_port host_port default_port =
     (let host_end = str_find host_port (CHR '':'')
      in if host_end = npos then Ret (host_port, default_port)
         else obind (stoul 10 (drop (host_end + 1) host_port)) (\<lambda>p.
                Ret (take host_end host_port, ucast p)))"

definition new_client :: "tls_setup option \<Rightarrow> u16 \<Rightarrow> string \<Rightarrow> client outcome" where
  "new_client tls default_port host_port = obind (parse_host_port host_port default_port) (\<lambda>(h, p).
     Ret \<lparr>cl_tls = tls, cl_config = default_config, cl_host = h, cl_port = p, connections = []\<rparr>)"

text \<open>The constructors of \<open>Client<HTTP>\<close> and of \<open>Client<HTTPS>\<close> with its security settings.\<close>

definition http_client_init :: "string \<Rightarrow> client outcome" where
  "http_client_init server_port_path = new_client None 80 server_port_path"

definition tls_setup_of :: "string \<Rightarrow> bool \<Rightarrow> string \<Rightarrow> string \<Rightarrow> string \<Rightarrow> tls_setup" where
  "tls_setup_of host verify_certificate cert_file private_key_file verify_file =
     \<lparr>chain_and_key = (if cert_file \<noteq> [] \<and> private_key_file \<noteq> [] then Some (cert_file, private_key_file) else None),
      check_name = (if verify_certificate then Some host else None),
      trusted = (if verify_file \<noteq> [] then Some verify_file else None),
      verify_peer = (verify_file \<noteq> [] \<or> verify_certificate)\<rparr>"

definition https_client_init :: "'db asio \<Rightarrow> string \<Rightarrow> bool \<Rightarrow> string \<Rightarrow> string \<Rightarrow> string \<Rightarrow> ('db, client) prog" where
  "https_client_init A server_port_path verify_certificate cert_file private_key_file verify_file =
     bnd (lift (parse_host_port server_port_path 443)) (\<lambda>(h, p).
       let setup = tls_setup_of h verify_certificate cert_file private_key_file verify_file
       in (\<lambda>d. case a_context A setup d of
                 (Some e, d) \<Rightarrow> (Throw e, d)
               | (None, d) \<Rightarrow> (new_client (Some setup) 443 server_port_path, d)))"

text \<open>
  A new connection; its resolver query is for the proxy where one is configured, whose text is
  parsed here and may make the constructor throw.
\<close>

definition create_connection :: "'db asio \<Rightarrow> (client \<times> 'db, connection) prog" where
  "create_connection A = (\<lambda>(cl, d).
     case a_socket A (cl_tls cl) d of (s, d) \<Rightarrow>
       (obind (if proxy_server (cl_config cl) = [] then Ret (cl_host cl, cl_port cl)
               else parse_host_port (proxy_server (cl_config cl)) 8080) (\<lambda>(h, p).
          Ret \<lparr>c_host = cl_host cl, c_port = cl_port cl, c_config = cl_config cl, c_sock = s,
               c_query = (h, dec (unat p)), is_open = False, in_use = False, reconnecting = False\<rparr>),
        (cl, d)))"

text \<open>
  The loop of \<open>get_connection\<close>: connections in use stay, the first unused one is chosen, further
  unused ones are erased. It yields the connections kept and the index of the chosen one.
\<close>

fun scan_connections :: "connection list \<Rightarrow> connection list \<Rightarrow> nat option \<Rightarrow> connection list \<times> nat option" where
  "scan_connections [] kept chosen = (kept, chosen)"
| "scan_connections (c # cs) kept chosen =
     (if in_use c then scan_connections cs (kept @ [c]) chosen
      else case chosen of
             None \<Rightarrow> scan_connections cs (kept @ [c]) (Some (length kept))
           | Some i \<Rightarrow> scan_connections cs kept chosen)"

definition get_connection :: "'db asio \<Rightarrow> (client \<times> 'db, nat) prog" where
  "get_connection A = (\<lambda>(cl, d).
     case scan_connections (connections cl) [] None of (kept, chosen) \<Rightarrow>
     bnd (case chosen of
            Some i \<Rightarrow> ret i
          | None \<Rightarrow> bnd (create_connection A) (\<lambda>c.
              bnd (modify (\<lambda>(cl, d). (cl\<lparr>connections := connections cl @ [c]\<rparr>, d))) (\<lambda>_.
              ret (length kept))))
       (\<lambda>i. bnd (modify (\<lambda>(cl, d). (cl\<lparr>connections := (connections cl)
                    [i := (connections cl ! i)\<lparr>reconnecting := False, in_use := True\<rparr>]\<rparr>, d))) (\<lambda>_.
            ret i))
       (cl\<lparr>connections := kept\<rparr>, d))"

definition create_request_header :: "client \<Rightarrow> string \<Rightarrow> string \<Rightarrow> multimap \<Rightarrow> string" where
  "create_request_header cl method path header =
    (let corrected_path = (if path = [] then ''/'' else path);
         corrected_path = (if proxy_server (cl_config cl) \<noteq> [] \<and> cl_tls cl = None
           then ''http://'' @ cl_host cl @ '':'' @ dec (unat (cl_port cl)) @ corrected_path
           else corrected_path)
     in method @ '' '' @ corrected_path @ '' HTTP/1.1'' @ crlf @
        ''Host: '' @ cl_host cl @ crlf @
        concat (map (\<lambda>(k, v). k @ '': '' @ v @ crlf) header))"

text \<open>What \<open>request\<close> adds to the header: the length of the content, an empty line, the content.\<close>

definition request_text :: "client \<Rightarrow> string \<Rightarrow> string \<Rightarrow> string \<Rightarrow> multimap \<Rightarrow> string" where
  "request_text cl method path content header = create_request_header cl method path header @
     (if content = [] then [] else ''Content-Length: '' @ dec (length content) @ crlf) @ crlf @ content"

definition get_timeout_timer :: "connection \<Rightarrow> nat \<Rightarrow> nat option" where
  "get_timeout_timer c t =
     (let t = (if t = 0 then timeout (c_config c) else t) in if t = 0 then None else Some t)"

section \<open>The response header\<close>

text \<open>
  An input stream over a buffer: once it has met the end of the buffer, \<open>bad\<close> is set and it
  extracts nothing any more; \<open>getline\<close> then leaves the line as it was.
\<close>

record istream =
  buf :: string
  bad :: bool

definition getline :: "istream \<Rightarrow> string \<Rightarrow> istream \<times> string" where
  "getline st line =
    (if bad st then (st, line)
     else if CHR 0x0A \<in> set (buf st) then
       (st\<lparr>buf := tl (dropWhile (\<lambda>c. c \<noteq> CHR 0x0A) (buf st))\<rparr>, takeWhile (\<lambda>c. c \<noteq> CHR 0x0A) (buf st))
     else (\<lparr>buf = [], bad = True\<rparr>, buf st))"

record response =
  http_version :: string
  status_code :: string
  content :: istream
  header :: multimap

text \<open>One header line; the last character, the carriage return, is not part of the value.\<close>

definition header_entry :: "string \<Rightarrow> multimap" where
  "header_entry line =
    (let param_end = str_find line (CHR '':''); value_start = param_end + 1
     in if value_start < length line then
          let value_start = (if line ! value_start = CHR '' '' then value_start + 1 else value_start)
          in if value_start < length line
             then [(take param_end line, take (length line - value_start - 1) (drop value_start line))]
             else []
        else [])"

text \<open>The loop over the header lines; \<open>None\<close> when it does not end.\<close>

definition header_lines :: "istream \<Rightarrow> string \<Rightarrow> multimap \<Rightarrow> (istream \<times> multimap) option" where
  "header_lines st line h = map_option (\<lambda>(st, line, h). (st, h))
     (while_option (\<lambda>(st, line, h). str_find line (CHR '':'') \<noteq> npos)
        (\<lambda>(st, line, h). case getline st line of (st', line') \<Rightarrow> (st', line', h @ header_entry line))
        (st, line, h))"

definition parse_response_header :: "istream \<Rightarrow> response option" where
  "parse_response_header st =
    (case getline st [] of (st, line) \<Rightarrow>
     let version_end = str_find line (CHR '' '')
     in if version_end = npos then
          Some \<lparr>http_version = [], status_code = [], content = st, header = []\<rparr>
        else
          let version = (if 5 < length line then take (sz (int version_end - 5)) (drop 5 line) else []);
              status = (if version_end + 1 < length line
                then take (length line - (version_end + 1) - 1) (drop (version_end + 1) line) else [])
          in case getline st line of (st, line) \<Rightarrow>
             map_option (\<lambda>(st, h).
                 \<lparr>http_version = version, status_code = status, content = st, header = h\<rparr>)
               (header_lines st line []))"

section \<open>One request\<close>

text \<open>
  A session works on its connection and the outside. It ends with the callback, which marks the
  connection unused and then throws the error, if there is one. An exception inside a handler
  leaves \<open>run\<close> without the callback.
\<close>

type_synonym ('db, 'a) session = "(connection \<times> 'db, 'a) prog"

definition on_net :: "(connection \<Rightarrow> 'db \<Rightarrow> 'a \<times> 'db) \<Rightarrow> ('db, 'a) session" where
  "on_net f = (\<lambda>(c, d). case f c d of (a, d) \<Rightarrow> (Ret a, (c, d)))"

definition set_conn :: "(connection \<Rightarrow> connection) \<Rightarrow> ('db, unit) session" where
  "set_conn f = modify (\<lambda>(c, d). (f c, d))"

definition sws_close :: "'db asio \<Rightarrow> ('db, unit) session" where
  "sws_close A = bnd (set_conn (\<lambda>c. c\<lparr>is_open := False\<rparr>)) (\<lambda>_. on_net (\<lambda>c d. ((), a_close A (c_sock c) d)))"

definition callback :: "string option \<Rightarrow> 'a \<Rightarrow> ('db, 'a) session" where
  "callback ec a = bnd (set_conn (\<lambda>c. c\<lparr>in_use := False\<rparr>)) (\<lambda>_.
     case ec of None \<Rightarrow> ret a | Some e \<Rightarrow> throw e)"

definition fail :: "'db asio \<Rightarrow> string \<Rightarrow> ('db, 'a) session" where
  "fail A e = bnd (sws_close A) (\<lambda>_. callback (Some e) undefined)"

text \<open>Reading chunks: \<open>n\<close> bounds their number, \<open>tmp\<close> is the text of the chunks so far.\<close>

definition istream_read :: "nat \<Rightarrow> istream \<Rightarrow> string \<times> istream" where
  "istream_read n st = (if bad st then ([], st)
     else (take n (buf st), \<lparr>buf = drop n (buf st), bad = length (buf st) < n\<rparr>))"

definition istream_get :: "istream \<Rightarrow> istream" where
  "istream_get st = snd (istream_read 1 st)"

definition chunk_bytes :: "nat \<Rightarrow> istream \<Rightarrow> string \<times> istream" where
  "chunk_bytes n st = (case istream_read n st of (s, st) \<Rightarrow> (s @ replicate (n - length s) (CHR 0x00), st))"

primrec read_chunked :: "nat \<Rightarrow> 'db asio \<Rightarrow> istream \<Rightarrow> string \<Rightarrow> ('db, string) session" where
  "read_chunked 0 A st tmp = block"
| "read_chunked (Suc n) A st tmp =
     bnd (on_net (\<lambda>c. a_read_until A (get_timeout_timer c 0) (c_sock c) crlf (buf st))) (\<lambda>(ec, b).
     case ec of
       Some e \<Rightarrow> fail A e
     | None \<Rightarrow>
       (case getline (st\<lparr>buf := b\<rparr>) [] of (st, line) \<Rightarrow>
        let bytes_transferred = upto_delim crlf b - (length line + 1) in
        if line = [] then undef
        else bnd (lift (stol 16 (butlast line))) (\<lambda>len.
          let num_additional_bytes = int (length (buf st)) - int bytes_transferred;
              post_process = (\<lambda>st. case (if 0 < len then chunk_bytes (nat len) st else ([], st)) of (s, st) \<Rightarrow>
                let st = istream_get (istream_get st); tmp = tmp @ s
                in if 0 < len then read_chunked n A st tmp
                   else callback None (buf st @ tmp))
          in if num_additional_bytes < 2 + len then
               bnd (on_net (\<lambda>c. a_read_exactly A (get_timeout_timer c 0) (c_sock c)
                      (nat (2 + len - num_additional_bytes)) (buf st))) (\<lambda>(ec, b).
               case ec of None \<Rightarrow> post_process (st\<lparr>buf := b\<rparr>) | Some e \<Rightarrow> fail A e)
             else post_process st)))"

text \<open>The body, after the header; \<open>extra\<close> bytes behind the header are in the buffer already.\<close>

definition read_body :: "'db asio \<Rightarrow> nat \<Rightarrow> response \<Rightarrow> ('db, string) session" where
  "read_body A extra r =
    (let st = content r in
     case header_find (a_pick A) ''Content-Length'' (header r) of
       Some v \<Rightarrow> bnd (lift (stoul 10 v)) (\<lambda>content_length.
         if extra < unat content_length then
           bnd (on_net (\<lambda>c. a_read_exactly A (get_timeout_timer c 0) (c_sock c)
                  (unat content_length - extra) (buf st))) (\<lambda>(ec, b).
           case ec of None \<Rightarrow> callback None b | Some e \<Rightarrow> fail A e)
         else callback None (buf st))
     | None \<Rightarrow>
       if header_find (a_pick A) ''Transfer-Encoding'' (header r) = Some ''chunked'' then
         read_chunked (a_chunks A) A st []
       else if http_version r < ''1.1'' \<or> header_find (a_pick A) ''Session'' (header r) = Some ''close'' then
         bnd (on_net (\<lambda>c. a_read_all A (get_timeout_timer c 0) (c_sock c) (buf st))) (\<lambda>(ec, b).
         case ec of None \<Rightarrow> callback None b
         | Some e \<Rightarrow> if e = ''eof'' then bnd (sws_close A) (\<lambda>_. callback None b) else fail A e)
       else callback None (buf st))"

text \<open>
  \<open>read\<close> fills the buffer up to the end of the header; \<open>again\<close> connects the session anew, which it
  does once, when the connection is not already being reconnected.
\<close>

definition sws_read :: "'db asio \<Rightarrow> (string \<Rightarrow> ('db, string) session) \<Rightarrow> string \<Rightarrow> ('db, string) session" where
  "sws_read A again buffer =
     bnd (on_net (\<lambda>c. a_read_until A (get_timeout_timer c 0) (c_sock c) (crlf @ crlf) buffer)) (\<lambda>(ec, b).
     case ec of
       None \<Rightarrow> bnd (set_conn (\<lambda>c. c\<lparr>reconnecting := False\<rparr>)) (\<lambda>_.
         case parse_response_header \<lparr>buf = b, bad = False\<rparr> of
           None \<Rightarrow> block
         | Some r \<Rightarrow> read_body A (length b - upto_delim (crlf @ crlf) b) r)
     | Some e \<Rightarrow> bnd (gets (\<lambda>(c, d). reconnecting c)) (\<lambda>re.
         if \<not> re then
           bnd (set_conn (\<lambda>c. c\<lparr>reconnecting := True\<rparr>)) (\<lambda>_.
           bnd (sws_close A) (\<lambda>_. again b))
         else fail A e))"

definition sws_write :: "'db asio \<Rightarrow> string \<Rightarrow> (string \<Rightarrow> ('db, string) session) \<Rightarrow> string \<Rightarrow> ('db, string) session" where
  "sws_write A request_buffer again buffer =
     bnd (on_net (\<lambda>c. a_write A (get_timeout_timer c 0) (c_sock c) request_buffer)) (\<lambda>ec.
     case ec of None \<Rightarrow> sws_read A again buffer | Some e \<Rightarrow> fail A e)"

definition handshake :: "'db asio \<Rightarrow> ('db, string) session \<Rightarrow> ('db, string) session" where
  "handshake A k =
     bnd (on_net (\<lambda>c. a_handshake A (get_timeout_timer c (timeout_connect (c_config c))) (c_sock c))) (\<lambda>ec.
     case ec of None \<Rightarrow> k | Some e \<Rightarrow> fail A e)"

text \<open>With a proxy, \<open>Client<HTTPS>\<close> first asks it for a tunnel; a status other than 200 is refused.\<close>

definition proxy_tunnel :: "'db asio \<Rightarrow> ('db, string) session \<Rightarrow> ('db, string) session" where
  "proxy_tunnel A k =
     bnd (on_net (\<lambda>c. let hp = c_host c @ '':'' @ dec (unat (c_port c)) in
            a_write A (get_timeout_timer c (timeout_connect (c_config c))) (c_sock c)
              (''CONNECT '' @ hp @ '' HTTP/1.1'' @ crlf @ ''Host: '' @ hp @ crlf @ crlf))) (\<lambda>ec.
     case ec of
       Some e \<Rightarrow> fail A e
     | None \<Rightarrow>
       bnd (on_net (\<lambda>c. a_read_until A (get_timeout_timer c (timeout_connect (c_config c))) (c_sock c)
              (crlf @ crlf) [])) (\<lambda>(ec, b).
       case ec of
         Some e \<Rightarrow> fail A e
       | None \<Rightarrow>
         (case parse_response_header \<lparr>buf = b, bad = False\<rparr> of
            None \<Rightarrow> block
          | Some r \<Rightarrow> if status_code r = [] \<or> take 3 (status_code r) \<noteq> ''200''
              then fail A ''Permission denied'' else handshake A k)))"

text \<open>With the socket connected, \<open>Client<HTTPS>\<close> goes through the handshake before it writes.\<close>

definition after_connect :: "'db asio \<Rightarrow> bool \<Rightarrow> ('db, string) session \<Rightarrow> ('db, string) session" where
  "after_connect A tls write =
     bnd (set_conn (\<lambda>c. c\<lparr>is_open := True\<rparr>)) (\<lambda>_.
     if \<not> tls then write
     else bnd (gets (\<lambda>(c, d). proxy_server (c_config c))) (\<lambda>proxy.
       if proxy \<noteq> [] then proxy_tunnel A write else handshake A write))"

text \<open>
  \<open>connect\<close> of both clients (the one for HTTPS resolves without a timer). The number of times it is
  entered for one session is at most two; the counter makes the recursion through \<open>read\<close> end.
\<close>

primrec connect :: "nat \<Rightarrow> 'db asio \<Rightarrow> bool \<Rightarrow> string \<Rightarrow> string \<Rightarrow> ('db, string) session" where
  "connect 0 A tls request_buffer buffer = block"
| "connect (Suc n) A tls request_buffer buffer =
    (let write = sws_write A request_buffer (connect n A tls request_buffer) buffer in
     bnd (gets (\<lambda>(c, d). is_open c)) (\<lambda>open.
     if open then write
     else
       bnd (on_net (\<lambda>c. a_resolve A (if tls then None else get_timeout_timer c (timeout_connect (c_config c)))
              (c_query c))) (\<lambda>ec.
       case ec of
         Some e \<Rightarrow> fail A e
       | None \<Rightarrow>
         bnd (on_net (\<lambda>c. a_connect A (get_timeout_timer c (timeout_connect (c_config c))) (c_sock c))) (\<lambda>ec.
         case ec of
           Some e \<Rightarrow> fail A e
         | None \<Rightarrow> after_connect A tls write))))"

text \<open>\<open>request\<close>: the text the response stream then holds.\<close>

definition sws_request :: "'db asio \<Rightarrow> string \<Rightarrow> string \<Rightarrow> string \<Rightarrow> multimap \<Rightarrow> (client \<times> 'db, string) prog" where
  "sws_request A method path body hdr =
     bnd (get_connection A) (\<lambda>i (cl, d).
       case connect 2 A (cl_tls cl \<noteq> None) (request_text cl method path body hdr) []
              (connections cl ! i, d) of
         (r, (c, d)) \<Rightarrow> (r, (cl\<lparr>connections := (connections cl)[i := c]\<rparr>, d)))"

end
