(* ===== verification/SwsStream.thy ===== *)
theory SwsStream
  imports SwsClient
begin

text \<open>
  Reading a response from a stream of bytes: well-formed header texts and what parsing them gives,
  delimiters, chunked bodies, and the contract \<open>asio_stream\<close> of reading operations under which
  every way of delimiting a body delivers exactly the body. An implementation of the operations
  over pipes keeps the contract.
\<close>

section \<open>Lemmas on response texts\<close>

definition no_lf :: "string \<Rightarrow> bool" where
  "no_lf s \<longleftrightarrow> CHR 0x0A \<notin> set s"

lemma no_lf_simps [simp]:
  "no_lf []" "no_lf (c # s) \<longleftrightarrow> c \<noteq> CHR 0x0A \<and> no_lf s" "no_lf (s @ t) \<longleftrightarrow> no_lf s \<and> no_lf t"
  by (auto simp: no_lf_def)

lemma getline_line:
  "no_lf l \<Longrightarrow> getline \<lparr>buf = l @ CHR 0x0A # rest, bad = False\<rparr> x = (\<lparr>buf = rest, bad = False\<rparr>, l)"
proof -
  assume l: "no_lf l"
  have "takeWhile (\<lambda>c. c \<noteq> CHR 0x0A) (l @ CHR 0x0A # rest) = l"
    using l by (subst takeWhile_append2) (auto simp: no_lf_def)
  moreover have "dropWhile (\<lambda>c. c \<noteq> CHR 0x0A) (l @ CHR 0x0A # rest) = CHR 0x0A # rest"
    using l by (subst dropWhile_append2) (auto simp: no_lf_def)
  ultimately show ?thesis by (simp add: getline_def)
qed

lemma getline_crlf:
  "no_lf l \<Longrightarrow> getline \<lparr>buf = l @ crlf @ rest, bad = False\<rparr> x = (\<lparr>buf = rest, bad = False\<rparr>, l @ [CHR 0x0D])"
  using getline_line [of "l @ [CHR 0x0D]" rest x] by (simp add: crlf_def)

lemma str_find_npos: "length s < npos \<Longrightarrow> str_find s c \<noteq> npos \<longleftrightarrow> c \<in> set s"
proof -
  assume s: "length s < npos"
  show ?thesis
  proof (cases "c \<in> set s")
    case True
    then obtain xs ys where "s = xs @ c # ys" "c \<notin> set xs" by (meson split_list_first)
    with s True show ?thesis by (simp add: str_find_stop)
  qed (simp add: str_find_none)
qed

text \<open>A line of a header, and a header text: lines that end in a carriage return and a line feed.\<close>

definition header_line :: "string \<times> string \<Rightarrow> string" where
  "header_line = (\<lambda>(k, v). k @ '': '' @ v)"

definition lines_text :: "string list \<Rightarrow> string" where
  "lines_text ls = concat (map (\<lambda>l. l @ crlf) ls)"

definition good_header :: "string \<times> string \<Rightarrow> bool" where
  "good_header = (\<lambda>(k, v). no_lf k \<and> no_lf v \<and> CHR '':'' \<notin> set k \<and> length k + length v + 3 < npos)"

lemma good_header_line: "good_header h \<Longrightarrow> no_lf (header_line h)"
  by (auto simp: good_header_def header_line_def)

lemma header_entry_line:
  assumes "good_header h"
  shows "header_entry (header_line h @ [CHR 0x0D]) = [h]"
    "str_find (header_line h @ [CHR 0x0D]) (CHR '':'') \<noteq> npos"
proof -
  obtain k v where h: "h = (k, v)" by (cases h)
  then have k: "CHR '':'' \<notin> set k" "length k + length v + 3 < npos"
    using assms by (auto simp: good_header_def)
  have line: "header_line h @ [CHR 0x0D] = k @ CHR '':'' # '' '' @ v @ [CHR 0x0D]"
    by (simp add: h header_line_def)
  have pos: "str_find (header_line h @ [CHR 0x0D]) (CHR '':'') = length k"
    unfolding line by (rule str_find_stop [OF k(1)])
  then show "str_find (header_line h @ [CHR 0x0D]) (CHR '':'') \<noteq> npos" using k by simp
  show "header_entry (header_line h @ [CHR 0x0D]) = [h]"
    unfolding header_entry_def pos by (simp add: h header_line_def Let_def nth_append)
qed

lemma header_lines_step:
  "header_lines st line h = (if str_find line (CHR '':'') \<noteq> npos
     then header_lines (fst (getline st line)) (snd (getline st line)) (h @ header_entry line)
     else Some (st, h))"
  unfolding header_lines_def by (subst while_option_unfold) (simp add: case_prod_unfold)

text \<open>The loop stops at the first line without a colon, the empty line of a well-formed header.\<close>

lemma header_lines_stop: "CHR '':'' \<notin> set l \<Longrightarrow> header_lines st (l @ [CHR 0x0D]) m = Some (st, m)"
proof -
  assume "CHR '':'' \<notin> set l"
  then have "str_find (l @ [CHR 0x0D]) (CHR '':'') = npos" by (intro str_find_none) simp
  then show ?thesis by (subst header_lines_step) simp
qed

lemma header_lines_text:
  "good_header h \<Longrightarrow> list_all good_header hs \<Longrightarrow> no_lf l \<Longrightarrow> CHR '':'' \<notin> set l \<Longrightarrow>
     header_lines \<lparr>buf = lines_text (map header_line hs) @ l @ crlf @ rest, bad = False\<rparr>
       (header_line h @ [CHR 0x0D]) m
     = Some (\<lparr>buf = rest, bad = False\<rparr>, m @ h # hs)"
proof (induction hs arbitrary: h m)
  case Nil
  then show ?case
    using getline_crlf [of l rest] header_lines_stop [of l]
    by (subst header_lines_step) (simp add: header_entry_line lines_text_def)
next
  case (Cons h' hs)
  then have h': "good_header h'" by simp
  have "header_lines \<lparr>buf = lines_text (map header_line (h' # hs)) @ l @ crlf @ rest, bad = False\<rparr>
      (header_line h @ [CHR 0x0D]) m
    = header_lines \<lparr>buf = lines_text (map header_line hs) @ l @ crlf @ rest, bad = False\<rparr>
        (header_line h' @ [CHR 0x0D]) (m @ [h])"
    using getline_crlf [OF good_header_line [OF h'], of "lines_text (map header_line hs) @ l @ crlf @ rest"]
      header_entry_line [OF Cons.prems(1)]
    by (subst header_lines_step) (simp add: lines_text_def)
  with Cons h' show ?case by simp
qed

definition status_line :: "string \<Rightarrow> string \<Rightarrow> string" where
  "status_line version status = ''HTTP/'' @ version @ '' '' @ status"

definition head_text :: "string \<Rightarrow> string \<Rightarrow> multimap \<Rightarrow> string" where
  "head_text version status hs = lines_text (status_line version status # map header_line hs) @ crlf"

definition good_head :: "string \<Rightarrow> string \<Rightarrow> multimap \<Rightarrow> bool" where
  "good_head version status hs \<longleftrightarrow> no_lf version \<and> no_lf status \<and> CHR '' '' \<notin> set version
     \<and> length version + 5 < npos \<and> list_all good_header hs"

lemma parse_head_stop:
  assumes "good_head version status hs" and l: "no_lf l" "CHR '':'' \<notin> set l"
  shows "parse_response_header \<lparr>buf = lines_text (status_line version status # map header_line hs) @ l @ crlf @ rest, bad = False\<rparr>
    = Some \<lparr>http_version = version, status_code = status, content = \<lparr>buf = rest, bad = False\<rparr>, header = hs\<rparr>"
proof -
  have g: "no_lf (status_line version status)" "CHR '' '' \<notin> set version" "length version + 5 < npos"
    "list_all good_header hs"
    using assms by (auto simp: good_head_def status_line_def)
  let ?tail = "lines_text (map header_line hs) @ l @ crlf @ rest"
  define L where "L = status_line version status @ [CHR 0x0D]"
  have first: "getline \<lparr>buf = lines_text (status_line version status # map header_line hs) @ l @ crlf @ rest, bad = False\<rparr> []
      = (\<lparr>buf = ?tail, bad = False\<rparr>, L)"
    using getline_crlf [OF g(1), of ?tail "[]"] by (simp add: lines_text_def L_def)
  have line: "L = (''HTTP/'' @ version) @ CHR '' '' # status @ [CHR 0x0D]"
    by (simp add: L_def status_line_def)
  have pos: "str_find L (CHR '' '') = length version + 5"
    unfolding line using g(2) by (subst str_find_stop) simp_all
  have ver: "sz (int (length version + 5) - 5) = length version"
    using g(3) by (simp add: sz_small npos_def)
  have lines: "(case getline \<lparr>buf = ?tail, bad = False\<rparr> x of (st, line) \<Rightarrow> header_lines st line [])
      = Some (\<lparr>buf = rest, bad = False\<rparr>, hs)" for x
  proof (cases hs)
    case Nil
    then show ?thesis
      using getline_crlf [OF l(1), of rest x] header_lines_stop [OF l(2)] by (simp add: lines_text_def)
  next
    case (Cons h hs')
    then have h: "good_header h" "list_all good_header hs'" using g(4) by simp_all
    show ?thesis
      using getline_crlf [OF good_header_line [OF h(1)], of "lines_text (map header_line hs') @ l @ crlf @ rest" x]
        header_lines_text [OF h l, of rest "[]"] Cons by (simp add: lines_text_def)
  qed
  obtain st ln where sl: "getline \<lparr>buf = ?tail, bad = False\<rparr> L = (st, ln)"
    by (metis prod.exhaust)
  have tail: "header_lines st ln [] = Some (\<lparr>buf = rest, bad = False\<rparr>, hs)"
    using lines [of L] sl by simp
  have parts: "length L = length version + length status + 7"
    "take (length version) (drop 5 L) = version"
    "take (length status) (drop (length version + 6) L) = status"
    by (simp_all add: L_def status_line_def numeral_eq_Suc)
  have "length version + 5 \<noteq> npos" using g(3) by simp
  then show ?thesis
    unfolding parse_response_header_def first prod.case Let_def pos ver sl tail
    using parts by (simp add: add.commute)
qed

lemma parse_head_text:
  assumes "good_head version status hs"
  shows "parse_response_header \<lparr>buf = head_text version status hs @ rest, bad = False\<rparr>
    = Some \<lparr>http_version = version, status_code = status, content = \<lparr>buf = rest, bad = False\<rparr>, header = hs\<rparr>"
  using parse_head_stop [OF assms, of "[]" rest] by (simp add: head_text_def)

subsection \<open>Delimiters\<close>

lemma length_crlf [simp]: "length crlf = 2"
  by (simp add: crlf_def)

lemma upto_delim_skip: "take 4 (c # s) \<noteq> crlf @ crlf \<Longrightarrow>
    upto_delim (crlf @ crlf) (c # s) = Suc (upto_delim (crlf @ crlf) s)"
  by simp

lemma upto_delim_lf:
  "no_lf l \<Longrightarrow> take 2 rest \<noteq> crlf \<Longrightarrow>
     upto_delim (crlf @ crlf) (l @ crlf @ rest) = length l + 2 + upto_delim (crlf @ crlf) rest"
proof (induction l)
  case Nil
  then show ?case by (cases rest; cases "tl rest") (auto simp: crlf_def numeral_eq_Suc)
next
  case (Cons c l)
  have "take 4 (c # l @ crlf @ rest) \<noteq> crlf @ crlf"
    using Cons.prems by (cases l) (auto simp: crlf_def numeral_eq_Suc)
  with Cons show ?case by (simp add: upto_delim_skip)
qed

lemma upto_delim_end: "no_lf l \<Longrightarrow> upto_delim (crlf @ crlf) (l @ crlf @ crlf @ rest) = length l + 4"
proof (induction l)
  case (Cons c l)
  have "take 4 (c # l @ crlf @ crlf @ rest) \<noteq> crlf @ crlf"
    using Cons.prems by (cases l) (auto simp: crlf_def numeral_eq_Suc)
  with Cons show ?case by (simp add: upto_delim_skip)
qed (simp add: crlf_def)

lemma upto_delim_lines:
  "ls \<noteq> [] \<Longrightarrow> list_all (\<lambda>l. no_lf l \<and> l \<noteq> []) ls \<Longrightarrow>
     upto_delim (crlf @ crlf) (lines_text ls @ crlf @ rest) = length (lines_text ls) + 2"
proof (induction ls)
  case (Cons l ls)
  show ?case
  proof (cases ls)
    case Nil
    with Cons.prems show ?thesis using upto_delim_end [of l rest] by (simp add: lines_text_def)
  next
    case (Cons l' ls')
    have "take 2 (lines_text ls @ crlf @ rest) \<noteq> crlf"
      using Cons.prems Cons by (cases l'; cases "tl l'") (auto simp: lines_text_def crlf_def numeral_eq_Suc)
    then show ?thesis
      using Cons.prems Cons.IH Cons upto_delim_lf [of l "lines_text ls @ crlf @ rest"]
      by (simp add: lines_text_def)
  qed
qed simp

section \<open>A connection as a stream of bytes\<close>

text \<open>
  What reading relies on, without a time limit: \<open>incoming s d\<close> are the bytes the peer still sends on
  socket \<open>s\<close>. Reading moves bytes from there to the end of the buffer; \<open>read_until\<close> succeeds with
  the delimiter in the buffer, however much it reads behind it; \<open>read_exactly\<close> reads the number
  asked for; reading all of it ends at the end of the stream.
\<close>

definition has_delim :: "string \<Rightarrow> string \<Rightarrow> bool" where
  "has_delim dl s \<longleftrightarrow> (\<exists>xs ys. s = xs @ dl @ ys)"

locale asio_stream =
  fixes A :: "'db asio" and incoming :: "nat \<Rightarrow> 'db \<Rightarrow> string"
  assumes read_until: "has_delim dl (b @ incoming s d) \<Longrightarrow>
      \<exists>k d'. a_read_until A None s dl b d = ((None, b @ take k (incoming s d)), d')
        \<and> incoming s d' = drop k (incoming s d) \<and> has_delim dl (b @ take k (incoming s d))"
    and read_exactly: "n \<le> length (incoming s d) \<Longrightarrow>
      \<exists>d'. a_read_exactly A None s n b d = ((None, b @ take n (incoming s d)), d')
        \<and> incoming s d' = drop n (incoming s d)"
    and read_all: "\<exists>d'. a_read_all A None s b d = ((Some ''eof'', b @ incoming s d), d') \<and> incoming s d' = []"
    and close: "incoming s' (a_close A s d) = (if s' = s then [] else incoming s' d)"
    and pick: "a_pick A [v] = v"

lemma header_find_simps:
  "header_find pick k [] = None"
  "\<not> case_insensitive_equal k k' \<Longrightarrow> header_find pick k ((k', v) # m) = header_find pick k m"
  by (simp_all add: header_find_def)

lemma header_find_unique:
  assumes "filter (\<lambda>(k', v). case_insensitive_equal k k') m = [(k', v)]"
  shows "header_find pick k m = Some (pick [v])"
  using assms by (simp add: header_find_def)

lemma take_prefix: "n \<le> length s \<Longrightarrow> take n (s @ x) = take n s"
  by simp

lemma upto_delim_has: "has_delim dl b \<Longrightarrow> upto_delim dl (b @ x) = upto_delim dl b"
proof (induction b)
  case Nil
  then show ?case by (cases x) (auto simp: has_delim_def)
next
  case (Cons c b)
  show ?case
  proof (cases "take (length dl) (c # b) = dl")
    case True
    then have "length dl \<le> length (c # b)" using True by (metis length_take min.cobounded1)
    from take_prefix [OF this, of x] True show ?thesis by simp
  next
    case False
    from Cons.prems obtain xs ys where eq: "c # b = xs @ dl @ ys" unfolding has_delim_def by blast
    with False obtain xs' where "xs = c # xs'" by (cases xs) auto
    with eq have has: "has_delim dl b" unfolding has_delim_def by auto
    then have "length dl \<le> length (c # b)" by (auto simp: has_delim_def)
    from take_prefix [OF this, of x] False Cons.IH [OF has] show ?thesis by simp
  qed
qed

text \<open>Hexadecimal text, as a server writes the length of a chunk.\<close>

fun hex :: "nat \<Rightarrow> string" where
  "hex n = (if n < 16 then [hex_digit n] else hex (n div 16) @ [hex_digit (n mod 16)])"

declare hex.simps [simp del]

lemma digits_from_snoc:
  "list_all (\<lambda>c. digit_of b c \<noteq> None) s \<Longrightarrow> digit_of b c = Some v \<Longrightarrow>
     digits_from b acc (s @ [c]) = b * digits_from b acc s + v"
  by (induction s arbitrary: acc) auto

lemma hex_props: "set (hex n) \<subseteq> hex_digit ` {..<16} \<and> hex n \<noteq> []"
proof (induction n rule: hex.induct)
  case (1 n)
  then show ?case by (subst (1 2) hex.simps) simp
qed

lemma hex_digits: "list_all (\<lambda>c. digit_of 16 c \<noteq> None) (hex n)"
  using hex_props [of n] by (fastforce simp: list_all_iff hex_digit_props)

lemma digits_from_hex: "digits_from 16 0 (hex n) = n"
proof (induction n rule: hex.induct)
  case (1 n)
  show ?case
  proof (cases "n < 16")
    case True
    then show ?thesis by (subst hex.simps) (simp add: hex_digit_props)
  next
    case False
    then have "digits_from 16 0 (hex n) = 16 * digits_from 16 0 (hex (n div 16)) + n mod 16"
      by (subst hex.simps) (simp add: digits_from_snoc [OF hex_digits] hex_digit_props)
    with 1 False show ?thesis by simp
  qed
qed

lemma hex_digit_lower: "n < 16 \<Longrightarrow> tolower (hex_digit n) \<noteq> CHR ''x''"
proof -
  assume n: "n < 16"
  then have code: "(of_char (hex_digit n) :: nat) = (if n < 10 then 48 + n else 55 + n)"
    by (simp add: hex_digit_def)
  have "(of_char (tolower (hex_digit n)) :: nat) \<noteq> of_char (CHR ''x'')"
    using n code by (auto simp: tolower_def Let_def)
  then show ?thesis by metis
qed

lemma stol_hex: "n < 2 ^ 63 \<Longrightarrow> stol 16 (hex n) = Ret (int n)"
proof -
  assume n: "n < 2 ^ 63"
  obtain c cs where h: "hex n = c # cs" using hex_props [of n] by (cases "hex n") auto
  have all: "set (c # cs) \<subseteq> hex_digit ` {..<16}" using hex_props [of n] h by simp
  then obtain k where k: "k < 16" "c = hex_digit k" by auto
  have sign: "signed_part (dropWhile is_space (hex n)) = (False, hex n)"
    using k h by (simp add: signed_part_def hex_digit_props)
  have skip: "skip_0x (hex n) = hex n"
    using all by (cases cs; cases "tl cs") (auto simp: skip_0x_def h hex_digit_lower)
  have "strto 16 (hex n) = Some (int n)"
    using digits_from_hex [of n] k
    by (simp add: strto_def sign skip) (simp add: h hex_digit_props)
  with n show ?thesis by (simp add: stol_def)
qed

lemma hex_no_lf: "no_lf (hex n)"
proof -
  have "hex_digit k \<noteq> CHR 0x0A" if "k < 16" for k
    using hex_digit_props(1) [OF that] by (auto simp: digit_of_def)
  then show ?thesis using hex_props [of n] by (fastforce simp: no_lf_def)
qed

text \<open>A body in chunks, and in which state a session ends.\<close>

fun chunks_text :: "string list \<Rightarrow> string" where
  "chunks_text [] = ''0'' @ crlf @ crlf"
| "chunks_text (x # xs) = hex (length x) @ crlf @ x @ crlf @ chunks_text xs"

lemma upto_crlf: "no_lf l \<Longrightarrow> upto_delim crlf (l @ crlf @ rest) = length l + 2"
proof (induction l)
  case (Cons c l)
  then have "take 2 (c # l @ crlf @ rest) \<noteq> crlf" by (cases l) (auto simp: crlf_def numeral_eq_Suc)
  with Cons show ?case by simp
qed (simp add: crlf_def)

subsection \<open>Running a session\<close>

lemma bnd_on_net [simp]:
  "bnd (on_net f) g (c, d) = (case f c d of (a, d') \<Rightarrow> g a (c, d'))"
  by (simp add: bnd_def on_net_def split: prod.split)

lemma bnd_set_conn [simp]: "bnd (set_conn f) g (c, d) = g () (f c, d)"
  by (simp add: bnd_def set_conn_def modify_def)

lemma callback_run [simp]:
  "callback None a (c, d) = (Ret a, (c\<lparr>in_use := False\<rparr>, d))"
  "callback (Some e) a (c, d) = (Throw e, (c\<lparr>in_use := False\<rparr>, d))"
  by (simp_all add: callback_def run_simps)

lemma sws_close_run: "sws_close A (c, d) = (Ret (), (c\<lparr>is_open := False\<rparr>, a_close A (c_sock c) d))"
  by (simp add: sws_close_def) (simp add: on_net_def)

lemma bnd_sws_close [simp]:
  "bnd (sws_close A) g (c, d) = g () (c\<lparr>is_open := False\<rparr>, a_close A (c_sock c) d)"
  by (simp add: bnd_def sws_close_run)

lemma fail_run [simp]:
  "fail A e (c, d) = (Throw e, (c\<lparr>is_open := False, in_use := False\<rparr>, a_close A (c_sock c) d))"
  by (simp add: fail_def bnd_def sws_close_run)

lemma upto_delim_le: "has_delim dl b \<Longrightarrow> upto_delim dl b \<le> length b"
proof (induction b)
  case (Cons c b)
  show ?case
  proof (cases "take (length dl) (c # b) = dl")
    case True
    then have "length dl \<le> length (c # b)" by (metis length_take min.cobounded1)
    with True show ?thesis by simp
  next
    case False
    from Cons.prems obtain xs ys where eq: "c # b = xs @ dl @ ys" unfolding has_delim_def by blast
    with False obtain xs' where "xs = c # xs'" by (cases xs) auto
    with eq have "has_delim dl b" unfolding has_delim_def by auto
    with Cons.IH False show ?thesis by simp
  qed
qed (simp add: has_delim_def)

lemma append_prefix: "a @ b = p @ q \<Longrightarrow> length p \<le> length a \<Longrightarrow> \<exists>z. a = p @ z \<and> z @ b = q"
  by (auto simp: append_eq_append_conv2)

text \<open>What \<open>read_until\<close> leaves of a stream that starts with a piece ending in the delimiter.\<close>

lemma split_at_delim:
  assumes "has_delim dl b" and "b @ r = p @ rest" and "upto_delim dl (p @ rest) = length p"
  shows "\<exists>y. b = p @ y \<and> y @ r = rest"
proof -
  have "length p \<le> length b"
    using upto_delim_le [OF assms(1)] upto_delim_has [OF assms(1), of r] assms(2,3) by simp
  with assms(2) show ?thesis by (rule append_prefix)
qed

lemma post_chunk:
  "chunk_bytes (length x) \<lparr>buf = x @ crlf @ z, bad = False\<rparr> = (x, \<lparr>buf = crlf @ z, bad = False\<rparr>)"
  "istream_get (istream_get \<lparr>buf = crlf @ z, bad = False\<rparr>) = \<lparr>buf = z, bad = False\<rparr>"
  by (simp_all add: chunk_bytes_def istream_read_def istream_get_def crlf_def)

context asio_stream
begin

lemma chunk_step:
  assumes t: "timeout (c_config c) = 0" and len: "length x < 2 ^ 63"
    and stream: "b0 @ incoming (c_sock c) d = hex (length x) @ crlf @ x @ crlf @ rest"
  shows "\<exists>z d'. z @ incoming (c_sock c) d' = rest
    \<and> read_chunked (Suc n) A \<lparr>buf = b0, bad = False\<rparr> tmp (c, d)
      = (if x \<noteq> [] then read_chunked n A \<lparr>buf = z, bad = False\<rparr> (tmp @ x) (c, d')
         else callback None (z @ tmp) (c, d'))"
proof -
  let ?s = "c_sock c"
  have notime: "get_timeout_timer c 0 = None" using t by (simp add: get_timeout_timer_def)
  have "has_delim crlf (b0 @ incoming ?s d)" unfolding stream has_delim_def by blast
  then obtain k d1 where r1: "a_read_until A None ?s crlf b0 d = ((None, b0 @ take k (incoming ?s d)), d1)"
    and i1: "incoming ?s d1 = drop k (incoming ?s d)" and h1: "has_delim crlf (b0 @ take k (incoming ?s d))"
    using read_until by blast
  have upto: "upto_delim crlf ((hex (length x) @ crlf) @ x @ crlf @ rest) = length (hex (length x) @ crlf)"
    using upto_crlf [OF hex_no_lf] by simp
  have "(b0 @ take k (incoming ?s d)) @ incoming ?s d1 = (hex (length x) @ crlf) @ x @ crlf @ rest"
    using stream i1 by simp
  from split_at_delim [OF h1 this upto] obtain y where
    y: "b0 @ take k (incoming ?s d) = hex (length x) @ crlf @ y" "y @ incoming ?s d1 = x @ crlf @ rest"
    by auto
  have line: "getline \<lparr>buf = hex (length x) @ crlf @ y, bad = False\<rparr> [] = (\<lparr>buf = y, bad = False\<rparr>, hex (length x) @ [CHR 0x0D])"
    using getline_crlf [OF hex_no_lf] .
  have upto': "upto_delim crlf (hex (length x) @ crlf @ y) = length (hex (length x)) + 2"
    by (rule upto_crlf [OF hex_no_lf])
  show ?thesis
  proof (cases "length y < 2 + length x")
    case True
    let ?n = "2 + length x - length y"
    have eq: "y @ incoming ?s d1 = (x @ crlf) @ rest" using y(2) by simp
    have n: "?n \<le> length (incoming ?s d1)" using arg_cong [OF eq, of length] by simp
    then obtain d2 where r2: "a_read_exactly A None ?s ?n y d1 = ((None, y @ take ?n (incoming ?s d1)), d2)"
      and i2: "incoming ?s d2 = drop ?n (incoming ?s d1)"
      using read_exactly by blast
    have b2: "y @ take ?n (incoming ?s d1) = x @ crlf"
    proof -
      have "take (length x + 2) (y @ incoming ?s d1) = x @ crlf" unfolding eq by simp
      with True show ?thesis by (simp add: add.commute)
    qed
    have rest: "incoming ?s d2 = rest"
    proof -
      have "drop (length x + 2) (y @ incoming ?s d1) = rest" unfolding eq by simp
      with True i2 show ?thesis by (simp add: add.commute)
    qed
    have nat: "nat (2 + int (length x) - int (length y)) = ?n" by simp
    show ?thesis
      using True r1 r2 [unfolded b2] line upto' notime rest post_chunk(1) [of x "[]"] post_chunk(2) [of "[]"] stol_hex [OF len]
      by (intro exI [of _ "[]"] exI [of _ d2]) (simp add: y(1) nat Let_def)
  next
    case False
    then obtain z where z: "y = x @ crlf @ z" "z @ incoming ?s d1 = rest"
      using append_prefix [of y "incoming ?s d1" "x @ crlf" rest] y(2) by auto
    show ?thesis
      using False r1 line upto' notime post_chunk(1) [of x z] post_chunk(2) [of z] stol_hex [OF len] z
      by (intro exI [of _ z] exI [of _ d1]) (simp add: y(1) Let_def)
  qed
qed

lemma read_chunked_stream:
  "timeout (c_config c) = 0 \<Longrightarrow> b0 @ incoming (c_sock c) d = chunks_text xs \<Longrightarrow>
     list_all (\<lambda>x. x \<noteq> [] \<and> length x < 2 ^ 63) xs \<Longrightarrow> length xs < n \<Longrightarrow>
     \<exists>d'. read_chunked n A \<lparr>buf = b0, bad = False\<rparr> tmp (c, d)
       = (Ret (tmp @ concat xs), (c\<lparr>in_use := False\<rparr>, d')) \<and> incoming (c_sock c) d' = []"
proof (induction xs arbitrary: b0 d tmp n)
  case Nil
  then obtain m where n: "n = Suc m" by (cases n) auto
  have "hex 0 = ''0''" by (simp add: hex.simps hex_digit_def char_eval)
  then have "b0 @ incoming (c_sock c) d = hex (length ([] :: string)) @ crlf @ [] @ crlf @ []"
    using Nil.prems(2) by simp
  from chunk_step [OF Nil.prems(1) _ this, of m tmp] obtain z d' where
    "z @ incoming (c_sock c) d' = []"
    "read_chunked (Suc m) A \<lparr>buf = b0, bad = False\<rparr> tmp (c, d) = callback None (z @ tmp) (c, d')"
    by auto
  then show ?case by (simp add: n)
next
  case (Cons x xs)
  then obtain m where n: "n = Suc m" by (cases n) auto
  have x: "length x < 2 ^ 63" "x \<noteq> []" using Cons.prems(3) by simp_all
  have "b0 @ incoming (c_sock c) d = hex (length x) @ crlf @ x @ crlf @ chunks_text xs"
    using Cons.prems(2) by simp
  from chunk_step [OF Cons.prems(1) x(1) this, of m tmp] x(2) obtain z d' where
    z: "z @ incoming (c_sock c) d' = chunks_text xs"
    "read_chunked (Suc m) A \<lparr>buf = b0, bad = False\<rparr> tmp (c, d)
      = read_chunked m A \<lparr>buf = z, bad = False\<rparr> (tmp @ x) (c, d')"
    by auto
  from Cons.IH [OF Cons.prems(1) z(1), of m "tmp @ x"] Cons.prems(3,4) n z(2) show ?case by simp
qed

text \<open>Reading a response up to the end of its header.\<close>

lemma sws_read_head:
  assumes t: "timeout (c_config c) = 0" and good: "good_head version status hs"
    and stream: "incoming (c_sock c) d = head_text version status hs @ body"
  shows "\<exists>y d'. y @ incoming (c_sock c) d' = body
    \<and> (\<forall>again. sws_read A again [] (c, d) = read_body A (length y)
        \<lparr>http_version = version, status_code = status, content = \<lparr>buf = y, bad = False\<rparr>, header = hs\<rparr>
        (c\<lparr>reconnecting := False\<rparr>, d'))"
proof -
  let ?s = "c_sock c" and ?dl = "crlf @ crlf"
  have notime: "get_timeout_timer c 0 = None" using t by (simp add: get_timeout_timer_def)
  let ?ls = "status_line version status # map header_line hs"
  have ls: "list_all (\<lambda>l. no_lf l \<and> l \<noteq> []) ?ls"
    using good good_header_line
    by (auto simp: good_head_def status_line_def list_all_iff) (simp add: header_line_def split: prod.splits)
  have "head_text version status hs = concat (map (\<lambda>l. l @ crlf) (butlast ?ls)) @ last ?ls @ crlf @ crlf"
    unfolding head_text_def lines_text_def
    by (subst append_butlast_last_id [of ?ls, symmetric]) (simp, simp del: append_butlast_last_id)
  then have "has_delim ?dl ([] @ incoming ?s d)"
    unfolding stream has_delim_def by (metis append.assoc append_Nil)
  then obtain k d1 where r1: "a_read_until A None ?s ?dl [] d = ((None, [] @ take k (incoming ?s d)), d1)"
    and i1: "incoming ?s d1 = drop k (incoming ?s d)" and h1: "has_delim ?dl ([] @ take k (incoming ?s d))"
    using read_until by blast
  have upto: "upto_delim ?dl (head_text version status hs @ rest) = length (head_text version status hs)" for rest
    using upto_delim_lines [OF _ ls, of rest] by (simp add: head_text_def)
  have "([] @ take k (incoming ?s d)) @ incoming ?s d1 = head_text version status hs @ body"
    by (simp only: i1 append_Nil append_take_drop_id stream)
  from split_at_delim [OF h1 this upto] obtain y where
    y: "take k (incoming ?s d) = head_text version status hs @ y" "y @ incoming ?s d1 = body"
    by auto
  have "sws_read A again [] (c, d) = read_body A (length y)
        \<lparr>http_version = version, status_code = status, content = \<lparr>buf = y, bad = False\<rparr>, header = hs\<rparr>
        (c\<lparr>reconnecting := False\<rparr>, d1)" for again
    using r1 parse_head_text [OF good, of y] upto [of y]
    by (simp add: sws_read_def notime y(1))
  with y(2) show ?thesis by blast
qed

text \<open>The three ways a body is delimited, each read back exactly.\<close>

lemma read_body_length:
  assumes "timeout (c_config c) = 0" and "length body < 2 ^ 64"
    and "filter (\<lambda>(k, v). case_insensitive_equal ''Content-Length'' k) (header r) = [(k', dec (length body))]"
    and "content r = \<lparr>buf = y, bad = False\<rparr>" and stream: "y @ incoming (c_sock c) d = body"
  shows "\<exists>d'. read_body A (length y) r (c, d) = (Ret body, (c\<lparr>in_use := False\<rparr>, d'))"
proof -
  have notime: "get_timeout_timer c 0 = None" using assms(1) by (simp add: get_timeout_timer_def)
  have len: "stoul 10 (dec (length body)) = Ret (of_nat (length body))" "unat (of_nat (length body) :: u64) = length body"
    using assms(2) by (simp_all add: stoul_dec unsigned_of_nat take_bit_nat_eq_self)
  have find: "header_find (a_pick A) ''Content-Length'' (header r) = Some (dec (length body))"
    using header_find_unique [OF assms(3)] pick by simp
  show ?thesis
  proof (cases "length y < length body")
    case True
    have n: "length body - length y \<le> length (incoming (c_sock c) d)"
      using arg_cong [OF stream, of length] by simp
    from read_exactly [OF n] obtain d' where
      "a_read_exactly A None (c_sock c) (length body - length y) y d
        = ((None, y @ take (length body - length y) (incoming (c_sock c) d)), d')" by blast
    moreover have "take (length body - length y) (incoming (c_sock c) d) = incoming (c_sock c) d"
      using arg_cong [OF stream, of length] by simp
    ultimately show ?thesis
      using True find len assms(4) stream by (simp add: read_body_def notime Let_def)
  next
    case False
    moreover have "length y + length (incoming (c_sock c) d) = length body"
      using arg_cong [OF stream, of length] by simp
    ultimately have "incoming (c_sock c) d = []" by (cases "incoming (c_sock c) d") simp_all
    with stream have "y = body" by simp
    then show ?thesis using False find len assms(4) by (simp add: read_body_def Let_def)
  qed
qed

lemma read_body_chunked:
  assumes "timeout (c_config c) = 0" and "list_all (\<lambda>x. x \<noteq> [] \<and> length x < 2 ^ 63) xs"
    and "length xs < a_chunks A"
    and "header_find (a_pick A) ''Content-Length'' (header r) = None"
    and "filter (\<lambda>(k, v). case_insensitive_equal ''Transfer-Encoding'' k) (header r) = [(k', ''chunked'')]"
    and "content r = \<lparr>buf = y, bad = False\<rparr>" and "y @ incoming (c_sock c) d = chunks_text xs"
  shows "\<exists>d'. read_body A extra r (c, d) = (Ret (concat xs), (c\<lparr>in_use := False\<rparr>, d'))"
proof -
  have find: "header_find (a_pick A) ''Transfer-Encoding'' (header r) = Some ''chunked''"
    using header_find_unique [OF assms(5)] pick by simp
  from read_chunked_stream [OF assms(1,7,2,3), of "[]"] find assms(4,6) show ?thesis
    by (auto simp: read_body_def Let_def)
qed

lemma read_body_eof:
  assumes "timeout (c_config c) = 0" and "http_version r < ''1.1''"
    and "header_find (a_pick A) ''Content-Length'' (header r) = None"
    and "header_find (a_pick A) ''Transfer-Encoding'' (header r) = None"
    and "content r = \<lparr>buf = y, bad = False\<rparr>" and "y @ incoming (c_sock c) d = body"
  shows "\<exists>d'. read_body A extra r (c, d) = (Ret body, (c\<lparr>is_open := False, in_use := False\<rparr>, d'))"
proof -
  have notime: "get_timeout_timer c 0 = None" using assms(1) by (simp add: get_timeout_timer_def)
  obtain d' where "a_read_all A None (c_sock c) y d = ((Some ''eof'', y @ incoming (c_sock c) d), d')"
    using read_all by blast
  then show ?thesis
    using assms(2-6) notime by (simp add: read_body_def Let_def)
qed

end

section \<open>One implementation of the operations\<close>

text \<open>
  Every socket is a pipe with the bytes still to come; reading up to a delimiter reads \<open>seg\<close> bytes
  more than it has to.
\<close>

definition find_delim :: "string \<Rightarrow> string \<Rightarrow> bool" where
  "find_delim dl s \<longleftrightarrow> list_ex (\<lambda>i. take (length dl) (drop i s) = dl) [0..<Suc (length s)]"

definition pipe :: "nat \<Rightarrow> (nat \<Rightarrow> string) asio" where
  "pipe seg = \<lparr>a_context = (\<lambda>t d. (None, d)), a_socket = (\<lambda>t d. (0, d)),
     a_resolve = (\<lambda>t q d. (None, d)), a_connect = (\<lambda>t s d. (None, d)), a_handshake = (\<lambda>t s d. (None, d)),
     a_write = (\<lambda>t s b d. (None, d)),
     a_read_until = (\<lambda>t s dl b d. if find_delim dl (b @ d s)
        then let k = upto_delim dl (b @ d s) - length b + seg
             in ((None, b @ take k (d s)), d(s := drop k (d s)))
        else ((Some ''eof'', b @ d s), d(s := []))),
     a_read_exactly = (\<lambda>t s n b d. if n \<le> length (d s)
        then ((None, b @ take n (d s)), d(s := drop n (d s)))
        else ((Some ''eof'', b @ d s), d(s := []))),
     a_read_all = (\<lambda>t s b d. ((Some ''eof'', b @ d s), d(s := []))),
     a_close = (\<lambda>s d. d(s := [])), a_pick = hd, a_chunks = 1000, a_stat = (\<lambda>p d. False)\<rparr>"

lemma pipe_fields: "a_chunks (pipe seg) = 1000" "a_write (pipe seg) t s b d = (None, d)"
  by (simp_all add: pipe_def)

lemma find_delim_iff: "find_delim dl s \<longleftrightarrow> has_delim dl s"
proof
  assume "find_delim dl s"
  then obtain i where "take (length dl) (drop i s) = dl"
    by (auto simp: find_delim_def list_ex_iff)
  then have "s = take i s @ dl @ drop (length dl) (drop i s)" by (metis append_take_drop_id)
  then show "has_delim dl s" unfolding has_delim_def by blast
next
  assume "has_delim dl s"
  then obtain xs ys where s: "s = xs @ dl @ ys" by (auto simp: has_delim_def)
  then have "length xs \<in> set [0..<Suc (length s)]" "take (length dl) (drop (length xs) s) = dl" by simp_all
  then show "find_delim dl s" unfolding find_delim_def list_ex_iff by blast
qed

lemma has_delim_take: "has_delim dl s \<Longrightarrow> upto_delim dl s \<le> n \<Longrightarrow> has_delim dl (take n s)"
proof (induction s arbitrary: n)
  case (Cons c s)
  show ?case
  proof (cases "take (length dl) (c # s) = dl")
    case True
    with Cons.prems(2) have n: "length dl \<le> n" by simp
    have "take n (c # s) = take (length dl) (c # s) @ take (n - length dl) (drop (length dl) (c # s))"
      using n by (metis le_add_diff_inverse take_add)
    with True have "take n (c # s) = [] @ dl @ take (n - length dl) (drop (length dl) (c # s))" by simp
    then show ?thesis unfolding has_delim_def by blast
  next
    case False
    from Cons.prems(1) obtain xs ys where eq: "c # s = xs @ dl @ ys" unfolding has_delim_def by blast
    with False obtain xs' where "xs = c # xs'" by (cases xs) auto
    with eq have has: "has_delim dl s" unfolding has_delim_def by auto
    from False Cons.prems(2) obtain m where m: "n = Suc m" "upto_delim dl s \<le> m" by (cases n) auto
    from Cons.IH [OF has m(2)] obtain us vs where "take m s = us @ dl @ vs" unfolding has_delim_def by blast
    then have "take n (c # s) = (c # us) @ dl @ vs" by (simp add: m(1))
    then show ?thesis unfolding has_delim_def by blast
  qed
qed (simp add: has_delim_def)

interpretation pipe: asio_stream "pipe seg" "\<lambda>s d. d s"
proof unfold_locales
  fix dl b :: string and s :: nat and d :: "nat \<Rightarrow> string"
  assume has: "has_delim dl (b @ d s)"
  let ?k = "upto_delim dl (b @ d s) - length b + seg"
  have "has_delim dl (take (length b + ?k) (b @ d s))"
    using has by (rule has_delim_take) simp
  then have "has_delim dl (b @ take ?k (d s))" by simp
  with has show "\<exists>k d'. a_read_until (pipe seg) None s dl b d = ((None, b @ take k (d s)), d')
      \<and> d' s = drop k (d s) \<and> has_delim dl (b @ take k (d s))"
    by (intro exI [of _ ?k]) (simp add: pipe_def find_delim_iff Let_def)
qed (simp_all add: pipe_def)

end
