(* ===== verification/SwsRequest.thy ===== *)
theory SwsRequest
  imports SwsStream
begin

text \<open>
  Whole requests of the HTTP client: the loop over the header lines ends, a request connects at
  most twice, the body is delivered, and what happens to connections that break or to responses
  that are malformed.
\<close>

section \<open>Lemmas on whole requests\<close>

subsection \<open>The header loop ends\<close>

text \<open>The end of a header is ahead: the next line is empty, or a line feed and an empty line follow.\<close>

definition end_ahead :: "string \<Rightarrow> bool" where
  "end_ahead b \<longleftrightarrow> (\<exists>x. b = crlf @ x) \<or> has_delim (CHR 0x0A # crlf) b"

lemma end_ahead_step:
  assumes "has_delim (CHR 0x0A # crlf) b"
  obtains l b' where "no_lf l" "b = l @ CHR 0x0A # b'" "end_ahead b'"
proof -
  obtain xs ys where b: "b = xs @ CHR 0x0A # crlf @ ys" using assms by (auto simp: has_delim_def)
  show ?thesis
  proof (cases "no_lf xs")
    case True
    with b that [of xs "crlf @ ys"] show ?thesis by (auto simp: end_ahead_def)
  next
    case False
    then obtain l ms where xs: "xs = l @ CHR 0x0A # ms" "no_lf l"
      by (metis no_lf_def split_list_first)
    then have "end_ahead (ms @ CHR 0x0A # crlf @ ys)" by (auto simp: end_ahead_def has_delim_def)
    with b xs that [of l] show ?thesis by simp
  qed
qed

lemma header_lines_end: "header_lines st [CHR 0x0D] m = Some (st, m)"
proof -
  have "str_find [CHR 0x0D] (CHR '':'') = npos" by (rule str_find_none) simp
  then show ?thesis by (subst header_lines_step) simp
qed

lemma header_lines_total:
  "end_ahead b \<Longrightarrow> \<exists>r. header_lines \<lparr>buf = b, bad = False\<rparr> line m = Some r"
proof (induction b arbitrary: line m rule: length_induct)
  case (1 b)
  show ?case
  proof (cases "str_find line (CHR '':'') \<noteq> npos")
    case found: True
    from 1(2) consider x where "b = crlf @ x" | "has_delim (CHR 0x0A # crlf) b"
      unfolding end_ahead_def by blast
    then show ?thesis
    proof cases
      case 1
      with found getline_crlf [of "[]" x line] show ?thesis
        by (subst header_lines_step) (simp add: header_lines_end)
    next
      case 2
      then obtain l b' where b: "no_lf l" "b = l @ CHR 0x0A # b'" "end_ahead b'" by (rule end_ahead_step)
      then have "\<exists>r. header_lines \<lparr>buf = b', bad = False\<rparr> l (m @ header_entry line) = Some r"
        using 1(1) by simp
      with found b getline_line [OF b(1), of b' line] show ?thesis
        by (subst header_lines_step) simp
    qed
  next
    case False
    then show ?thesis by (subst header_lines_step) simp
  qed
qed

lemma parse_response_header_total:
  assumes "has_delim (crlf @ crlf) b"
  shows "\<exists>r. parse_response_header \<lparr>buf = b, bad = False\<rparr> = Some r"
proof -
  have "has_delim (CHR 0x0A # crlf) b"
    using assms unfolding has_delim_def by (auto simp: crlf_def) (metis append.assoc append_Cons append_Nil)
  then obtain l b' where b: "no_lf l" "b = l @ CHR 0x0A # b'" "end_ahead b'" by (rule end_ahead_step)
  have line1: "getline \<lparr>buf = b, bad = False\<rparr> [] = (\<lparr>buf = b', bad = False\<rparr>, l)"
    using getline_line [OF b(1)] b(2) by simp
  have "\<exists>r. header_lines (fst (getline \<lparr>buf = b', bad = False\<rparr> l)) (snd (getline \<lparr>buf = b', bad = False\<rparr> l)) [] = Some r"
  proof -
    from b(3) consider x where "b' = crlf @ x" | "has_delim (CHR 0x0A # crlf) b'"
      unfolding end_ahead_def by blast
    then show ?thesis
    proof cases
      case 1
      with getline_crlf [of "[]" x l] show ?thesis by (simp add: header_lines_end)
    next
      case 2
      then obtain l2 b2 where b2: "no_lf l2" "b' = l2 @ CHR 0x0A # b2" "end_ahead b2" by (rule end_ahead_step)
      with getline_line [OF b2(1), of b2 l] header_lines_total [OF b2(3)] show ?thesis by simp
    qed
  qed
  with line1 show ?thesis
    by (auto simp: parse_response_header_def Let_def split: prod.split)
qed

subsection \<open>Reconnecting\<close>

text \<open>Two continuations that agree on sessions being reconnected give the same read, write, connect.\<close>

lemma sws_read_again:
  "(\<And>b c d. reconnecting c \<Longrightarrow> f b (c, d) = g b (c, d)) \<Longrightarrow> sws_read A f b (c, d) = sws_read A g b (c, d)"
  by (simp add: sws_read_def bnd_gets split: prod.split option.split)

lemma sws_read_reconnecting:
  "reconnecting c \<Longrightarrow> sws_read A f b (c, d) = sws_read A g b (c, d)"
  by (simp add: sws_read_def bnd_gets split: prod.split option.split)

lemma sws_write_again:
  assumes "\<And>b c d. reconnecting c \<Longrightarrow> f b (c, d) = g b (c, d)"
  shows "sws_write A rq f b (c, d) = sws_write A rq g b (c, d)"
  using sws_read_again [of f g A b c, OF assms] by (simp add: sws_write_def split: prod.split option.split)

lemma sws_write_reconnecting:
  "reconnecting c \<Longrightarrow> sws_write A rq f b (c, d) = sws_write A rq g b (c, d)"
  using sws_read_reconnecting [of c A f b _ g] by (simp add: sws_write_def split: prod.split option.split)

text \<open>Two programs that agree on the connection agree after an operation of the outside.\<close>

lemma bnd_on_net_cong:
  "(\<And>a d'. F a (c, d') = G a (c, d')) \<Longrightarrow> bnd (on_net f) F (c, d) = bnd (on_net f) G (c, d)"
  by (simp split: prod.split)

lemma handshake_cong: "(\<And>d. k (c, d) = k' (c, d)) \<Longrightarrow> handshake A k (c, d) = handshake A k' (c, d)"
  unfolding handshake_def by (rule bnd_on_net_cong) (simp split: option.split)

lemma proxy_tunnel_cong:
  assumes "\<And>d. k (c, d) = k' (c, d)"
  shows "proxy_tunnel A k (c, d) = proxy_tunnel A k' (c, d)"
proof -
  have inner: "bnd (on_net f) (\<lambda>(ec, b). case ec of Some e \<Rightarrow> fail A e
       | None \<Rightarrow> (case parse_response_header \<lparr>buf = b, bad = False\<rparr> of None \<Rightarrow> block
          | Some r \<Rightarrow> if status_code r = [] \<or> take 3 (status_code r) \<noteq> ''200''
              then fail A ''Permission denied'' else handshake A k)) (c, d)
    = bnd (on_net f) (\<lambda>(ec, b). case ec of Some e \<Rightarrow> fail A e
       | None \<Rightarrow> (case parse_response_header \<lparr>buf = b, bad = False\<rparr> of None \<Rightarrow> block
          | Some r \<Rightarrow> if status_code r = [] \<or> take 3 (status_code r) \<noteq> ''200''
              then fail A ''Permission denied'' else handshake A k')) (c, d)" for f d
    using handshake_cong [of k c k' A] assms by (intro bnd_on_net_cong) (simp split: option.split prod.split)
  show ?thesis
    unfolding proxy_tunnel_def
    by (rule bnd_on_net_cong) (use inner in \<open>simp split: option.split del: bnd_on_net\<close>)
qed

lemma after_connect_cong:
  "(\<And>d. W (c\<lparr>is_open := True\<rparr>, d) = W' (c\<lparr>is_open := True\<rparr>, d)) \<Longrightarrow>
     after_connect A tls W (c, d) = after_connect A tls W' (c, d)"
  using handshake_cong [of W "c\<lparr>is_open := True\<rparr>" W' A] proxy_tunnel_cong [of W "c\<lparr>is_open := True\<rparr>" W' A]
  by (simp add: after_connect_def bnd_gets)

lemma connect_write:
  assumes "\<And>c' d. reconnecting c' = reconnecting c \<Longrightarrow>
    sws_write A rq (connect m A tls rq) b (c', d) = sws_write A rq (connect n A tls rq) b (c', d)"
  shows "connect (Suc m) A tls rq b (c, d) = connect (Suc n) A tls rq b (c, d)"
proof -
  let ?c = "c\<lparr>is_open := True\<rparr>"
  have w: "sws_write A rq (connect m A tls rq) b (?c, d) = sws_write A rq (connect n A tls rq) b (?c, d)" for d
    using assms by simp
  have after: "after_connect A tls (sws_write A rq (connect m A tls rq) b) (c, d)
      = after_connect A tls (sws_write A rq (connect n A tls rq) b) (c, d)" for d
    using w by (rule after_connect_cong)
  show ?thesis
  proof (cases "is_open c")
    case True
    then show ?thesis using assms [of c] by (simp add: bnd_gets Let_def)
  next
    case False
    then show ?thesis
      using after by (cases tls) (simp_all add: bnd_gets Let_def split: prod.split option.split)
  qed
qed

lemma connect_reconnecting:
  "reconnecting c \<Longrightarrow> connect (Suc m) A tls rq b (c, d) = connect (Suc n) A tls rq b (c, d)"
  by (rule connect_write) (rule sws_write_reconnecting, simp)

lemma connect_two: "connect (Suc (Suc m)) A tls rq b (c, d) = connect (Suc (Suc n)) A tls rq b (c, d)"
  by (rule connect_write) (rule sws_write_again, rule connect_reconnecting)

lemma get_connection_idle:
  assumes "connections cl = [c]" and "\<not> in_use c"
  shows "get_connection A (cl, d) = (Ret 0, (cl\<lparr>connections := [c\<lparr>reconnecting := False, in_use := True\<rparr>]\<rparr>, d))"
  using assms by (simp add: get_connection_def bnd_modify run_simps)

lemma scan_all_in_use: "list_all in_use cs \<Longrightarrow> scan_connections cs kept ch = (kept @ cs, ch)"
  by (induction cs arbitrary: kept) auto

section \<open>Properties\<close>

text \<open>A host and a port written with a colon between them are read back, for every port of 16
  bits; without a colon the port is the default one.\<close>

theorem parse_host_port_roundtrip:
  assumes "CHR '':'' \<notin> set h" and "length h < npos" and "p < 2 ^ 16"
  shows "parse_host_port (h @ '':'' @ dec p) q = Ret (h, of_nat p) \<and> parse_host_port h q = Ret (h, q)"
proof -
  have "str_find (h @ '':'' @ dec p) (CHR '':'') = length h"
    using str_find_stop [OF assms(1), of "dec p"] by simp
  moreover have "stoul 10 (dec p) = Ret (of_nat p)" using assms(3) by (simp add: stoul_dec)
  moreover have "ucast (of_nat p :: u64) = (of_nat p :: u16)"
    using assms(3) by (simp add: unsigned_of_nat take_bit_nat_eq_self)
  ultimately show ?thesis
    using assms(1,2) by (simp add: parse_host_port_def str_find_none Let_def)
qed

theorem parse_host_port_roundtrip_witness:
  "parse_host_port (''localhost'' @ '':'' @ dec 9080) 80 = Ret (''localhost'', 9080)"
  using parse_host_port_roundtrip [of "''localhost''" 9080 80] by (simp add: npos_def)

text \<open>C28. Parsing the header of a response always ends: a successful read leaves the empty line
  behind the header in the buffer, and then the loop over the header lines meets it; a well-formed
  header is read back with its version, its status and its entries in order, and what follows it
  is left in the stream.\<close>

theorem parse_response_header_ends:
  assumes "has_delim (crlf @ crlf) b"
  shows "(\<exists>r. parse_response_header \<lparr>buf = b, bad = False\<rparr> = Some r)
    \<and> (\<forall>v st hs body. b = head_text v st hs @ body \<longrightarrow> good_head v st hs \<longrightarrow>
         parse_response_header \<lparr>buf = b, bad = False\<rparr>
           = Some \<lparr>http_version = v, status_code = st, content = \<lparr>buf = body, bad = False\<rparr>, header = hs\<rparr>)"
  using parse_response_header_total [OF assms] parse_head_text by blast

theorem parse_response_header_ends_witness:
  "\<exists>r. parse_response_header \<lparr>buf = ''x:y'' @ crlf @ crlf, bad = False\<rparr> = Some r"
proof -
  have "''x:y'' @ crlf @ crlf = ''x:y'' @ (crlf @ crlf) @ []" by simp
  then have "has_delim (crlf @ crlf) (''x:y'' @ crlf @ crlf)" unfolding has_delim_def by blast
  from parse_response_header_ends [OF this] show ?thesis by blast
qed

definition framed :: "nat \<Rightarrow> string \<Rightarrow> multimap \<Rightarrow> string \<Rightarrow> string \<Rightarrow> bool" where
  "framed n v hs wire body \<longleftrightarrow>
    (\<exists>k. filter (\<lambda>(k, v). case_insensitive_equal ''Content-Length'' k) hs = [(k, dec (length body))]
       \<and> length body < 2 ^ 64 \<and> wire = body)
    \<or> (\<exists>k xs. filter (\<lambda>(k, v). case_insensitive_equal ''Content-Length'' k) hs = []
       \<and> filter (\<lambda>(k, v). case_insensitive_equal ''Transfer-Encoding'' k) hs = [(k, ''chunked'')]
       \<and> list_all (\<lambda>x. x \<noteq> [] \<and> length x < 2 ^ 63) xs \<and> length xs < n
       \<and> wire = chunks_text xs \<and> body = concat xs)
    \<or> (filter (\<lambda>(k, v). case_insensitive_equal ''Content-Length'' k) hs = []
       \<and> filter (\<lambda>(k, v). case_insensitive_equal ''Transfer-Encoding'' k) hs = []
       \<and> v < ''1.1'' \<and> wire = body)
    \<or> (filter (\<lambda>(k, v). case_insensitive_equal ''Content-Length'' k) hs = []
       \<and> filter (\<lambda>(k, v). case_insensitive_equal ''Transfer-Encoding'' k) hs = []
       \<and> filter (\<lambda>(k, v). case_insensitive_equal ''Session'' k) hs = [] \<and> wire = [] \<and> body = [])"

lemma sws_request_body:
  assumes stream: "asio_stream A incoming" and idle: "connections cl = [c]" "\<not> in_use c" "is_open c"
    and t: "timeout (c_config c) = 0"
    and wr: "a_write A None (c_sock c) (request_text cl m p [] []) d = (None, d1)"
    and head: "good_head v st hs" and wire: "incoming (c_sock c) d1 = head_text v st hs @ wire"
    and framed: "framed (a_chunks A) v hs wire body"
  shows "\<exists>c' d'. sws_request A m p [] [] (cl, d) = (Ret body, (cl\<lparr>connections := [c']\<rparr>, d')) \<and> \<not> in_use c'"
proof -
  let ?c = "c\<lparr>reconnecting := False, in_use := True\<rparr>"
  have t': "timeout (c_config ?c) = 0"
    and sock: "c_sock ?c = c_sock c" using t by simp_all
  have same: "?c\<lparr>reconnecting := False\<rparr> = ?c" by (cases c) simp
  obtain y d2 where y: "y @ incoming (c_sock c) d2 = wire"
    and rd: "\<And>again. sws_read A again [] (?c, d1) = read_body A (length y)
        \<lparr>http_version = v, status_code = st, content = \<lparr>buf = y, bad = False\<rparr>, header = hs\<rparr> (?c, d2)"
    using asio_stream.sws_read_head [OF stream t'(1) head, of d1 wire] wire unfolding same sock by blast
  let ?r = "\<lparr>http_version = v, status_code = st, content = \<lparr>buf = y, bad = False\<rparr>, header = hs\<rparr>"
  have body: "\<exists>c' d'. read_body A (length y) ?r (?c, d2) = (Ret body, (c', d')) \<and> \<not> in_use c'"
    using framed unfolding framed_def
  proof (elim disjE exE conjE)
    fix k assume "filter (\<lambda>(k, v). case_insensitive_equal ''Content-Length'' k) hs = [(k, dec (length body))]"
      "length body < 2 ^ 64" "wire = body"
    with asio_stream.read_body_length [OF stream t'(1), of body ?r k y d2] y show ?thesis by fastforce
  next
    fix k xs assume "filter (\<lambda>(k, v). case_insensitive_equal ''Content-Length'' k) hs = []"
      "filter (\<lambda>(k, v). case_insensitive_equal ''Transfer-Encoding'' k) hs = [(k, ''chunked'')]"
      "list_all (\<lambda>x. x \<noteq> [] \<and> length x < 2 ^ 63) xs" "length xs < a_chunks A"
      "wire = chunks_text xs" "body = concat xs"
    with asio_stream.read_body_chunked [OF stream t'(1), of xs ?r k y d2 "length y"] y show ?thesis
      by (fastforce simp: header_find_def)
  next
    assume "filter (\<lambda>(k, v). case_insensitive_equal ''Content-Length'' k) hs = []"
      "filter (\<lambda>(k, v). case_insensitive_equal ''Transfer-Encoding'' k) hs = []" "v < ''1.1''" "wire = body"
    with asio_stream.read_body_eof [OF stream t'(1), of ?r y d2 body "length y"] y show ?thesis
      by (fastforce simp: header_find_def)
  next
    assume none: "filter (\<lambda>(k, v). case_insensitive_equal ''Content-Length'' k) hs = []"
      "filter (\<lambda>(k, v). case_insensitive_equal ''Transfer-Encoding'' k) hs = []"
      "filter (\<lambda>(k, v). case_insensitive_equal ''Session'' k) hs = []" "wire = []" "body = []"
    show ?thesis
    proof (cases "v < ''1.1''")
      case True
      with none asio_stream.read_body_eof [OF stream t'(1), of ?r y d2 body "length y"] y show ?thesis
        by (fastforce simp: header_find_def)
    next
      case False
      with none y have "read_body A (length y) ?r (?c, d2) = callback None body (?c, d2)"
        by (simp add: read_body_def header_find_def Let_def)
      then show ?thesis by simp
    qed
  qed
  have notime: "get_timeout_timer ?c 0 = None" using t by (simp add: get_timeout_timer_def)
  have two: "(2 :: nat) = Suc (Suc 0)" by simp
  have same_text: "request_text (cl\<lparr>connections := x\<rparr>) m p [] [] = request_text cl m p [] []" for x
    by (simp add: request_text_def create_request_header_def Let_def)
  from body obtain c' d' where "connect 2 A (cl_tls cl \<noteq> None) (request_text cl m p [] []) [] (?c, d)
      = (Ret body, (c', d'))" "\<not> in_use c'"
    using idle(3) wr notime rd unfolding two by (auto simp: bnd_gets sws_write_def Let_def)
  then show ?thesis
    using get_connection_idle [OF idle(1,2), of A d] same_text
    by (intro exI [of _ c'] exI [of _ d']) (simp add: sws_request_def bnd_def)
qed

text \<open>C6. A request on an idle open connection returns exactly the body the server sends, however the
  bytes arrive, when the body is delimited by its length, in chunks, or, for a version before 1.1,
  by the end of the stream, and when there is none; the connection is free again afterwards.\<close>

theorem request_delivers_body:
  assumes stream: "asio_stream A incoming" and idle: "connections cl = [c]" "\<not> in_use c" "is_open c"
    and t: "timeout (c_config c) = 0"
    and wr: "a_write A None (c_sock c) (request_text cl m p [] []) d = (None, d1)"
    and head: "good_head v st hs" and wire: "incoming (c_sock c) d1 = head_text v st hs @ wire"
    and framed: "framed (a_chunks A) v hs wire body"
  shows "\<exists>c' d'. sws_request A m p [] [] (cl, d) = (Ret body, (cl\<lparr>connections := [c']\<rparr>, d')) \<and> \<not> in_use c'"
  by (rule sws_request_body [OF assms])

definition demo_client :: "connection list \<Rightarrow> client" where
  "demo_client cs = \<lparr>cl_tls = None, cl_config = default_config, cl_host = ''a'', cl_port = 80, connections = cs\<rparr>"

definition demo_connection :: connection where
  "demo_connection = \<lparr>c_host = ''a'', c_port = 80, c_config = default_config, c_sock = 0,
     c_query = (''a'', ''80''), is_open = True, in_use = False, reconnecting = False\<rparr>"

theorem request_delivers_body_witness:
  "\<exists>c' d'. sws_request (pipe 2) ''GET'' ''/x'' [] []
      (demo_client [demo_connection], \<lambda>s. head_text ''1.1'' ''200 OK'' [(''content-length'', ''5'')] @ ''hello'')
    = (Ret ''hello'', (demo_client [c'], d'))"
proof -
  have "dec (length ''hello'') = ''5''" by (simp add: dec.simps digit_def char_eval)
  moreover have "case_insensitive_equal ''Content-Length'' ''content-length''"
    by (simp add: case_insensitive_equal_def tolower_def char_eval)
  ultimately have "framed 1000 ''1.1'' [(''content-length'', ''5'')] ''hello'' ''hello''"
    by (simp add: framed_def)
  moreover have "good_head ''1.1'' ''200 OK'' [(''content-length'', ''5'')]"
    by (simp add: good_head_def good_header_def npos_def)
  ultimately show ?thesis
    using request_delivers_body [OF pipe.asio_stream_axioms, of "demo_client [demo_connection]" demo_connection
      2 "''GET''" "''/x''" "\<lambda>s. head_text ''1.1'' ''200 OK'' [(''content-length'', ''5'')] @ ''hello''"
      "\<lambda>s. head_text ''1.1'' ''200 OK'' [(''content-length'', ''5'')] @ ''hello''" "''1.1''" "''200 OK''"
      "[(''content-length'', ''5'')]" "''hello''" "''hello''"]
    by (auto simp: demo_client_def demo_connection_def default_config_def pipe_def)
qed

text \<open>C27. For one request \<open>connect\<close> is entered at most twice, whatever the outside does: the counter 2
  that \<open>sws_request\<close> uses gives the same result as every larger one, and the reconnection through a
  failed read never gets to its end.\<close>

theorem connect_at_most_twice:
  "connect (Suc (Suc n)) A tls rq b (c, d) = connect 2 A tls rq b (c, d)"
  using connect_two [of n A tls rq b c d 0] by (simp only: numeral_2_eq_2)

text \<open>A response whose length is no number leaks a connection: the exception leaves the handler
  before the callback, so that the new connection stays open and in use for ever, and the next
  request opens another one.\<close>

theorem bad_length_leaks_connection:
  assumes used: "list_all in_use (connections cl)" and http: "cl_tls cl = None" "cl_config cl = default_config"
    and sock: "a_socket A None d = (s, d1)"
    and res: "a_resolve A None (cl_host cl, dec (unat (cl_port cl))) d1 = (None, d2)"
    and con: "a_connect A None s d2 = (None, d3)"
    and wr: "a_write A None s (request_text cl m p [] []) d3 = (None, d4)"
    and rd: "a_read_until A None s (crlf @ crlf) [] d4 = ((None, head_text v st hs @ rest), d5)"
    and head: "good_head v st hs" "header_find (a_pick A) ''Content-Length'' hs = Some x" "strto 10 x = None"
  shows "\<exists>c. sws_request A m p [] [] (cl, d) = (Throw ''stoul'', (cl\<lparr>connections := connections cl @ [c]\<rparr>, d5))
    \<and> in_use c \<and> is_open c \<and> list_all in_use (connections cl @ [c])"
proof -
  let ?new = "\<lparr>c_host = cl_host cl, c_port = cl_port cl, c_config = default_config, c_sock = s,
     c_query = (cl_host cl, dec (unat (cl_port cl))), is_open = False, in_use = True, reconnecting = False\<rparr>"
  let ?cl = "cl\<lparr>connections := connections cl @ [?new]\<rparr>"
  have cfg: "cl_config cl = \<lparr>timeout = 0, timeout_connect = 0, proxy_server = []\<rparr>"
    using http by (simp add: default_config_def)
  have get: "get_connection A (cl, d) = (Ret (length (connections cl)), (?cl, d1))"
    using scan_all_in_use [OF used, of "[]" None] sock http cfg
    by (simp add: get_connection_def create_connection_def bnd_def modify_def ret_def default_config_def)
  have same_text: "request_text (cl\<lparr>connections := y\<rparr>) m p [] [] = request_text cl m p [] []" for y
    by (simp add: request_text_def create_request_header_def Let_def)
  have two: "(2 :: nat) = Suc (Suc 0)" by simp
  have notime: "get_timeout_timer (c\<lparr>c_config := default_config\<rparr>) 0 = None" for c
    by (simp add: get_timeout_timer_def default_config_def)
  have bad: "stoul 10 x = Throw ''stoul''" using head(3) by (simp add: stoul_def)
  have "connect 2 A False (request_text cl m p [] []) [] (?new, d1) = (Throw ''stoul'', (?new\<lparr>is_open := True\<rparr>, d5))"
    using res con wr rd parse_head_text [OF head(1), of rest] head(2) bad
    unfolding two
    by (simp add: bnd_gets Let_def after_connect_def sws_write_def sws_read_def read_body_def
      get_timeout_timer_def default_config_def run_simps)
  then show ?thesis
    using get same_text http used
    by (intro exI [of _ "?new\<lparr>is_open := True\<rparr>"]) (simp add: sws_request_def bnd_def)
qed

theorem bad_length_leaks_connection_witness:
  "\<exists>c d'. sws_request (pipe 0) ''GET'' ''/x'' [] []
      (demo_client [], \<lambda>s. head_text ''1.1'' ''200 OK'' [(''Content-Length'', ''x'')])
    = (Throw ''stoul'', (demo_client [c], d')) \<and> in_use c"
proof -
  let ?d = "\<lambda>s :: nat. head_text ''1.1'' ''200 OK'' [(''Content-Length'', ''x'')]"
  have head: "good_head ''1.1'' ''200 OK'' [(''Content-Length'', ''x'')]"
    by (simp add: good_head_def good_header_def npos_def)
  have ls: "list_all (\<lambda>l. no_lf l \<and> l \<noteq> []) [status_line ''1.1'' ''200 OK'', ''Content-Length: x'']"
    by (simp add: status_line_def)
  have upto: "upto_delim (crlf @ crlf) (?d 0) = length (?d 0)"
    using upto_delim_lines [OF _ ls, of "[]"] by (simp add: head_text_def header_line_def)
  have "?d 0 = (status_line ''1.1'' ''200 OK'' @ crlf @ ''Content-Length: x'') @ (crlf @ crlf) @ []"
    by (simp add: head_text_def lines_text_def header_line_def)
  then have "has_delim (crlf @ crlf) (?d 0)" unfolding has_delim_def by blast
  then have rd: "a_read_until (pipe 0) None 0 (crlf @ crlf) [] ?d = ((None, ?d 0 @ []), ?d(0 := []))"
    using upto by (simp add: pipe_def find_delim_iff Let_def)
  have find: "header_find (a_pick (pipe 0)) ''Content-Length'' [(''Content-Length'', ''x'')] = Some ''x''"
    by (simp add: header_find_def case_insensitive_equal_def pipe_def)
  have fields: "a_socket (pipe 0) None ?d = (0, ?d)" "a_resolve (pipe 0) None q ?d = (None, ?d)"
    "a_connect (pipe 0) None 0 ?d = (None, ?d)" "a_write (pipe 0) None 0 b ?d = (None, ?d)" for q b
    by (simp_all add: pipe_def)
  have num: "strto 10 ''x'' = None"
    by (simp add: strto_def signed_part_def is_space_def digit_of_def)
  show ?thesis
    using bad_length_leaks_connection [of "demo_client []" "pipe 0" ?d 0 ?d ?d ?d "''GET''" "''/x''" ?d
      "''1.1''" "''200 OK''" "[(''Content-Length'', ''x'')]" "[]" "?d(0 := [])" "''x''"] fields rd head find num
    by (auto simp: demo_client_def)
qed

text \<open>A response of version 1.1 that has neither a length nor chunks and is ended by closing the
  connection (\<open>Connection: close\<close>) is cut: the code looks for a header \<open>Session\<close> instead, so only
  the bytes that came with the header are returned, whatever the server still sends, and the
  connection counts as open.\<close>

theorem connection_close_cut:
  assumes "header_find pick ''Connection'' (header r) = Some ''close''" and "pick = a_pick A"
    and "header_find pick ''Content-Length'' (header r) = None"
    and "header_find pick ''Transfer-Encoding'' (header r) = None"
    and "header_find pick ''Session'' (header r) = None" and "\<not> http_version r < ''1.1''"
  shows "read_body A extra r (c, d) = (Ret (buf (content r)), (c\<lparr>in_use := False\<rparr>, d))"
  using assms by (simp add: read_body_def Let_def)

theorem connection_close_cut_witness:
  "read_body (pipe 0) 0 \<lparr>http_version = ''1.1'', status_code = ''200 OK'', content = \<lparr>buf = [], bad = False\<rparr>,
      header = [(''Connection'', ''close'')]\<rparr> (demo_connection, \<lambda>s. ''hello'')
    = (Ret [], (demo_connection, \<lambda>s. ''hello''))"
proof -
  have "case_insensitive_equal ''Connection'' ''Connection''"
    "\<not> case_insensitive_equal ''Content-Length'' ''Connection''"
    "\<not> case_insensitive_equal ''Transfer-Encoding'' ''Connection''"
    "\<not> case_insensitive_equal ''Session'' ''Connection''"
    by (simp_all add: case_insensitive_equal_def)
  then show ?thesis
    using connection_close_cut [of hd "\<lparr>http_version = ''1.1'', status_code = ''200 OK'', content = \<lparr>buf = [], bad = False\<rparr>,
      header = [(''Connection'', ''close'')]\<rparr>" "pipe 0" 0 demo_connection "\<lambda>s. ''hello''"]
    by (simp add: header_find_def pipe_def demo_connection_def)
qed


text \<open>A server that closes the first connection inside the header and answers on the second.\<close>

definition dying_server :: "(nat \<Rightarrow> string) asio" where
  "dying_server = (pipe 9)\<lparr>a_connect := (\<lambda>t s d.
     (None, d(s := head_text ''1.1'' ''200 OK'' [(''Content-Length'', ''5'')] @ ''hello'')))\<rparr>"


end
