(* ===== verification/Http.thy ===== *)
theory Http
  imports World SwsRequest
begin

text \<open>
  Class \<open>HttpClient\<close> (\<open>src/config.cpp\<close>): fetching a document from an agent over HTTP or HTTPS, with
  one retry, and the counters of what became of the fetches.
\<close>

section \<open>State and operations\<close>

record http_client =
  hc_ok :: u32
  hc_failed :: u32
  hc_parse :: u32
  hc_use_ssl :: bool
  hc_base_url :: string
  hc_https :: "client option"
  hc_http :: "client option"

text \<open>The part of the shared state that is outside the program.\<close>

definition outside :: "('db, 'a) prog \<Rightarrow> ('db world, 'a) prog" where
  "outside m = (\<lambda>w. case m (srv w) of (r, d) \<Rightarrow> (r, w\<lparr>srv := d\<rparr>))"

text \<open>\<open>(*cfg)[k].asString()\<close>; a missing member reads as the null value.\<close>

definition cfg_string :: "'j json_api \<Rightarrow> 'j \<Rightarrow> string \<Rightarrow> string outcome" where
  "cfg_string J cfg k = obind (j_at J cfg k) (j_asString J)"

definition certificates_exist :: "'db asio \<Rightarrow> string \<Rightarrow> string \<Rightarrow> string \<Rightarrow> 'db \<Rightarrow> bool" where
  "certificates_exist A sslkey sslcert sslvrf d \<longleftrightarrow>
     a_stat A (c_str sslcert) d \<and> a_stat A (c_str sslvrf) d \<and> a_stat A (c_str sslkey) d"

definition HttpClient_init :: "'db asio \<Rightarrow> 'j json_api \<Rightarrow> string \<Rightarrow> bool \<Rightarrow> 'j \<Rightarrow> ('db world, http_client) prog" where
  "HttpClient_init A J base_url p_use_ssl cfg =
     bnd (lift (cfg_string J cfg ''SSL_key'')) (\<lambda>sslkey.
     bnd (lift (cfg_string J cfg ''SSL_cert'')) (\<lambda>sslcert.
     bnd (lift (cfg_string J cfg ''SSL_verify'')) (\<lambda>sslvrf.
     bnd (gets (\<lambda>w. certificates_exist A sslkey sslcert sslvrf (srv w))) (\<lambda>use_ssl.
     bnd (if p_use_ssl \<and> \<not> use_ssl then
            bnd (l_warning ''HttpClient::HttpClient''
                   ''Requiered certificate files not found, trying http instead'') (\<lambda>_. ret use_ssl)
          else if \<not> p_use_ssl then ret False
          else ret use_ssl) (\<lambda>use_ssl.
     if use_ssl then
       bnd (outside (https_client_init A base_url True sslcert sslkey sslvrf)) (\<lambda>c.
       ret \<lparr>hc_ok = 0, hc_failed = 0, hc_parse = 0, hc_use_ssl = True, hc_base_url = base_url,
            hc_https = Some c, hc_http = None\<rparr>)
     else
       bnd (lift (http_client_init base_url)) (\<lambda>c.
       ret \<lparr>hc_ok = 0, hc_failed = 0, hc_parse = 0, hc_use_ssl = False, hc_base_url = base_url,
            hc_https = None, hc_http = Some c\<rparr>))))))"

text \<open>A request through the HTTP client, which is kept, or through a new HTTPS client.\<close>

definition https_request :: "'db asio \<Rightarrow> string \<Rightarrow> string \<Rightarrow> (http_client \<times> 'db world, string) prog" where
  "https_request A p_opt p_path = (\<lambda>(h, w). case hc_https h of
     None \<Rightarrow> (Undef, (h, w))
   | Some c \<Rightarrow> (case sws_request A p_opt p_path [] [] (c, srv w) of
       (r, (c, d)) \<Rightarrow> (r, (h\<lparr>hc_https := Some c\<rparr>, w\<lparr>srv := d\<rparr>))))"

definition http_request :: "'db asio \<Rightarrow> string \<Rightarrow> string \<Rightarrow> (http_client \<times> 'db world, string) prog" where
  "http_request A p_opt p_path = (\<lambda>(h, w). case hc_http h of
     None \<Rightarrow> (Undef, (h, w))
   | Some c \<Rightarrow> (case sws_request A p_opt p_path [] [] (c, srv w) of
       (r, (c, d)) \<Rightarrow> (r, (h\<lparr>hc_http := Some c\<rparr>, w\<lparr>srv := d\<rparr>))))"

definition HttpClient_request :: "'db asio \<Rightarrow> 'j json_api \<Rightarrow> 'j \<Rightarrow> string \<Rightarrow> string \<Rightarrow>
    (http_client \<times> 'db world, string) prog" where
  "HttpClient_request A J cfg p_opt p_path =
     bnd (gets (\<lambda>(h, w). (hc_use_ssl h, hc_base_url h))) (\<lambda>(use_ssl, base_url).
     if use_ssl then
       bnd (lift (cfg_string J cfg ''SSL_key'')) (\<lambda>sslkey.
       bnd (lift (cfg_string J cfg ''SSL_cert'')) (\<lambda>sslcert.
       bnd (lift (cfg_string J cfg ''SSL_verify'')) (\<lambda>sslvrf.
       bnd (lift (obind (j_at J cfg ''SSL_verify_name'') (j_asBool J))) (\<lambda>sslvn.
       bnd (on_snd (outside (https_client_init A base_url sslvn sslcert sslkey sslvrf))) (\<lambda>c.
       bnd (on_fst (modify (\<lambda>h. h\<lparr>hc_https := Some c\<rparr>))) (\<lambda>_.
       https_request A p_opt p_path))))))
     else http_request A p_opt p_path)"

definition resetCount :: "(http_client, u32 \<times> u32 \<times> u32) prog" where
  "resetCount = (\<lambda>h. (Ret (hc_ok h, hc_failed h, hc_parse h),
     h\<lparr>hc_ok := 0, hc_failed := 0, hc_parse := 0\<rparr>))"

text \<open>
  \<open>getJSON\<close>: whether it succeeded, and the value \<open>result\<close> was overwritten with, if it was. The
  second attempt copes with a connection the server closed meanwhile.
\<close>

definition getJSON :: "'db asio \<Rightarrow> 'j json_api \<Rightarrow> 'j \<Rightarrow> string \<Rightarrow>
    (http_client \<times> 'db world, bool \<times> 'j option) prog" where
  "getJSON A J cfg p_path =
     bnd (catch (bnd (HttpClient_request A J cfg ''GET'' p_path) (\<lambda>resp. ret (Some resp))) (\<lambda>_.
          catch (bnd (HttpClient_request A J cfg ''GET'' p_path) (\<lambda>resp. ret (Some resp))) (\<lambda>what.
            bnd (gets (\<lambda>(h, w). hc_base_url h)) (\<lambda>base_url.
            bnd (on_snd (l_warning ''HttpClient::getJSON''
                   (''Failed to get '' @ base_url @ p_path @ '' after a retry:'' @ what))) (\<lambda>_.
            bnd (on_fst (modify (\<lambda>h. h\<lparr>hc_failed := hc_failed h + 1\<rparr>))) (\<lambda>_.
            ret None)))))) (\<lambda>resp. case resp of
       None \<Rightarrow> ret (False, None)
     | Some resp \<Rightarrow> (case j_parse J resp of
         None \<Rightarrow>
           bnd (gets (\<lambda>(h, w). hc_base_url h)) (\<lambda>base_url.
           bnd (on_snd (l_warning ''HttpClient::getJSON''
                  (''Json parse failed for url : '' @ base_url @ p_path))) (\<lambda>_.
           bnd (on_fst (modify (\<lambda>h. h\<lparr>hc_parse := hc_parse h + 1\<rparr>))) (\<lambda>_.
           ret (False, j_broken J resp))))
       | Some v \<Rightarrow>
           bnd (on_fst (modify (\<lambda>h. h\<lparr>hc_ok := hc_ok h + 1\<rparr>))) (\<lambda>_.
           ret (True, Some v))))"

section \<open>Lemmas\<close>

definition counters :: "http_client \<Rightarrow> u32 \<times> u32 \<times> u32" where
  "counters h = (hc_ok h, hc_failed h, hc_parse h)"

text \<open>What a request leaves alone: everything but the clients and the outside.\<close>

definition http_frame :: "http_client \<times> 'db world \<Rightarrow> (u32 \<times> u32 \<times> u32) \<times> bool \<times> string \<times> u32 \<times> u32 \<times> (objid \<Rightarrow> bool) \<times> alert list" where
  "http_frame s = (counters (fst s), hc_use_ssl (fst s), hc_base_url (fst s), usedCount (snd s), poolSize (snd s), conn (snd s), sent (snd s))"

lemma keeps_outside: "(\<And>w d. P w \<Longrightarrow> P (w\<lparr>srv := d\<rparr>)) \<Longrightarrow> keeps P (outside m)"
  by (auto simp: keeps_def outside_def split: prod.splits)

lemma request_frame: "keeps (\<lambda>s. http_frame s = f \<and> logs (snd s) = l) (HttpClient_request A J cfg opt path)"
  unfolding HttpClient_request_def
  by (intro keeps_intros keeps_on_snd keeps_outside keeps_on_fst keeps_modify)
    (auto simp: http_frame_def counters_def keeps_def https_request_def http_request_def split: option.splits prod.splits)

lemma request_frame_run:
  "HttpClient_request A J cfg opt path s = (r, t) \<Longrightarrow> http_frame t = http_frame s \<and> logs (snd t) = logs (snd s)"
  using keeps_run [OF request_frame [of "http_frame s" "logs (snd s)"]] by fastforce

text \<open>What the first or the second attempt yields: the text, or no text and a failure counted.\<close>

definition fetch :: "'db asio \<Rightarrow> 'j json_api \<Rightarrow> 'j \<Rightarrow> string \<Rightarrow> (http_client \<times> 'db world, string option) prog" where
  "fetch A J cfg p_path =
     catch (bnd (HttpClient_request A J cfg ''GET'' p_path) (\<lambda>resp. ret (Some resp))) (\<lambda>_.
       catch (bnd (HttpClient_request A J cfg ''GET'' p_path) (\<lambda>resp. ret (Some resp))) (\<lambda>what.
         bnd (gets (\<lambda>(h, w). hc_base_url h)) (\<lambda>base_url.
         bnd (on_snd (l_warning ''HttpClient::getJSON''
                (''Failed to get '' @ base_url @ p_path @ '' after a retry:'' @ what))) (\<lambda>_.
         bnd (on_fst (modify (\<lambda>h. h\<lparr>hc_failed := hc_failed h + 1\<rparr>))) (\<lambda>_.
         ret None)))))"

lemma attempt_run:
  "catch (bnd m (\<lambda>x. ret (Some x))) k s = (case m s of
     (Ret x, t) \<Rightarrow> (Ret (Some x), t) | (Throw e, t) \<Rightarrow> k e t | (Undef, t) \<Rightarrow> (Undef, t) | (Block, t) \<Rightarrow> (Block, t))"
  by (auto simp: catch_def bnd_def ret_def split: prod.splits outcome.splits)

text \<open>The counters after \<open>getJSON\<close>, by how it ended.\<close>

definition count_of :: "(bool \<times> 'j option) outcome \<Rightarrow> u32 \<times> u32 \<times> u32 \<Rightarrow> u32 \<times> u32 \<times> u32 \<Rightarrow> bool" where
  "count_of r c c' \<longleftrightarrow> (case c of (ok, failed, parse) \<Rightarrow> case r of
       Ret (True, x) \<Rightarrow> c' = (ok + 1, failed, parse) \<and> x \<noteq> None
     | Ret (False, x) \<Rightarrow> c' = (ok, failed + 1, parse) \<and> x = None \<or> c' = (ok, failed, parse + 1)
     | Throw e \<Rightarrow> False
     | Undef \<Rightarrow> c' = c
     | Block \<Rightarrow> c' = c)"

lemma log_frame [simp]: "http_frame (h, w\<lparr>logs := x\<rparr>) = http_frame (h, w)"
  by (simp add: http_frame_def)

lemma fetch_run:
  assumes "fetch A J cfg path s = (r, t)"
  shows "(case r of Ret None \<Rightarrow> http_frame t = http_frame ((fst s)\<lparr>hc_failed := hc_failed (fst s) + 1\<rparr>, snd s)
     | Throw e \<Rightarrow> False | _ \<Rightarrow> http_frame t = http_frame s)"
proof -
  obtain r1 s1 where 1: "HttpClient_request A J cfg ''GET'' path s = (r1, s1)" by (metis prod.exhaust)
  obtain r2 s2 where 2: "HttpClient_request A J cfg ''GET'' path s1 = (r2, s2)" by (metis prod.exhaust)
  note frames = request_frame_run [OF 1] request_frame_run [OF 2]
  obtain h2 w2 where s2: "s2 = (h2, w2)" by (cases s2)
  show ?thesis
    using assms 1 2 frames
    by (cases r1; cases r2)
      (auto simp: fetch_def attempt_run prog_simps l_warning_def s2 http_frame_def counters_def split: prod.splits)
qed

lemma getJSON_run:
  assumes "getJSON A J cfg path s = (r, t)"
  shows "count_of r (counters (fst s)) (counters (fst t))"
    and "hc_use_ssl (fst t) = hc_use_ssl (fst s)" "hc_base_url (fst t) = hc_base_url (fst s)"
    and "conn (snd t) = conn (snd s)" "usedCount (snd t) = usedCount (snd s)" "poolSize (snd t) = poolSize (snd s)"
      "sent (snd t) = sent (snd s)"
proof -
  obtain r1 s1 where f: "fetch A J cfg path s = (r1, s1)" by (metis prod.exhaust)
  obtain h1 w1 where s1: "s1 = (h1, w1)" by (cases s1)
  have eq: "getJSON A J cfg path s = bnd (fetch A J cfg path) (\<lambda>resp. case resp of
       None \<Rightarrow> ret (False, None)
     | Some resp \<Rightarrow> (case j_parse J resp of
         None \<Rightarrow>
           bnd (gets (\<lambda>(h, w). hc_base_url h)) (\<lambda>base_url.
           bnd (on_snd (l_warning ''HttpClient::getJSON''
                  (''Json parse failed for url : '' @ base_url @ path))) (\<lambda>_.
           bnd (on_fst (modify (\<lambda>h. h\<lparr>hc_parse := hc_parse h + 1\<rparr>))) (\<lambda>_.
           ret (False, j_broken J resp))))
       | Some v \<Rightarrow>
           bnd (on_fst (modify (\<lambda>h. h\<lparr>hc_ok := hc_ok h + 1\<rparr>))) (\<lambda>_.
           ret (True, Some v)))) s"
    by (simp add: getJSON_def fetch_def)
  have "count_of r (counters (fst s)) (counters (fst t)) \<and> hc_use_ssl (fst t) = hc_use_ssl (fst s)
      \<and> hc_base_url (fst t) = hc_base_url (fst s)
      \<and> conn (snd t) = conn (snd s) \<and> usedCount (snd t) = usedCount (snd s) \<and> poolSize (snd t) = poolSize (snd s)
      \<and> sent (snd t) = sent (snd s)"
  proof (cases r1)
    case (Ret x)
    show ?thesis
    proof (cases x)
      case None
      with assms fetch_run [OF f] Ret f show ?thesis
        by (auto simp: eq prog_simps http_frame_def counters_def count_of_def)
    next
      case (Some resp)
      with assms fetch_run [OF f] Ret f s1 show ?thesis
        by (cases "j_parse J resp")
          (auto simp: eq prog_simps l_warning_def http_frame_def counters_def count_of_def split: prod.splits)
    qed
  qed (use assms fetch_run [OF f] f in \<open>auto simp: eq prog_simps http_frame_def counters_def count_of_def split: prod.splits\<close>)
  then show "count_of r (counters (fst s)) (counters (fst t))"
    "hc_use_ssl (fst t) = hc_use_ssl (fst s)" "hc_base_url (fst t) = hc_base_url (fst s)"
    "conn (snd t) = conn (snd s)" "usedCount (snd t) = usedCount (snd s)" "poolSize (snd t) = poolSize (snd s)"
    "sent (snd t) = sent (snd s)"
    by simp_all
qed

lemma fetch_ok:
  "HttpClient_request A J cfg ''GET'' path s = (Ret x, t) \<Longrightarrow> fetch A J cfg path s = (Ret (Some x), t)"
  by (simp add: fetch_def attempt_run)

lemma getJSON_fetch: "getJSON A J cfg path = bnd (fetch A J cfg path) (\<lambda>resp. case resp of
       None \<Rightarrow> ret (False, None)
     | Some resp \<Rightarrow> (case j_parse J resp of
         None \<Rightarrow>
           bnd (gets (\<lambda>(h, w). hc_base_url h)) (\<lambda>base_url.
           bnd (on_snd (l_warning ''HttpClient::getJSON''
                  (''Json parse failed for url : '' @ base_url @ path))) (\<lambda>_.
           bnd (on_fst (modify (\<lambda>h. h\<lparr>hc_parse := hc_parse h + 1\<rparr>))) (\<lambda>_.
           ret (False, j_broken J resp))))
       | Some v \<Rightarrow>
           bnd (on_fst (modify (\<lambda>h. h\<lparr>hc_ok := hc_ok h + 1\<rparr>))) (\<lambda>_.
           ret (True, Some v))))"
  by (simp add: getJSON_def fetch_def)

lemma getJSON_parsed:
  assumes "fetch A J cfg path s = (Ret (Some x), (h, w))" and "j_parse J x = Some v"
  shows "getJSON A J cfg path s = (Ret (True, Some v), (h\<lparr>hc_ok := hc_ok h + 1\<rparr>, w))"
  using assms by (simp add: getJSON_fetch prog_simps)

lemma getJSON_malformed:
  assumes "fetch A J cfg path s = (Ret (Some x), (h, w))" and "j_parse J x = None"
  shows "\<exists>h' w'. getJSON A J cfg path s = (Ret (False, j_broken J x), (h', w'))"
  using assms by (simp add: getJSON_fetch prog_simps l_defs)

definition fetch_all :: "'db asio \<Rightarrow> 'j json_api \<Rightarrow> 'j \<Rightarrow> string list \<Rightarrow> (http_client \<times> 'db world, unit) prog" where
  "fetch_all A J cfg paths = for_each paths (\<lambda>p. bnd (getJSON A J cfg p) (\<lambda>_. ret ()))"

definition fetches :: "u32 \<times> u32 \<times> u32 \<Rightarrow> nat" where
  "fetches c = (case c of (ok, failed, parse) \<Rightarrow> unat ok + unat failed + unat parse)"

lemma total_count:
  assumes "count_of (Ret x) c c'" and "fetches c < 2 ^ 32 - 1"
  shows "fetches c' = Suc (fetches c)"
proof -
  obtain ok failed parse where c: "c = (ok, failed, parse)" by (metis prod_cases3)
  have inc: "unat (n + 1) = Suc (unat n)" if "unat n < 2 ^ 32 - 1" for n :: u32
    using that by (simp add: unat_word_ariths(1))
  show ?thesis
    using assms by (cases x) (auto simp: c count_of_def fetches_def inc split: bool.splits)
qed

lemma fetch_all_total:
  "fetch_all A J cfg paths s = (Ret (), t) \<Longrightarrow> fetches (counters (fst s)) + length paths < 2 ^ 32 \<Longrightarrow>
     fetches (counters (fst t)) = fetches (counters (fst s)) + length paths"
proof (induction paths arbitrary: s)
  case Nil
  then show ?case by (simp add: fetch_all_def run_simps)
next
  case (Cons p paths)
  obtain r s1 where g: "getJSON A J cfg p s = (r, s1)" by (metis prod.exhaust)
  from Cons.prems(1) g obtain x where r: "r = Ret x" and rest: "fetch_all A J cfg paths s1 = (Ret (), t)"
    by (cases r) (auto simp: fetch_all_def prog_simps bnd_assoc)
  have "fetches (counters (fst s1)) = Suc (fetches (counters (fst s)))"
    using getJSON_run(1) [OF g] Cons.prems(2) by (intro total_count [of x]) (simp_all add: r)
  with Cons.IH [OF rest] Cons.prems(2) show ?case by simp
qed

section \<open>Properties\<close>

text \<open>C26. \<open>getJSON\<close> never lets an exception out, and every call that returns counts exactly once: as
  ok, with the value it read, when it returns true, and as failed or as unparseable when it
  returns false.\<close>

theorem getJSON_counts_once:
  assumes "getJSON A J cfg path s = (r, t)"
  shows "count_of r (counters (fst s)) (counters (fst t)) \<and> (\<forall>e. r \<noteq> Throw e)"
  using getJSON_run(1) [OF assms] by (auto simp: count_of_def split: prod.splits)

definition unreachable :: "(nat \<Rightarrow> string) asio" where
  "unreachable = (pipe 0)\<lparr>a_resolve := (\<lambda>t q d. (Some ''Host not found'', d))\<rparr>"

definition demo_http :: "connection list \<Rightarrow> http_client" where
  "demo_http cs = \<lparr>hc_ok = 0, hc_failed = 0, hc_parse = 0, hc_use_ssl = False, hc_base_url = ''a:80'',
     hc_https = None, hc_http = Some (demo_client cs)\<rparr>"

definition demo_net_world :: "string \<Rightarrow> (nat \<Rightarrow> string) world" where
  "demo_net_world s = \<lparr>srv = (\<lambda>_. s), usedCount = 0, poolSize = 32, conn = (\<lambda>self. False),
     logs = \<lparr>lg_level = 3, lg_file = ''back.log'', lg_opens = True, lg_lines = []\<rparr>, sent = []\<rparr>"

theorem getJSON_counts_once_witness:
  "\<exists>r t. getJSON unreachable jsoncpp JNull ''/x'' (demo_http [], demo_net_world []) = (r, t) \<and> (\<forall>e. r \<noteq> Throw e)"
proof -
  obtain r t where "getJSON unreachable jsoncpp JNull ''/x'' (demo_http [], demo_net_world []) = (r, t)"
    by (metis prod.exhaust)
  with getJSON_counts_once [OF this] show ?thesis by blast
qed

text \<open>The counters add up: after any number of fetches that all returned, \<open>resetCount\<close> hands out
  counters whose sum is the number of fetches since the last reset, and sets them to zero.\<close>

theorem counters_add_up:
  assumes "fetch_all A J cfg paths s = (Ret (), (h, w))" and "counters (fst s) = (0, 0, 0)"
    and "length paths < 2 ^ 32"
  shows "\<exists>ok failed parse h'. resetCount h = (Ret (ok, failed, parse), h')
    \<and> unat ok + unat failed + unat parse = length paths \<and> counters h' = (0, 0, 0)"
  using fetch_all_total [OF assms(1)] assms(2,3)
  by (simp add: fetches_def resetCount_def counters_def)

theorem counters_add_up_witness:
  "\<exists>ok failed parse h'. resetCount (demo_http []) = (Ret (ok, failed, parse), h')
    \<and> unat ok + unat failed + unat parse = 0"
  using counters_add_up [of "pipe 0" jsoncpp JNull "[]" "(demo_http [], demo_net_world [])" "demo_http []" "demo_net_world []"]
  by (auto simp: fetch_all_def run_simps counters_def demo_http_def)

text \<open>TLS is used exactly when the agent asks for it and the three certificate files exist; in
  every other case the object talks plain HTTP, with a warning where TLS was asked for.\<close>

theorem use_ssl_iff:
  assumes "HttpClient_init A J base_url p_use_ssl cfg w = (Ret h, w')"
    and "cfg_string J cfg ''SSL_key'' = Ret key" "cfg_string J cfg ''SSL_cert'' = Ret cert"
      "cfg_string J cfg ''SSL_verify'' = Ret vrf"
  shows "hc_use_ssl h = (p_use_ssl \<and> a_stat A (c_str key) (srv w) \<and> a_stat A (c_str cert) (srv w) \<and> a_stat A (c_str vrf) (srv w))
    \<and> (hc_https h \<noteq> None) = hc_use_ssl h \<and> (hc_http h \<noteq> None) = (\<not> hc_use_ssl h)
    \<and> (p_use_ssl \<and> \<not> hc_use_ssl h \<longrightarrow> logs w' = log_warning (logs w) ''HttpClient::HttpClient''
         ''Requiered certificate files not found, trying http instead'')"
  using assms
  by (cases "http_client_init base_url")
    (auto simp: HttpClient_init_def certificates_exist_def prog_simps l_warning_def outside_def bnd_Ret_iff
      split: if_splits prod.splits)

theorem use_ssl_iff_witness:
  "\<exists>h w'. HttpClient_init (pipe 0) jsoncpp ''localhost'' True JNull (demo_net_world []) = (Ret h, w')
    \<and> \<not> hc_use_ssl h \<and> hc_http h \<noteq> None"
proof -
  have str: "cfg_string jsoncpp JNull k = Ret []" for k by (simp add: cfg_string_def)
  have missing: "\<not> a_stat (pipe 0) p d" for p d by (simp add: pipe_def)
  then have cert: "\<not> certificates_exist (pipe 0) key cert vrf d" for key cert vrf d
    by (simp add: certificates_exist_def)
  have "str_find ''localhost'' (CHR '':'') = npos" by (rule str_find_none) simp
  then have "\<exists>c. http_client_init ''localhost'' = Ret c"
    by (simp add: http_client_init_def new_client_def parse_host_port_def)
  then obtain h w' where "HttpClient_init (pipe 0) jsoncpp ''localhost'' True JNull (demo_net_world []) = (Ret h, w')"
    by (auto simp: HttpClient_init_def prog_simps bnd_assoc str cert l_warning_def)
  with use_ssl_iff [OF this str str str] missing show ?thesis by blast
qed

text \<open>C11. Over plain HTTP on an idle open connection, \<open>getJSON\<close> delivers the document the agent sends:
  whatever pieces the bytes arrive in, the result is the value the body parses to, counted as ok.\<close>

theorem getJSON_delivers:
  assumes "\<not> hc_use_ssl h" and "hc_http h = Some cl" and "asio_stream A incoming"
    and "connections cl = [c]" "\<not> in_use c" "is_open c" "timeout (c_config c) = 0"
    and "a_write A None (c_sock c) (request_text cl ''GET'' path [] []) (srv w) = (None, d1)"
    and "good_head v st hs" and "incoming (c_sock c) d1 = head_text v st hs @ wire"
    and "framed (a_chunks A) v hs wire body" and "j_parse J body = Some x"
  shows "\<exists>h' w'. getJSON A J cfg path (h, w) = (Ret (True, Some x), (h', w'))
    \<and> counters h' = (hc_ok h + 1, hc_failed h, hc_parse h) \<and> logs w' = logs w"
proof -
  obtain c' d' where "sws_request A ''GET'' path [] [] (cl, srv w) = (Ret body, (cl\<lparr>connections := [c']\<rparr>, d'))"
    using sws_request_body [OF assms(3-11)] by blast
  with assms(1,2) have "HttpClient_request A J cfg ''GET'' path (h, w)
      = (Ret body, (h\<lparr>hc_http := Some (cl\<lparr>connections := [c']\<rparr>)\<rparr>, w\<lparr>srv := d'\<rparr>))"
    by (simp add: HttpClient_request_def bnd_gets http_request_def)
  from getJSON_parsed [OF fetch_ok [OF this] assms(12)] show ?thesis by (simp add: counters_def)
qed

theorem getJSON_delivers_witness:
  "\<exists>h' w'. getJSON (pipe 2) jsoncpp JNull ''/x'' (demo_http [demo_connection],
      demo_net_world (head_text ''1.1'' ''200 OK'' [(''content-length'', ''2'')] @ ''{}'')) = (Ret (True, Some (JObj [])), (h', w'))"
proof -
  have "dec (length ''{}'') = ''2''" by (simp add: dec.simps digit_def char_eval)
  moreover have "case_insensitive_equal ''Content-Length'' ''content-length''"
    by (simp add: case_insensitive_equal_def tolower_def char_eval)
  ultimately have framed: "framed 1000 ''1.1'' [(''content-length'', ''2'')] ''{}'' ''{}''"
    by (simp add: framed_def)
  have head: "good_head ''1.1'' ''200 OK'' [(''content-length'', ''2'')]"
    by (simp add: good_head_def good_header_def npos_def)
  show ?thesis
    using getJSON_delivers [of "demo_http [demo_connection]" "demo_client [demo_connection]" "pipe 2" "\<lambda>s d. d s" demo_connection
      "''/x''" "demo_net_world (head_text ''1.1'' ''200 OK'' [(''content-length'', ''2'')] @ ''{}'')"
      "\<lambda>s. head_text ''1.1'' ''200 OK'' [(''content-length'', ''2'')] @ ''{}''" "''1.1''" "''200 OK''"
      "[(''content-length'', ''2'')]" "''{}''" "''{}''" jsoncpp "JObj []" JNull] pipe.asio_stream_axioms [of 2] framed head
    by (auto simp: demo_http_def demo_client_def demo_connection_def default_config_def demo_net_world_def json_parse_def pipe_fields)
qed

text \<open>Fetching two characters from the example server, for the examples of other theories.\<close>

lemma demo_fetch:
  assumes "length body = 2"
  shows "\<exists>h' w'. fetch (pipe 2) J cfg path (demo_http [demo_connection],
      demo_net_world (head_text ''1.1'' ''200 OK'' [(''content-length'', ''2'')] @ body)) = (Ret (Some body), (h', w'))"
proof -
  let ?d = "\<lambda>s :: nat. head_text ''1.1'' ''200 OK'' [(''content-length'', ''2'')] @ body"
  let ?cl = "demo_client [demo_connection]"
  have "dec (length body) = ''2''" using assms by (simp add: dec.simps digit_def char_eval)
  moreover have "case_insensitive_equal ''Content-Length'' ''content-length''"
    by (simp add: case_insensitive_equal_def tolower_def char_eval)
  ultimately have framed: "framed (a_chunks (pipe 2)) ''1.1'' [(''content-length'', ''2'')] body body"
    using assms by (simp add: framed_def)
  have head: "good_head ''1.1'' ''200 OK'' [(''content-length'', ''2'')]"
    by (simp add: good_head_def good_header_def npos_def)
  obtain c' d' where "sws_request (pipe 2) ''GET'' path [] [] (?cl, ?d) = (Ret body, (?cl\<lparr>connections := [c']\<rparr>, d'))"
    using sws_request_body [OF pipe.asio_stream_axioms [of 2], of ?cl demo_connection "''GET''" path ?d ?d "''1.1''"
      "''200 OK''" "[(''content-length'', ''2'')]" body body] head framed
    by (auto simp: demo_client_def demo_connection_def default_config_def pipe_fields)
  then have "HttpClient_request (pipe 2) J cfg ''GET'' path (demo_http [demo_connection], demo_net_world (?d 0))
      = (Ret body, ((demo_http [demo_connection])\<lparr>hc_http := Some (?cl\<lparr>connections := [c']\<rparr>)\<rparr>, (demo_net_world (?d 0))\<lparr>srv := d'\<rparr>))"
    by (simp add: HttpClient_request_def bnd_gets http_request_def demo_http_def demo_net_world_def)
  from fetch_ok [OF this] show ?thesis by blast
qed

end
