(* ===== verification/Schema.thy ===== *)
theory Schema
  imports DbTools
begin

text \<open>
  The tables of \<open>sql/schema.sql\<close> that the get-or-create functions fill, with the meaning of the
  statements \<open>src/dbTools.cpp\<close> sends to them: auto-incremented ids, unique indexes, the 256
  characters of the name columns and the reference from \<open>s$services\<close> to \<open>h$hosts\<close>. Names compare
  under the collation of the database, an arbitrary function \<open>collate\<close> that maps a name to what is
  compared, so that case-insensitive and binary collations are covered alike. Statements this
  theory does not know fail.
\<close>

section \<open>Tables\<close>

datatype table = Hosts | Services | EventTypes | Types | Backends | Properties

record schema_db =
  collate :: "string \<Rightarrow> string"
  rows :: "table \<Rightarrow> (nat \<times> sqlval list) list"
  auto :: "table \<Rightarrow> nat"

text \<open>
  A row is its id and its unique columns: \<open>name\<close> of \<open>h$hosts\<close>, \<open>c$event_types\<close>, \<open>s$types\<close> and
  \<open>c$properties\<close>, \<open>(host_id, name)\<close> of \<open>s$services\<close>, \<open>(hostname, filename)\<close> of \<open>b$backend\<close>.
\<close>

fun compared :: "(string \<Rightarrow> string) \<Rightarrow> sqlval \<Rightarrow> sqlval" where
  "compared c (VStr s) = VStr (c s)"
| "compared c v = v"

fun lower :: "sqlval \<Rightarrow> sqlval" where
  "lower (VStr s) = VStr (map tolower s)"
| "lower v = v"

definition same_key :: "schema_db \<Rightarrow> (sqlval \<Rightarrow> sqlval) \<Rightarrow> sqlval list \<Rightarrow> sqlval list \<Rightarrow> bool" where
  "same_key d f r k \<longleftrightarrow> map (\<lambda>v. compared (collate d) (f v)) r = map (\<lambda>v. compared (collate d) (f v)) k"

text \<open>\<open>where f(column) = f(value)\<close> on the unique columns, \<open>f\<close> being \<open>lower\<close> or nothing.\<close>

definition matching :: "schema_db \<Rightarrow> table \<Rightarrow> (sqlval \<Rightarrow> sqlval) \<Rightarrow> sqlval list \<Rightarrow> (nat \<times> sqlval list) list" where
  "matching d t f k = filter (\<lambda>(i, r). same_key d f r k) (rows d t)"

definition select_count :: "schema_db \<Rightarrow> table \<Rightarrow> (sqlval \<Rightarrow> sqlval) \<Rightarrow> sqlval list \<Rightarrow> store_res \<times> schema_db" where
  "select_count d t f k = (Rows [[dec (length (matching d t f k))]], d)"

definition select_id :: "schema_db \<Rightarrow> table \<Rightarrow> (sqlval \<Rightarrow> sqlval) \<Rightarrow> sqlval list \<Rightarrow> store_res \<times> schema_db" where
  "select_id d t f k = (Rows (map (\<lambda>(i, r). [dec i]) (matching d t f k)), d)"

definition key_of :: "schema_db \<Rightarrow> table \<Rightarrow> (sqlval \<Rightarrow> sqlval) \<Rightarrow> sqlval list \<Rightarrow> nat option" where
  "key_of d t f k = (case matching d t f k of [] \<Rightarrow> None | (i, _) # _ \<Rightarrow> Some i)"

fun fits :: "sqlval \<Rightarrow> bool" where
  "fits (VStr s) \<longleftrightarrow> length s \<le> 256"
| "fits v \<longleftrightarrow> True"

definition add_row :: "table \<Rightarrow> sqlval list \<Rightarrow> schema_db \<Rightarrow> schema_db" where
  "add_row t k d = d\<lparr>rows := (rows d)(t := rows d t @ [(auto d t, k)]),
     auto := (auto d)(t := Suc (auto d t))\<rparr>"

fun references_host :: "schema_db \<Rightarrow> sqlval list \<Rightarrow> bool" where
  "references_host d (VInt h # _) \<longleftrightarrow> h \<in> int ` fst ` set (rows d Hosts)"
| "references_host d _ \<longleftrightarrow> False"

text \<open>
  An insert fails on a value that does not fit its column (strict mode), on a duplicate of the
  unique index, on a missing host of a service, and when the 32-bit counter is used up.
\<close>

definition insert_allowed :: "table \<Rightarrow> sqlval list \<Rightarrow> schema_db \<Rightarrow> bool" where
  "insert_allowed t k d \<longleftrightarrow> list_all fits k \<and> matching d t id k = []
     \<and> (t = Services \<longrightarrow> references_host d k) \<and> auto d t < 2 ^ 32"

definition insert_row :: "table \<Rightarrow> sqlval list \<Rightarrow> schema_db \<Rightarrow> exec_res \<times> schema_db" where
  "insert_row t k d = (if insert_allowed t k d then (ExecOk, add_row t k d) else (ExecBadQuery, d))"

definition par :: "(string \<times> sqlval) list \<Rightarrow> string \<Rightarrow> sqlval" where
  "par ps k = (case map_of ps k of None \<Rightarrow> VStr [] | Some v \<Rightarrow> v)"

section \<open>Statements\<close>

fun schema_store :: "query \<Rightarrow> schema_db \<Rightarrow> store_res \<times> schema_db" where
  "schema_store (Query t ps) d =
    (if t = ''select count(*) from h$hosts where name=%0q:h'' then
       select_count d Hosts id [par ps ''h'']
     else if t = ''select id from h$hosts where name=%0q:h'' then
       select_id d Hosts id [par ps ''h'']
     else if t = ''select count(*) from s$services where host_id=%0:id and name=%1q:na'' then
       select_count d Services id [par ps ''id'', par ps ''na'']
     else if t = ''select id from s$services where host_id=%0:id and name=%1q:na'' then
       select_id d Services id [par ps ''id'', par ps ''na'']
     else if t = ''select count(*) from c$event_types where lower(name)=lower(%0q:t)'' then
       select_count d EventTypes lower [par ps ''t'']
     else if t = ''select id from c$event_types where lower(name)=lower(%0q:t)'' then
       select_id d EventTypes lower [par ps ''t'']
     else if t = ''select count(*) from s$types where name=%0q:t'' then
       select_count d Types id [par ps ''t'']
     else if t = ''select id from s$types where name=%0q:t'' then
       select_id d Types id [par ps ''t'']
     else if t = ''select count(*) from b$backend where hostname=%0q:h and filename=%1q:f'' then
       select_count d Backends id [par ps ''h'', par ps ''f'']
     else if t = ''select id from b$backend where hostname=%0q:h and filename=%1q:f'' then
       select_id d Backends id [par ps ''h'', par ps ''f'']
     else (StoreBadQuery, d))"

fun schema_exec :: "query \<Rightarrow> schema_db \<Rightarrow> exec_res \<times> schema_db" where
  "schema_exec (Query t ps) d =
    (if t = ''insert into h$hosts(name) values(%0q:h)'' then
       insert_row Hosts [par ps ''h''] d
     else if t = ''insert into s$services(host_id,name) values(%0:id, %1q:na)'' then
       insert_row Services [par ps ''id'', par ps ''na''] d
     else if t = ''insert into c$event_types(name) values(%0q:t)'' then
       insert_row EventTypes [par ps ''t''] d
     else if t = ''insert into s$types(name) values(%0q:t)'' then
       insert_row Types [par ps ''t''] d
     else if t = ''insert into b$backend(hostname,filename) values(%0q:h,%1q:f)'' then
       insert_row Backends [par ps ''h'', par ps ''f''] d
     else (ExecBadQuery, d))"

text \<open>\<open>int(row[0])\<close> of the decimal text of a number that fits a C++ \<open>int\<close>.\<close>

definition text_int :: "string \<Rightarrow> int option" where
  "text_int s = (if s \<noteq> [] \<and> list_all is_digit s \<and> undec s < 2 ^ 31 then Some (int (undec s)) else None)"

definition schema_mysql :: "schema_db mysql" where
  "schema_mysql = \<lparr>my_store = schema_store, my_exec = schema_exec, my_insert_id = (\<lambda>d. 0),
     my_error = (\<lambda>d. []), my_str = q_text, my_grab = (\<lambda>d. ((0, Connected), d)),
     my_int = text_int, my_u32 = (\<lambda>s. map_option of_int (text_int s)), my_double = (\<lambda>s. None)\<rparr>"

section \<open>What the tables always satisfy\<close>

text \<open>
  Ids are distinct and below the counter, the counter is within the ids \<open>int(row[0])\<close> can read, and
  names the collation does not distinguish are not distinguished once in lower case.
\<close>

definition collation_ok :: "(string \<Rightarrow> string) \<Rightarrow> bool" where
  "collation_ok c \<longleftrightarrow> (\<forall>a b. c a = c b \<longrightarrow> c (map tolower a) = c (map tolower b))"

definition table_ok :: "schema_db \<Rightarrow> table \<Rightarrow> bool" where
  "table_ok d t \<longleftrightarrow> distinct (map fst (rows d t)) \<and> (\<forall>r \<in> set (rows d t). fst r < auto d t)
     \<and> auto d t < 2 ^ 31"

definition schema_inv :: "schema_db \<Rightarrow> bool" where
  "schema_inv d \<longleftrightarrow> (\<forall>t. table_ok d t) \<and> collation_ok (collate d)"

text \<open>An insert of a key that is not there succeeds, and the counter stays in range.\<close>

definition has_room :: "table \<Rightarrow> sqlval list \<Rightarrow> schema_db \<Rightarrow> bool" where
  "has_room t k d \<longleftrightarrow> list_all fits k \<and> (t = Services \<longrightarrow> references_host d k) \<and> Suc (auto d t) < 2 ^ 31"

lemma schema_fields [simp]:
  "my_store schema_mysql = schema_store" "my_exec schema_mysql = schema_exec"
  "my_int schema_mysql = text_int" "my_grab schema_mysql d = ((0, Connected), d)"
  by (simp_all add: schema_mysql_def)

lemma text_int_dec: "n < 2 ^ 31 \<Longrightarrow> text_int (dec n) = Some (int n)"
  by (simp add: text_int_def dec_digits)

lemma length_rows_bound:
  assumes "schema_inv d"
  shows "length (rows d t) < 2 ^ 31"
proof -
  have dist: "distinct (map fst (rows d t))" and sub: "fst ` set (rows d t) \<subseteq> {..<auto d t}"
    and bound: "auto d t < 2 ^ 31"
    using assms by (auto simp: schema_inv_def table_ok_def)
  have "length (rows d t) = card (fst ` set (rows d t))"
    using distinct_card [OF dist] by simp
  also have "\<dots> \<le> auto d t" using card_mono [OF _ sub] by simp
  finally show ?thesis using bound by simp
qed

lemma count_bound: "schema_inv d \<Longrightarrow> length (matching d t f k) < 2 ^ 31"
  using length_rows_bound [of d t] length_filter_le [of _ "rows d t"]
  by (metis (no_types, lifting) le_less_trans matching_def)

lemma key_of_None: "key_of d t f k = None \<longleftrightarrow> matching d t f k = []"
  by (auto simp: key_of_def split: list.splits)

lemma key_of_member: "key_of d t f k = Some i \<Longrightarrow> \<exists>r. (i, r) \<in> set (rows d t) \<and> same_key d f r k"
proof -
  assume "key_of d t f k = Some i"
  then obtain r ms where "matching d t f k = (i, r) # ms"
    by (auto simp: key_of_def split: list.splits)
  then have "(i, r) \<in> set (matching d t f k)" by simp
  then show ?thesis by (auto simp: matching_def)
qed

lemma key_of_bound: "schema_inv d \<Longrightarrow> key_of d t f k = Some i \<Longrightarrow> i < auto d t \<and> i < 2 ^ 31"
  using key_of_member [of d t f k i] by (fastforce simp: schema_inv_def table_ok_def)

lemma add_row_fields [simp]:
  "collate (add_row t k d) = collate d"
  "rows (add_row t k d) u = (if u = t then rows d t @ [(auto d t, k)] else rows d u)"
  "auto (add_row t k d) u = (if u = t then Suc (auto d t) else auto d u)"
  by (simp_all add: add_row_def)

lemma same_key_add [simp]: "same_key (add_row t k d) f = same_key d f"
  by (simp add: same_key_def fun_eq_iff)

lemma same_key_refl [simp]: "same_key d f k k"
  by (simp add: same_key_def)

lemma matching_add: "matching (add_row t k d) t f k' =
    matching d t f k' @ (if same_key d f k k' then [(auto d t, k)] else [])"
  by (simp add: matching_def)

lemma schema_inv_add: "schema_inv d \<Longrightarrow> has_room t k d \<Longrightarrow> schema_inv (add_row t k d)"
proof -
  assume inv: "schema_inv d" and room: "has_room t k d"
  have ok: "table_ok d t'" for t' using inv by (simp add: schema_inv_def)
  have new: "auto d t \<notin> fst ` set (rows d t)" using ok [of t] by (auto simp: table_ok_def)
  have "table_ok (add_row t k d) u" for u
    using ok [of u] ok [of t] new room
    by (cases "u = t") (auto simp: table_ok_def has_room_def less_Suc_eq)
  with inv show ?thesis by (simp add: schema_inv_def)
qed

text \<open>A key absent up to lower case is absent as it stands, so the unique index allows it.\<close>

lemma map_eq_coarser:
  assumes "\<And>a b. g a = g b \<Longrightarrow> h a = h b" and "map g xs = map g ys"
  shows "map h xs = map h ys"
proof (rule nth_equalityI)
  show len: "length (map h xs) = length (map h ys)"
    using assms(2) by (metis length_map)
  fix i
  assume "i < length (map h xs)"
  then have "i < length xs" and "i < length ys" using len by simp_all
  then have "g (xs ! i) = g (ys ! i)"
    using assms(2) by (metis nth_map)
  then have "h (xs ! i) = h (ys ! i)" by (rule assms(1))
  then show "map h xs ! i = map h ys ! i"
    using \<open>i < length xs\<close> \<open>i < length ys\<close> by simp
qed

lemma same_key_lower:
  assumes "schema_inv d" and "same_key d id r k"
  shows "same_key d lower r k"
proof -
  have coll: "collate d (map tolower x) = collate d (map tolower y)" if "collate d x = collate d y" for x y
    using assms(1) that unfolding schema_inv_def collation_ok_def by blast
  have "compared (collate d) (lower a) = compared (collate d) (lower b)"
    if "compared (collate d) (id a) = compared (collate d) (id b)" for a b
    using that by (cases a; cases b) (auto dest: coll)
  then show ?thesis
    using assms(2) unfolding same_key_def by (rule map_eq_coarser)
qed

lemma insert_row_ok:
  assumes "schema_inv d" and "has_room t k d" and "key_of d t f k = None" and "f = id \<or> f = lower"
  shows "insert_row t k d = (ExecOk, add_row t k d)"
proof -
  have "matching d t f k = []" using assms(3) by (simp add: key_of_None)
  then have none: "\<not> same_key d f r k" if "(i, r) \<in> set (rows d t)" for i r
    using that by (auto simp: matching_def filter_empty_conv)
  have "matching d t id k = []"
    using none assms(4) same_key_lower [OF assms(1)] by (auto simp: matching_def filter_empty_conv)
  then show ?thesis using assms(2) by (simp add: insert_row_def insert_allowed_def has_room_def)
qed

lemma key_of_add_new:
  assumes "schema_inv d" and "key_of d t f k = None"
  shows "key_of (add_row t k d) t f k = Some (auto d t)" "key_of d t f k' \<noteq> Some (auto d t)"
proof -
  show "key_of (add_row t k d) t f k = Some (auto d t)"
    using assms(2) by (simp add: key_of_None) (simp add: key_of_def matching_add)
  show "key_of d t f k' \<noteq> Some (auto d t)"
    using key_of_bound [OF assms(1), of t f k' "auto d t"] by blast
qed

lemma key_of_add_other:
  assumes "key_of d t f k' = Some j"
  shows "key_of (add_row t k d) t f k' = Some j"
proof -
  obtain r ms where "matching d t f k' = (j, r) # ms"
    using assms by (auto simp: key_of_def split: list.splits)
  then show ?thesis by (simp add: key_of_def matching_add)
qed

section \<open>The tables keep the contract of get-or-create\<close>

lemma keyed_table_schema:
  assumes count: "\<And>k d. schema_store (cq k) d = select_count d t f (kf k)"
    and sel: "\<And>k d. schema_store (sq k) d = select_id d t f (kf k)"
    and ins: "\<And>k d. schema_exec (iq k) d = insert_row t (kf k) d"
    and f: "f = id \<or> f = lower"
  shows "keyed_table schema_mysql cq iq sq schema_inv (\<lambda>d k. key_of d t f (kf k))
    (\<lambda>k. add_row t (kf k)) (\<lambda>k. has_room t (kf k))"
proof unfold_locales
  fix d k
  assume inv: "schema_inv d"
  show "\<exists>s n. my_store schema_mysql (cq k) d = (Rows [[s]], d) \<and> my_int schema_mysql s = Some n
      \<and> (0 < n \<longleftrightarrow> key_of d t f (kf k) \<noteq> None)"
    using text_int_dec [OF count_bound [OF inv]]
    by (simp add: count select_count_def key_of_None)
next
  fix d k i
  assume inv: "schema_inv d" and i: "key_of d t f (kf k) = Some i"
  then obtain r ms where "matching d t f (kf k) = (i, r) # ms"
    by (auto simp: key_of_def split: list.splits)
  then show "\<exists>s rs. my_store schema_mysql (sq k) d = (Rows ([s] # rs), d) \<and> my_int schema_mysql s = Some (int i)"
    using key_of_bound [OF inv i] by (simp add: sel select_id_def text_int_dec)
next
  fix d k
  assume inv: "schema_inv d" and room: "has_room t (kf k) d" and none: "key_of d t f (kf k) = None"
  show "my_exec schema_mysql (iq k) d = (ExecOk, add_row t (kf k) d)"
    using insert_row_ok [OF inv room none f] by (simp add: ins)
  show "schema_inv (add_row t (kf k) d)" using inv room by (rule schema_inv_add)
  show "\<exists>i. key_of (add_row t (kf k) d) t f (kf k) = Some i \<and> (\<forall>k'. key_of d t f (kf k') \<noteq> Some i)"
    using key_of_add_new [OF inv none] by blast
next
  fix d k k' j
  assume "key_of d t f (kf k') = Some j"
  then show "key_of (add_row t (kf k) d) t f (kf k') = Some j" by (rule key_of_add_other)
next
  fix d k i
  assume "schema_inv d" and "key_of d t f (kf k) = Some i"
  then show "i < 2 ^ 31" by (blast dest: key_of_bound)
qed

interpretation hosts_table: keyed_table schema_mysql
  "\<lambda>p. Query ''select count(*) from h$hosts where name=%0q:h'' [(''h'', v_str p)]"
  "\<lambda>p. Query ''insert into h$hosts(name) values(%0q:h)'' [(''h'', v_str p)]"
  "\<lambda>p. Query ''select id from h$hosts where name=%0q:h'' [(''h'', v_str p)]"
  schema_inv
  "\<lambda>d k. key_of d Hosts id [v_str k]"
  "\<lambda>k. add_row Hosts [v_str k]"
  "\<lambda>k. has_room Hosts [v_str k]"
  by (rule keyed_table_schema) (simp_all add: par_def split: prod.split)

interpretation services_table: keyed_table schema_mysql
  "\<lambda>(h, p). Query ''select count(*) from s$services where host_id=%0:id and name=%1q:na'' [(''id'', v_u32 h), (''na'', v_str p)]"
  "\<lambda>(h, p). Query ''insert into s$services(host_id,name) values(%0:id, %1q:na)'' [(''id'', v_u32 h), (''na'', v_str p)]"
  "\<lambda>(h, p). Query ''select id from s$services where host_id=%0:id and name=%1q:na'' [(''id'', v_u32 h), (''na'', v_str p)]"
  schema_inv
  "\<lambda>d k. key_of d Services id (case k of (h, p) \<Rightarrow> [v_u32 h, v_str p])"
  "\<lambda>k. add_row Services (case k of (h, p) \<Rightarrow> [v_u32 h, v_str p])"
  "\<lambda>k. has_room Services (case k of (h, p) \<Rightarrow> [v_u32 h, v_str p])"
  by (rule keyed_table_schema) (simp_all add: par_def split: prod.split)

interpretation event_types_table: keyed_table schema_mysql
  "\<lambda>p. Query ''select count(*) from c$event_types where lower(name)=lower(%0q:t)'' [(''t'', v_str p)]"
  "\<lambda>p. Query ''insert into c$event_types(name) values(%0q:t)'' [(''t'', v_str p)]"
  "\<lambda>p. Query ''select id from c$event_types where lower(name)=lower(%0q:t)'' [(''t'', v_str p)]"
  schema_inv
  "\<lambda>d k. key_of d EventTypes lower [v_str k]"
  "\<lambda>k. add_row EventTypes [v_str k]"
  "\<lambda>k. has_room EventTypes [v_str k]"
  by (rule keyed_table_schema) (simp_all add: par_def split: prod.split)

interpretation types_table: keyed_table schema_mysql
  "\<lambda>p. Query ''select count(*) from s$types where name=%0q:t'' [(''t'', v_str p)]"
  "\<lambda>p. Query ''insert into s$types(name) values(%0q:t)'' [(''t'', v_str p)]"
  "\<lambda>p. Query ''select id from s$types where name=%0q:t'' [(''t'', v_str p)]"
  schema_inv
  "\<lambda>d k. key_of d Types id [v_str k]"
  "\<lambda>k. add_row Types [v_str k]"
  "\<lambda>k. has_room Types [v_str k]"
  by (rule keyed_table_schema) (simp_all add: par_def split: prod.split)

interpretation backends_table: keyed_table schema_mysql
  "\<lambda>(m, c). Query ''select count(*) from b$backend where hostname=%0q:h and filename=%1q:f'' [(''h'', v_str m), (''f'', v_str c)]"
  "\<lambda>(m, c). Query ''insert into b$backend(hostname,filename) values(%0q:h,%1q:f)'' [(''h'', v_str m), (''f'', v_str c)]"
  "\<lambda>(m, c). Query ''select id from b$backend where hostname=%0q:h and filename=%1q:f'' [(''h'', v_str m), (''f'', v_str c)]"
  schema_inv
  "\<lambda>d k. key_of d Backends id (case k of (m, c) \<Rightarrow> [v_str m, v_str c])"
  "\<lambda>k. add_row Backends (case k of (m, c) \<Rightarrow> [v_str m, v_str c])"
  "\<lambda>k. has_room Backends (case k of (m, c) \<Rightarrow> [v_str m, v_str c])"
  by (rule keyed_table_schema) (simp_all add: par_def split: prod.split)

lemma unat_u32_id: "i < 2 ^ 31 \<Longrightarrow> unat (of_nat i :: u32) = i"
  by (simp add: unsigned_of_nat take_bit_nat_eq_self)

lemma of_nat_u32_eq:
  assumes "i < 2 ^ 31" and "j < 2 ^ 31"
  shows "(of_nat i :: u32) = of_nat j \<longleftrightarrow> i = j"
  using unat_u32_id [OF assms(1)] unat_u32_id [OF assms(2)] by metis

text \<open>A table an operation does not insert into keeps its keys.\<close>

lemma key_of_add_elsewhere: "u \<noteq> t \<Longrightarrow> key_of (add_row t k d) u f k' = key_of d u f k'"
  by (simp add: key_of_def matching_def)

text \<open>When the insert was refused, nothing matches the final query, and its first row is read anyway.\<close>

lemma get_or_create_refused:
  assumes "conn w self" and "my_store B cq (srv w) = (Rows [[s]], srv w)" and "my_int B s = Some 0"
    and "my_exec B iq (srv w) = (r, srv w)"
    and "my_store B sq (srv w) = (Rows [], srv w)"
  shows "fst (get_or_create B self from (have_row B self from' cq m1) iq m2 sq m3 w) = Undef"
proof -
  have eq: "w\<lparr>srv := srv w\<rparr> = w" by simp
  have have_no: "have_row B self from' cq m1 w = (Ret False, w)"
    using have_row_held [OF assms(1,2,3)] by (simp add: eq)
  obtain w' where w': "myqExec B iq from m2 w = (Ret (), w')" "srv w' = srv w"
    using myqExec_returns [of B iq "from" m2 w] assms(4) by auto
  have "my_store B sq (srv w') = (Rows [], srv w)" using assms(5) w' by simp
  then have "ask B sq from m3 (row_id B) (ret 0) w' = (Undef, w'\<lparr>srv := srv w\<rparr>)"
    by (rule ask_rows_undef) simp
  with assms(1) have_no w' show ?thesis
    by (simp add: get_or_create_def with_conn_held bnd_def)
qed

lemma dec_0: "dec 0 = ''0''"
  by code_simp

lemma refused_insert:
  assumes "matching d t id k = []" and "\<not> insert_allowed t k d"
  shows "select_count d t id k = (Rows [[''0'']], d)" "select_id d t id k = (Rows [], d)"
    "insert_row t k d = (ExecBadQuery, d)"
  using assms by (simp_all add: select_count_def select_id_def insert_row_def dec_0)

text \<open>Ids are distinct, so an id belongs to one key only.\<close>

lemma key_of_inj:
  assumes "schema_inv d" and "key_of d t f k = Some i" and "key_of d t f k' = Some i"
  shows "same_key d f k k'"
proof -
  have dist: "distinct (map fst (rows d t))" using assms(1) by (simp add: schema_inv_def table_ok_def)
  obtain r where r: "(i, r) \<in> set (rows d t)" "same_key d f r k"
    using key_of_member [OF assms(2)] by blast
  obtain r' where r': "(i, r') \<in> set (rows d t)" "same_key d f r' k'"
    using key_of_member [OF assms(3)] by blast
  have "r = r'" using eq_key_imp_eq_value [OF dist r(1) r'(1)] .
  with r(2) r'(2) show ?thesis by (simp add: same_key_def)
qed

lemma key_of_same_key: "same_key d f k k' \<Longrightarrow> key_of d t f k = key_of d t f k'"
  by (simp add: key_of_def matching_def same_key_def)

lemma has_room_mono: "has_room t k d \<Longrightarrow> auto d' t \<le> auto d t \<Longrightarrow> t \<noteq> Services \<Longrightarrow> has_room t k d'"
  by (simp add: has_room_def)

section \<open>Properties\<close>

text \<open>A start state for the examples: the freshly created tables.\<close>

definition empty_schema :: schema_db where
  "empty_schema = \<lparr>collate = map tolower, rows = (\<lambda>t. []), auto = (\<lambda>t. 1)\<rparr>"

lemma empty_schema_inv [simp]: "schema_inv empty_schema"
  by (simp add: schema_inv_def table_ok_def collation_ok_def empty_schema_def)

lemma empty_schema_simps [simp]: "collate empty_schema = map tolower" "auto empty_schema t = 1"
  by (simp_all add: empty_schema_def)

lemma empty_schema_key [simp]: "key_of empty_schema t f k = None"
  by (simp add: key_of_def matching_def empty_schema_def)

lemma empty_schema_room: "list_all fits k \<Longrightarrow> t \<noteq> Services \<Longrightarrow> has_room t k empty_schema"
  by (simp add: has_room_def empty_schema_def)

text \<open>C7. \<open>getHost\<close> returns the id of the host with the given name. If there was none it creates
  exactly one row for it; the ids of the other hosts, the other tables and everything else in the
  state stay as they were.\<close>

theorem getHost_correct:
  assumes "conn w self" and "schema_inv (srv w)"
    and "key_of (srv w) Hosts id [v_str n] \<noteq> None \<or> has_room Hosts [v_str n] (srv w)"
  shows "\<exists>i d. getHost schema_mysql self n w = (Ret (of_nat i), w\<lparr>srv := d\<rparr>)
    \<and> schema_inv d \<and> i < 2 ^ 31 \<and> key_of d Hosts id [v_str n] = Some i
    \<and> (\<forall>m j. key_of (srv w) Hosts id [v_str m] = Some j \<longrightarrow> key_of d Hosts id [v_str m] = Some j)
    \<and> (if key_of (srv w) Hosts id [v_str n] = None
       then d = add_row Hosts [v_str n] (srv w) else d = srv w)"
  unfolding getHost_def haveHost_def
  using hosts_table.get_or_create_run [OF assms] by blast

theorem getHost_correct_witness:
  "\<exists>i d. getHost schema_mysql Alerting ''web1'' (demo_world empty_schema) =
      (Ret (of_nat i), (demo_world empty_schema)\<lparr>srv := d\<rparr>)
    \<and> key_of d Hosts id [v_str ''web1''] = Some i
    \<and> d = add_row Hosts [v_str ''web1''] empty_schema"
  using getHost_correct [of "demo_world empty_schema" Alerting "''web1''"]
  by (auto simp: empty_schema_room v_str_def c_str_def)

text \<open>\<open>getService\<close> is idempotent: once it has returned an id for a service of a host, a second
  call, by whatever object, returns the same id and changes nothing at all.\<close>

theorem getService_idempotent:
  assumes "conn w self" and "conn w other" and "schema_inv (srv w)"
    and "key_of (srv w) Services id [v_u32 h, v_str n] \<noteq> None
         \<or> has_room Services [v_u32 h, v_str n] (srv w)"
  shows "\<exists>i w'. getService schema_mysql self h n w = (Ret i, w')
    \<and> getService schema_mysql other h n w' = (Ret i, w')"
proof -
  obtain i d where run: "getService schema_mysql self h n w = (Ret (of_nat i), w\<lparr>srv := d\<rparr>)"
    and inv: "schema_inv d" and key: "key_of d Services id [v_u32 h, v_str n] = Some i"
    using services_table.get_or_create_run [OF assms(1,3), of "(h, n)", unfolded prod.case, OF assms(4)]
    unfolding getService_def haveService_def by blast
  have "getService schema_mysql other h n (w\<lparr>srv := d\<rparr>) = (Ret (of_nat i), w\<lparr>srv := d\<rparr>)"
    using services_table.get_or_create_found [of "w\<lparr>srv := d\<rparr>" other "(h, n)" i] assms(2) inv key
    unfolding getService_def haveService_def by simp
  with run show ?thesis by blast
qed

definition one_host :: schema_db where
  "one_host = add_row Hosts [v_str ''web1''] empty_schema"

lemma one_host_simps [simp]: "schema_inv one_host" "collate one_host = map tolower"
proof -
  have "has_room Hosts [v_str ''web1''] empty_schema"
    by (rule empty_schema_room) (simp_all add: v_str_def c_str_def)
  then show "schema_inv one_host" unfolding one_host_def by (rule schema_inv_add [OF empty_schema_inv])
  show "collate one_host = map tolower" by (simp add: one_host_def)
qed

lemma one_host_room: "length n \<le> 256 \<Longrightarrow> has_room Services [v_u32 1, VStr n] one_host"
  by (simp add: has_room_def one_host_def empty_schema_def v_u32_def)

theorem getService_idempotent_witness:
  "\<exists>i w'. getService schema_mysql (Agent 1) 1 ''httpd'' (demo_world one_host) = (Ret i, w')
    \<and> getService schema_mysql (Agent 2) 1 ''httpd'' w' = (Ret i, w')"
  using getService_idempotent [of "demo_world one_host" "Agent 1" "Agent 2" 1 "''httpd''"]
  by (simp add: one_host_room v_str_def c_str_def)

text \<open>C29. Two event type names that differ in case only get the same id: the second
  \<open>getEventType\<close> finds the row of the first and inserts nothing.\<close>

theorem getEventType_ignores_case:
  assumes "conn w self" and "schema_inv (srv w)" and "has_room EventTypes [v_str a] (srv w)"
    and "map tolower (c_str a) = map tolower (c_str b)"
  shows "\<exists>i w'. getEventType schema_mysql self a w = (Ret i, w')
    \<and> getEventType schema_mysql self b w' = (Ret i, w')"
proof -
  obtain i d where run: "getEventType schema_mysql self a w = (Ret (of_nat i), w\<lparr>srv := d\<rparr>)"
    and inv: "schema_inv d" and key: "key_of d EventTypes lower [v_str a] = Some i"
    using event_types_table.get_or_create_run [OF assms(1,2), of a] assms(3)
    unfolding getEventType_def haveEventType_def by blast
  have "same_key d lower r [v_str a] = same_key d lower r [v_str b]" for r
    using assms(4) by (simp add: same_key_def v_str_def)
  then have "key_of d EventTypes lower [v_str b] = Some i"
    using key by (simp add: key_of_def matching_def)
  then have "getEventType schema_mysql self b (w\<lparr>srv := d\<rparr>) = (Ret (of_nat i), w\<lparr>srv := d\<rparr>)"
    using event_types_table.get_or_create_found [of "w\<lparr>srv := d\<rparr>" self b i] assms(1) inv
    unfolding getEventType_def haveEventType_def by simp
  with run show ?thesis by blast
qed

theorem getEventType_ignores_case_witness:
  "\<exists>i w'. getEventType schema_mysql (Agent 1) ''Error'' (demo_world empty_schema) = (Ret i, w')
    \<and> getEventType schema_mysql (Agent 1) ''ERROR'' w' = (Ret i, w')"
  using getEventType_ignores_case [of "demo_world empty_schema" "Agent 1" "''Error''" "''ERROR''"]
  by (simp add: empty_schema_room v_str_def c_str_def tolower_def char_eval)

text \<open>Ids tell service types apart: after \<open>getServiceType\<close> on two names the two ids are equal
  exactly when the collation of the database does not distinguish the names.\<close>

theorem getServiceType_injective:
  assumes "conn w self" and "schema_inv (srv w)" and "Suc (Suc (auto (srv w) Types)) < 2 ^ 31"
    and "length (c_str a) \<le> 256" and "length (c_str b) \<le> 256"
  shows "\<exists>i j w' w''. getServiceType schema_mysql self a w = (Ret i, w')
    \<and> getServiceType schema_mysql self b w' = (Ret j, w'')
    \<and> (i = j \<longleftrightarrow> collate (srv w) (c_str a) = collate (srv w) (c_str b))"
proof -
  have room_a: "key_of (srv w) Types id [v_str a] \<noteq> None \<or> has_room Types [v_str a] (srv w)"
    using assms(3,4) by (simp add: has_room_def v_str_def)
  obtain i d where a: "getServiceType schema_mysql self a w = (Ret (of_nat i), w\<lparr>srv := d\<rparr>)"
    and inv: "schema_inv d" and key_a: "key_of d Types id [v_str a] = Some i" and i: "i < 2 ^ 31"
    and d_if: "if key_of (srv w) Types id [v_str a] = None then d = add_row Types [v_str a] (srv w) else d = srv w"
    using types_table.get_or_create_run [OF assms(1,2) room_a]
    unfolding getServiceType_def haveServiceType_def by blast
  have d: "d = add_row Types [v_str a] (srv w) \<or> d = srv w" using d_if by (auto split: if_splits)
  have room_b: "key_of d Types id [v_str b] \<noteq> None \<or> has_room Types [v_str b] d"
    using d assms(3,5) by (auto simp: has_room_def v_str_def)
  define v where "v = w\<lparr>srv := d\<rparr>"
  have v: "conn v self" "schema_inv (srv v)" "srv v = d" using assms(1) inv by (simp_all add: v_def)
  obtain j e where b: "getServiceType schema_mysql self b v = (Ret (of_nat j), v\<lparr>srv := e\<rparr>)"
    and inv_e: "schema_inv e" and key_b: "key_of e Types id [v_str b] = Some j" and j: "j < 2 ^ 31"
    and keep: "\<forall>k l. key_of d Types id [v_str k] = Some l \<longrightarrow> key_of e Types id [v_str k] = Some l"
    and e_if: "if key_of d Types id [v_str b] = None then e = add_row Types [v_str b] d else e = d"
    using types_table.get_or_create_run [OF v(1,2), unfolded v(3), OF room_b]
    unfolding getServiceType_def haveServiceType_def by blast
  have e: "e = add_row Types [v_str b] d \<or> e = d" using e_if by (auto split: if_splits)
  have key_a': "key_of e Types id [v_str a] = Some i" using key_a keep by blast
  have "i = j \<longleftrightarrow> same_key e id [v_str a] [v_str b]"
    using key_of_inj [OF inv_e key_a', of "[v_str b]"] key_of_same_key [of e id "[v_str a]" "[v_str b]" Types]
      key_a' key_b by auto
  also have "\<dots> \<longleftrightarrow> collate (srv w) (c_str a) = collate (srv w) (c_str b)"
    using d e by (auto simp: same_key_def v_str_def)
  finally show ?thesis using a b of_nat_u32_eq [OF i j] unfolding v_def by blast
qed

theorem getServiceType_injective_witness:
  "\<exists>i j w' w''. getServiceType schema_mysql (Agent 1) ''web'' (demo_world empty_schema) = (Ret i, w')
    \<and> getServiceType schema_mysql (Agent 1) ''dba'' w' = (Ret j, w'') \<and> i \<noteq> j"
  using getServiceType_injective [of "demo_world empty_schema" "Agent 1" "''web''" "''dba''"]
  by (auto simp: c_str_def tolower_def char_eval)

text \<open>A host name the name column cannot hold drives \<open>getHost\<close> into undefined behaviour: the
  insert is refused and logged, the final query finds no row, and its first row is dereferenced all
  the same. The \<open>return 0\<close> after the query is not reached.\<close>

theorem getHost_refused_undefined:
  assumes "conn w self" and "256 < length (c_str n)" and "key_of (srv w) Hosts id [v_str n] = None"
  shows "fst (getHost schema_mysql self n w) = Undef"
proof -
  have none: "matching (srv w) Hosts id [v_str n] = []" using assms(3) by (simp add: key_of_None)
  have "\<not> insert_allowed Hosts [v_str n] (srv w)"
    using assms(2) by (simp add: insert_allowed_def v_str_def)
  note refused = refused_insert [OF none this]
  show ?thesis unfolding getHost_def haveHost_def
    by (rule get_or_create_refused [OF assms(1), where s = "''0''" and r = ExecBadQuery])
      (simp_all add: par_def refused text_int_def is_digit_def undec_def digit_val_def)
qed

theorem getHost_refused_undefined_witness:
  "fst (getHost schema_mysql Alerting (replicate 300 (CHR ''a'')) (demo_world empty_schema)) = Undef"
  by (rule getHost_refused_undefined) (simp_all add: c_str_def)

end
