(* ===== verification/AgentClient.thy ===== *)
theory AgentClient
  imports Http Ressource Schema
begin

text \<open>
  One agent (\<open>src/agentClient.cpp\<close>, class \<open>agentClient\<close>): its configuration is read from the
  database, its API document says which resources and data tables there are, and a thread of its
  own collects the data, refreshing the API document every few rounds.
\<close>

section \<open>The object\<close>

text \<open>
  What the agent is given and what is outside: the database, the network, jsoncpp, \<open>std::to_string\<close>
  on doubles, the clock (milliseconds), the alerters, and the section \<open>backend\<close> of the configuration.
\<close>

record ('db, 'j) env =
  ev_B :: "'db mysql"
  ev_A :: "'db asio"
  ev_J :: "'j json_api"
  ev_ftoa :: "double \<Rightarrow> string"
  ev_now :: "'db \<Rightarrow> double"
  ev_al :: alerters
  ev_cfg :: 'j

text \<open>\<open>pool_freq\<close> has no value (\<open>None\<close>) before \<open>init\<close> has read it; \<open>client\<close> is null until then.\<close>

record 'j agent =
  ready :: bool
  active :: bool
  ag_id :: u32
  since :: double
  collectCount :: u16
  ag_client :: "http_client option"
  ag_baseurl :: string
  api :: 'j
  pool_freq :: "u32 option"
  ressources :: "'j ressource list"

type_synonym ('db, 'j, 'a) agent_prog = "('j agent \<times> 'db world, 'a) prog"

definition new_agent :: "'j json_api \<Rightarrow> u32 \<Rightarrow> 'j agent" where
  "new_agent J p_id = \<lparr>ready = False, active = False, ag_id = p_id, since = 0, collectCount = 0, ag_client = None,
     ag_baseurl = [], api = j_null J, pool_freq = None, ressources = []\<rparr>"

text \<open>A member function of \<open>dbTools\<close>, on the connection of this agent, and one of the HTTP client.\<close>

definition on_db :: "(objid \<Rightarrow> ('db world, 'a) prog) \<Rightarrow> ('db, 'j, 'a) agent_prog" where
  "on_db f = (\<lambda>(a, w). on_snd (f (Agent (ag_id a))) (a, w))"

definition on_client :: "(http_client \<times> 'db world, 'a) prog \<Rightarrow> ('db, 'j, 'a) agent_prog" where
  "on_client m = (\<lambda>(a, w). case ag_client a of None \<Rightarrow> (Undef, (a, w))
     | Some h \<Rightarrow> (case m (h, w) of (r, (h, w)) \<Rightarrow> (r, (a\<lparr>ag_client := Some h\<rparr>, w))))"

text \<open>The resource at position \<open>i\<close> of the vector, and a new one that is not in it yet.\<close>

definition on_ressource :: "nat \<Rightarrow> ('j ressource \<times> 'db world, 'a) prog \<Rightarrow> ('db, 'j, 'a) agent_prog" where
  "on_ressource i m = (\<lambda>(a, w). case m (ressources a ! i, w) of (x, (r, w)) \<Rightarrow>
     (x, (a\<lparr>ressources := (ressources a)[i := r]\<rparr>, w)))"

definition on_new :: "'j ressource \<Rightarrow> ('j ressource \<times> 'db world, unit) prog \<Rightarrow> ('db, 'j, unit) agent_prog" where
  "on_new r m = (\<lambda>(a, w). case m (r, w) of
     (Ret x, (r, w)) \<Rightarrow> (Ret (), (a\<lparr>ressources := ressources a @ [r]\<rparr>, w))
   | (e, (r, w)) \<Rightarrow> (e, (a, w)))"

text \<open>
  \<open>api[k1][k2]...\<close>: the value, after the missing members on the way have been created in the
  document.
\<close>

definition api_at :: "('db, 'j) env \<Rightarrow> string list \<Rightarrow> ('db, 'j, 'j) agent_prog" where
  "api_at E ks =
     bnd (gets (\<lambda>(a, w). api a)) (\<lambda>v.
     bnd (lift (j_touch_path (ev_J E) v ks)) (\<lambda>v'.
     bnd (on_fst (modify (\<lambda>a. a\<lparr>api := v'\<rparr>))) (\<lambda>_.
     lift (j_path (ev_J E) v' ks))))"

definition failed_grab :: "('db, 'j) env \<Rightarrow> string \<Rightarrow> 'a \<Rightarrow> ('db, 'j, 'a) agent_prog \<Rightarrow> ('db, 'j, 'a) agent_prog" where
  "failed_grab E from d m = bnd (on_db (grab (ev_B E))) (\<lambda>ok. if ok then m
     else bnd (on_snd (l_error from ''Failed to get a connection from the pool!'')) (\<lambda>_. ret d))"

section \<open>The resources of the API\<close>

text \<open>
  From a path of the API: what stands between the first and the last slash, split into the origin
  and the name of the resource. All positions are \<open>size_t\<close>.
\<close>

definition path_res :: "string \<Rightarrow> string outcome" where
  "path_res key = substr key 1 (sz (int (str_rfind key (CHR ''/'')) - 1))"

definition origin_name :: "string \<Rightarrow> (string \<times> string) outcome" where
  "origin_name res =
     (if take 7 res = ''system/'' then obind (substr res 7 npos) (\<lambda>n. Ret (''host'', n))
      else obind (substr res 9 npos) (\<lambda>s.
        obind (substr res (sz (int (str_find s (CHR ''/'')) + 10)) npos) (\<lambda>n. Ret (''service'', n))))"

definition last_part :: "string \<Rightarrow> string outcome" where
  "last_part s = substr s (sz (int (str_rfind s (CHR ''/'')) + 1)) npos"

definition add_ressource :: "('db, 'j) env \<Rightarrow> string \<Rightarrow> string \<Rightarrow> string \<Rightarrow> ('db, 'j, unit) agent_prog" where
  "add_ressource E origin name tbl =
     bnd (on_db (\<lambda>self. haveRessource (ev_B E) self origin name)) (\<lambda>have.
     if have then ret ()
     else on_snd (myqExec (ev_B E)
       (Query ''insert into c$ressources(name, origin, data_type) values(%0q:name,%1q:ori,%2q:tbl)''
          [(''name'', v_str name), (''ori'', v_str origin), (''tbl'', v_str tbl)])
       ''agentClient::createRessources'' ''Failed to insert ressource''))"

definition link_service :: "('db, 'j) env \<Rightarrow> u32 \<Rightarrow> u32 \<Rightarrow> ('db, 'j, unit) agent_prog" where
  "link_service E servid resid = on_snd (myqExec (ev_B E)
     (Query ''insert into s$ressources(serv_id,res_id) values (%0:srv,%1:res) ON DUPLICATE KEY UPDATE res_id=res_id''
        [(''srv'', v_u32 servid), (''res'', v_u32 resid)])
     ''agentClient::createRessources'' ''Failed to insert s$ressources'')"

definition link_host :: "('db, 'j) env \<Rightarrow> u32 \<Rightarrow> u32 \<Rightarrow> ('db, 'j, unit) agent_prog" where
  "link_host E hostid resid = on_snd (myqExec (ev_B E)
     (Query ''insert into h$ressources(host_id,res_id) values (%0:host,%1:res) ON DUPLICATE KEY UPDATE res_id=res_id''
        [(''host'', v_u32 hostid), (''res'', v_u32 resid)])
     ''agentClient::createRessources'' ''Failed to insert h$ressources'')"

text \<open>The loop over the known resources: those of this path get the new definition.\<close>

definition update_known :: "('db, 'j) env \<Rightarrow> string \<Rightarrow> string \<Rightarrow> nat \<Rightarrow> ('db, 'j, unit) agent_prog" where
  "update_known E key tbl j =
     bnd (gets (\<lambda>(a, w). rc_baseurl (ressources a ! j))) (\<lambda>url.
     if url = key then
       bnd (api_at E [''definitions'', tbl, ''properties'']) (\<lambda>d.
       on_fst (modify (\<lambda>a. a\<lparr>ressources := (ressources a)[j := updateDefs (ev_J E) d (ressources a ! j)]\<rparr>)))
     else ret ())"

definition create_client :: "('db, 'j) env \<Rightarrow> string \<Rightarrow> string \<Rightarrow> u32 \<Rightarrow> u32 \<Rightarrow> string option \<Rightarrow> ('db, 'j, unit) agent_prog" where
  "create_client E key tbl owner resid serv =
     bnd (api_at E [''definitions'', tbl, ''properties'']) (\<lambda>d.
     let r = new_ressource owner resid key tbl d in
     on_new (case serv of None \<Rightarrow> r | Some n \<Rightarrow> setService n r) (ressource_init (ev_B E) (ev_J E)))"

text \<open>One path, from the point where its name is known.\<close>

definition create_path :: "('db, 'j) env \<Rightarrow> string \<Rightarrow> string \<Rightarrow> string \<Rightarrow> ('db, 'j, unit) agent_prog" where
  "create_path E key origin name =
     bnd (api_at E [''paths'', key, ''get'', ''responses'', ''200'', ''schema'', ''items'', ''$ref'']) (\<lambda>v.
     bnd (lift (j_asString (ev_J E) v)) (\<lambda>ref.
     bnd (lift (last_part ref)) (\<lambda>tbl.
     bnd (add_ressource E origin name tbl) (\<lambda>_.
     bnd (on_db (\<lambda>self. getRessourceId (ev_B E) self origin name)) (\<lambda>resid.
     bnd (bnd (api_at E [''paths'', key, ''x-host'']) (\<lambda>v. lift (j_asString (ev_J E) v))) (\<lambda>xhost.
     bnd (on_db (\<lambda>self. getHost (ev_B E) self xhost)) (\<lambda>hostid.
     if resid = 0 then ret ()
     else
       bnd (bnd (api_at E [''paths'', key]) (\<lambda>p. lift (j_isMember (ev_J E) p ''x-service''))) (\<lambda>is_service.
       bnd (if is_service then
              bnd (bnd (api_at E [''paths'', key, ''x-service'']) (\<lambda>v. lift (j_asString (ev_J E) v))) (\<lambda>serv.
              bnd (on_db (\<lambda>self. getService (ev_B E) self hostid serv)) (\<lambda>servid.
              bnd (link_service E servid resid) (\<lambda>_. ret (servid, Some serv))))
            else bnd (link_host E hostid resid) (\<lambda>_. ret (hostid, None))) (\<lambda>(owner, serv).
       bnd (gets (\<lambda>(a, w). (length (ressources a), list_ex (\<lambda>r. rc_baseurl r = key) (ressources a)))) (\<lambda>(n, found).
       bnd (for_each [0..<n] (update_known E key tbl)) (\<lambda>_.
       if found then ret () else create_client E key tbl owner resid serv)))))))))))"

definition create_ressource :: "('db, 'j) env \<Rightarrow> string \<Rightarrow> ('db, 'j, unit) agent_prog" where
  "create_ressource E key =
     bnd (lift (obind (path_res key) origin_name)) (\<lambda>(origin, name).
     bnd (lift (last_part key)) (\<lambda>part. if part \<noteq> ''history'' then ret ()
     else
       bnd (bnd (api_at E [''paths'', key]) (\<lambda>p. lift (j_isMember (ev_J E) p ''get''))) (\<lambda>getter.
       if \<not> getter then ret () else create_path E key origin name)))"

definition createRessources :: "('db, 'j) env \<Rightarrow> ('db, 'j, unit) agent_prog" where
  "createRessources E = failed_grab E ''agentClient::createRessources'' ()
     (bnd (api_at E [''paths'']) (\<lambda>paths.
      for_each (map fst (j_items (ev_J E) paths)) (create_ressource E)))"

section \<open>The data tables of the API\<close>

text \<open>The type of a column; an unknown one is logged.\<close>

definition column_type :: "('db, 'j) env \<Rightarrow> string \<Rightarrow> string \<Rightarrow> ('db, 'j, string option) agent_prog" where
  "column_type E i j =
     bnd (api_at E [''definitions'', i, ''properties'', j, ''type'']) (\<lambda>t.
     if j_is_text (ev_J E) t ''number'' then ret (Some ''double(20,4)'')
     else if j_is_text (ev_J E) t ''integer'' then ret (Some ''integer(32)'')
     else
       bnd (lift (j_asString (ev_J E) t)) (\<lambda>s.
       bnd (on_snd (l_warning ''agentClient::createTables'' (''Unknown datatype : '' @ s))) (\<lambda>_. ret None)))"

definition create_column :: "('db, 'j) env \<Rightarrow> string \<Rightarrow> string \<Rightarrow> string \<Rightarrow> ('db, 'j, string) agent_prog" where
  "create_column E i j ss =
     (if j = ''timestamp'' then ret ss
      else bnd (column_type E i j) (\<lambda>t. ret (case t of None \<Rightarrow> ss
        | Some t \<Rightarrow> ss @ tab @ j @ tab @ tab @ t @ '','' @ newline)))"

definition foreign_key :: "string \<Rightarrow> bool \<Rightarrow> string" where
  "foreign_key i serv = '', constraint fk_'' @ i @
     (if serv then ''_ressources foreign key(serv_id, res_id) references s$ressources(serv_id, res_id) on delete cascade on update cascade''
      else ''_ressources foreign key(host_id, res_id) references h$ressources(host_id, res_id) on delete cascade on update cascade'')"

definition table_head :: "string \<Rightarrow> bool \<Rightarrow> string" where
  "table_head i serv = ''create table d$'' @ i @ ''('' @ newline @
     tab @ (if serv then ''serv_id'' else ''host_id'') @ tab @ ''int(32) unsigned,'' @ newline @
     tab @ ''res_id'' @ tab @ tab @ ''int(32) unsigned,'' @ newline @
     tab @ ''timestamp'' @ tab @ ''double(20,4) unsigned,'' @ newline"

definition table_tail :: "string \<Rightarrow> bool \<Rightarrow> string" where
  "table_tail i serv = tab @ ''constraint '' @ i @ ''_pk primary key ('' @
     (if serv then ''serv_id'' else ''host_id'') @ '',res_id,timestamp)'' @ newline @
     foreign_key i serv @ newline @ '')'' @ newline"

definition property_keys :: "('db, 'j) env \<Rightarrow> string \<Rightarrow> ('db, 'j, string list) agent_prog" where
  "property_keys E i = bnd (api_at E [''definitions'', i, ''properties'']) (\<lambda>ps.
     ret (map fst (j_items (ev_J E) ps)))"

definition create_table :: "('db, 'j) env \<Rightarrow> string \<Rightarrow> bool \<Rightarrow> ('db, 'j, unit) agent_prog" where
  "create_table E i serv =
     bnd (property_keys E i) (\<lambda>js.
     bnd (fold_prog (create_column E i) js (table_head i serv)) (\<lambda>ss.
     on_snd (myqExec (ev_B E) (Query (ss @ table_tail i serv) []) ''agentClient::createTables''
       (''Failed to create data table: d$'' @ i))))"

definition add_column :: "('db, 'j) env \<Rightarrow> string \<Rightarrow> string \<Rightarrow> ('db, 'j, unit) agent_prog" where
  "add_column E i j =
     bnd (on_db (\<lambda>self. tableHasColumn (ev_B E) self (''d$'' @ i) j)) (\<lambda>have.
     if have then ret ()
     else bnd (column_type E i j) (\<lambda>t. case t of None \<Rightarrow> ret () | Some t \<Rightarrow>
       on_snd (myqExec (ev_B E) (Query (''alter table d$'' @ i @ '' add '' @ j @ '' '' @ t) [])
         ''agentClient::createTables'' ''Failed to add a column to a data table'')))"

definition create_or_extend :: "('db, 'j) env \<Rightarrow> string \<Rightarrow> ('db, 'j, unit) agent_prog" where
  "create_or_extend E i =
     bnd (bnd (api_at E [''definitions'', i]) (\<lambda>d. lift (
       obind (j_isMember (ev_J E) d ''x-isService'') (\<lambda>serv. if serv then
           obind (j_at (ev_J E) d ''x-isService'') (\<lambda>v. obind (j_asBool (ev_J E) v) (\<lambda>b. Ret (serv, \<not> b)))
         else Ret (serv, take 7 i = ''service''))))) (\<lambda>(serv, skip).
     if skip then ret ()
     else
       bnd (on_db (\<lambda>self. haveTable (ev_B E) self (''d$'' @ i))) (\<lambda>have.
       if \<not> have then create_table E i serv
       else bnd (property_keys E i) (\<lambda>js. for_each js (add_column E i))))"

definition createTables :: "('db, 'j) env \<Rightarrow> ('db, 'j, unit) agent_prog" where
  "createTables E = failed_grab E ''agentClient::createTables'' ()
     (bnd (api_at E [''definitions'']) (\<lambda>ds.
      for_each (map fst (j_items (ev_J E) ds)) (create_or_extend E)))"

section \<open>Counters and the API document\<close>

definition updateCounter :: "('db, 'j) env \<Rightarrow> u32 \<Rightarrow> u32 \<Rightarrow> u32 \<Rightarrow> ('db, 'j, unit) agent_prog" where
  "updateCounter E p_ok p_missing p_parse =
     (let (fail, mis) = (if (p_missing \<noteq> 0 \<or> p_parse \<noteq> 0) \<and> p_ok = 0 then (p_missing, 0) else (0, p_missing)) in
      failed_grab E ''agentClient::updateCounter'' ()
       (bnd (gets (\<lambda>(a, w). (ag_id a, ev_now E (srv w)))) (\<lambda>(i, fp_ms).
        on_snd (myqExec (ev_B E)
          (Query ''insert into agt$history(agt_id, timestamp, failed, missing, parse, ok) values(%0:id,%1:ts,%2:fa,%3:mi,%4:pa,%5:ok) on duplicate key update failed=%2:fa, missing=%3:mi, parse=%4:pa, ok=%5:ok''
             [(''id'', v_u32 i), (''ts'', VDbl fp_ms), (''fa'', v_u32 fail), (''mi'', v_u32 mis),
              (''pa'', v_u32 p_parse), (''ok'', v_u32 p_ok)])
          ''agentClient::updateCounter'' ''Failed to update status''))))"

text \<open>
  \<open>getJSON(path, api)\<close>: when the document is overwritten, the definitions the resources point to
  are gone.
\<close>

definition load_api :: "('db, 'j) env \<Rightarrow> ('db, 'j, bool) agent_prog" where
  "load_api E = bnd (on_client (getJSON (ev_A E) (ev_J E) (ev_cfg E) ''/api/swagger.json'')) (\<lambda>(ok, doc).
     bnd (case doc of None \<Rightarrow> ret ()
          | Some v \<Rightarrow> on_fst (modify (\<lambda>a. a\<lparr>api := v, ressources := map (\<lambda>r. r\<lparr>rc_def := None\<rparr>) (ressources a)\<rparr>)))
       (\<lambda>_. ret ok))"

definition drop_ressources :: "('db, 'j) env \<Rightarrow> ('db, 'j, unit) agent_prog" where
  "drop_ressources E = bnd (api_at E [''paths'']) (\<lambda>paths.
     on_fst (modify (\<lambda>a. a\<lparr>ressources :=
       filter (\<lambda>r. rc_baseurl r \<in> fst ` set (j_items (ev_J E) paths)) (ressources a)\<rparr>)))"

definition updateApi_ready :: "('db, 'j) env \<Rightarrow> ('db, 'j, unit) agent_prog" where
  "updateApi_ready E =
     bnd (on_client (on_fst resetCount)) (\<lambda>(ok, missing, parse).
     bnd (if ok \<noteq> 0 \<or> missing \<noteq> 0 \<or> parse \<noteq> 0 then updateCounter E ok missing parse else ret ()) (\<lambda>_.
     bnd (load_api E) (\<lambda>loaded.
     if \<not> loaded then ret ()
     else
       bnd (createRessources E) (\<lambda>_.
       bnd (createTables E) (\<lambda>_.
       bnd (drop_ressources E) (\<lambda>_.
       bnd (gets (\<lambda>(a, w). (ag_id a, ag_baseurl a))) (\<lambda>(i, url).
       bnd (on_snd (l_info ''agentClient::updateApi''
              (''Agent '' @ to_str i @ ''('' @ url @ ''), API knowledge updated''))) (\<lambda>_.
       on_db release))))))))"

text \<open>\<open>atoi\<close> yields an \<open>int\<close>.\<close>

definition atoi :: "string \<Rightarrow> u32" where
  "atoi s = word_of_int (strtol 10 s)"

text \<open>The row of the configuration; whether TLS is asked for.\<close>

definition read_agent_row :: "('db, 'j) env \<Rightarrow> row \<Rightarrow> ('db, 'j, bool) agent_prog" where
  "read_agent_row E r =
     bnd (lift (cell r 0)) (\<lambda>host.
     bnd (on_fst (modify (\<lambda>a. a\<lparr>ag_baseurl := (if host = ''localhost'' then ''127.0.0.1:'' else c_str host @ '':'')\<rparr>))) (\<lambda>_.
     bnd (lift (cell r 1)) (\<lambda>port.
     bnd (on_fst (modify (\<lambda>a. a\<lparr>ag_baseurl := ag_baseurl a @ c_str port\<rparr>))) (\<lambda>_.
     bnd (lift (conv (my_u32 (ev_B E)) r 2)) (\<lambda>freq.
     bnd (on_fst (modify (\<lambda>a. a\<lparr>pool_freq := Some freq\<rparr>))) (\<lambda>_.
     bnd (lift (cell r 3)) (\<lambda>ssl. ret (atoi (c_str ssl) = 1))))))))"

text \<open>
  The query inside the \<open>try\<close>: \<open>Some None\<close> is the early return of a result that is false,
  \<open>Some (Some b)\<close> a row that was read, \<open>None\<close> a query or conversion that threw, behind which \<open>init\<close>
  goes on without TLS.
\<close>

definition agent_config :: "('db, 'j) env \<Rightarrow> ('db, 'j, bool option option) agent_prog" where
  "agent_config E = bnd (gets (\<lambda>(a, w). ag_id a)) (\<lambda>i.
     try_store_on (ev_B E) (Query ''select host, port, pool_freq, use_ssl from c$agents where id=%0:id'' [(''id'', v_u32 i)])
       ''agentClient::init'' ''Failed to get agent configuration''
       (\<lambda>rs. bnd (lift (first_row rs)) (\<lambda>r. bnd (read_agent_row E r) (\<lambda>ssl. ret (Some (Some ssl)))))
       (bnd (on_snd (l_error ''agentClient::createTables'' (''Cannot look for agent id='' @ to_str i))) (\<lambda>_.
        ret (Some None))))"

definition agent_init :: "('db, 'j) env \<Rightarrow> ('db, 'j, unit) agent_prog" where
  "agent_init E = bnd (gets (\<lambda>(a, w). ready a)) (\<lambda>already. if already then ret ()
     else failed_grab E ''agentClient::init'' ()
       (bnd (agent_config E) (\<lambda>row. if row = Some None then ret ()
        else
          bnd (gets (\<lambda>(a, w). ag_baseurl a)) (\<lambda>url.
          bnd (on_snd (HttpClient_init (ev_A E) (ev_J E) url (row = Some (Some True)) (ev_cfg E))) (\<lambda>h.
          bnd (on_fst (modify (\<lambda>a. a\<lparr>ag_client := Some h, ready := True\<rparr>))) (\<lambda>_.
          updateApi_ready E))))))"

definition updateApi :: "('db, 'j) env \<Rightarrow> ('db, 'j, unit) agent_prog" where
  "updateApi E = bnd (gets (\<lambda>(a, w). ready a)) (\<lambda>r. if \<not> r then agent_init E else updateApi_ready E)"

section \<open>Collecting\<close>

text \<open>
  \<open>data\<close> is a local document: the members \<open>operator[]\<close> creates in it are never seen again, so
  reading is all that counts.
\<close>

definition text_at :: "'j json_api \<Rightarrow> 'j \<Rightarrow> string list \<Rightarrow> string outcome" where
  "text_at J v ks = obind (j_path J v ks) (j_asString J)"

definition c_text_at :: "'j json_api \<Rightarrow> 'j \<Rightarrow> string list \<Rightarrow> string outcome" where
  "c_text_at J v ks = obind (j_path J v ks) (j_asCString J)"

definition items_at :: "'j json_api \<Rightarrow> 'j \<Rightarrow> string list \<Rightarrow> (string \<times> 'j) list outcome" where
  "items_at J v ks = obind (j_path J v ks) (\<lambda>x. Ret (j_items J x))"

text \<open>A log entry that is not known yet; the accumulators are \<open>maxlvl\<close> and the text \<open>t\<close>.\<close>

definition log_entry :: "('db, 'j) env \<Rightarrow> u32 \<Rightarrow> 'j \<Rightarrow> u32 \<times> string \<Rightarrow> ('db, 'j, u32 \<times> string) agent_prog" where
  "log_entry E serv_id j = (\<lambda>(maxlvl, t).
     let J = ev_J E in
     bnd (lift (text_at J j [''source''])) (\<lambda>source.
     bnd (lift (obind (j_at J j ''line_no'') (j_asUInt J))) (\<lambda>line_no.
     bnd (lift (text_at J j [''date_mark''])) (\<lambda>date_mark.
     bnd (on_db (\<lambda>self. haveLogEvent (ev_B E) self serv_id source line_no date_mark)) (\<lambda>have.
     if have then ret (maxlvl, t)
     else
       bnd (lift (text_at J j [''text''])) (\<lambda>line.
       bnd (lift (text_at J j [''level''])) (\<lambda>level.
       bnd (on_db (\<lambda>self. getEventType (ev_B E) self level)) (\<lambda>event_type_id.
       bnd (lift (obind (j_at J j ''timestamp'') (j_asDouble J))) (\<lambda>ts.
       bnd (lift (c_text_at J j [''source''])) (\<lambda>src.
       bnd (lift (c_text_at J j [''date_mark''])) (\<lambda>dm.
       bnd (lift (c_text_at J j [''text''])) (\<lambda>txt.
       bnd (on_snd (myqExec (ev_B E)
         (Query ''insert into s$log_events(serv_id, timestamp, event_type, source_name, date_field, line_no, text) values (%0:srv, %1:ts, %2:et, %3q:src, %4q:dm, %5:ln, %6q:txt) ON DUPLICATE KEY UPDATE text=%6q:txt''
            [(''srv'', v_u32 serv_id), (''ts'', VDbl ts), (''et'', v_u32 event_type_id), (''src'', v_str src),
             (''dm'', v_str dm), (''ln'', v_u32 line_no), (''txt'', v_str txt)])
         ''servicesClient::collectLog'' ''Failed to insert a log entry'')) (\<lambda>_.
       ret (if maxlvl < event_type_id then event_type_id else maxlvl, t @ line @ newline))))))))))))))"

text \<open>Processes and sockets; the accumulators are \<open>ok\<close>, \<open>failed\<close> and \<open>nfailed\<close>.\<close>

type_synonym counts = "u32 \<times> u32 \<times> u32"

definition process_entry :: "('db, 'j) env \<Rightarrow> u32 \<Rightarrow> double \<Rightarrow> 'j \<Rightarrow> counts \<Rightarrow> ('db, 'j, counts) agent_prog" where
  "process_entry E serv_id fp_ms j = (\<lambda>(ok, failed, nfailed).
     let J = ev_J E in
     bnd (lift (c_text_at J j [''name''])) (\<lambda>name.
     bnd (lift (c_text_at J j [''full_path''])) (\<lambda>path.
     bnd (lift (c_text_at J j [''cwd''])) (\<lambda>cwd.
     bnd (lift (c_text_at J j [''username''])) (\<lambda>user.
     bnd (lift (c_text_at J j [''status''])) (\<lambda>stts.
     bnd (lift (text_at J j [''status''])) (\<lambda>status.
     bnd (if status = ''ok'' then
            bnd (lift (obind (j_at J j ''pid'') (j_asInt J))) (\<lambda>pid. ret (pid, (ok + 1, failed, nfailed)))
          else
            bnd (lift (text_at J j [''name''])) (\<lambda>n.
            bnd (on_db (\<lambda>self. haveProcessStatus (ev_B E) self serv_id n status)) (\<lambda>have.
            ret (0, (ok, failed + 1, if have then nfailed else nfailed + 1))))) (\<lambda>(pid, counts).
     bnd (on_snd (myqExec (ev_B E)
       (Query ''insert into s$process(serv_id, name, full_path, cwd, username, pid, status, timestamp) values (%0:srv, %1q:name, %2q:path, %3q:cwd, %4q:user, %5:pid, %6q:stts, %7:ts) ON DUPLICATE KEY UPDATE full_path=%2q:path, cwd=%3q:cwd, username=%4q:user, pid=%5:pid, status=%6q:stts, timestamp=%7:ts''
          [(''srv'', v_u32 serv_id), (''name'', v_str name), (''path'', v_str path), (''cwd'', v_str cwd),
           (''user'', v_str user), (''stts'', v_str stts), (''ts'', VDbl fp_ms), (''pid'', VInt pid)])
       ''servicesClient::collect'' ''Failed to insert process'')) (\<lambda>_. ret counts)))))))))"

definition socket_entry :: "('db, 'j) env \<Rightarrow> u32 \<Rightarrow> double \<Rightarrow> 'j \<Rightarrow> counts \<Rightarrow> ('db, 'j, counts) agent_prog" where
  "socket_entry E serv_id fp_ms j = (\<lambda>(ok, failed, nfailed).
     let J = ev_J E in
     bnd (lift (text_at J j [''status''])) (\<lambda>status.
     bnd (if status \<noteq> ''ok'' then
            bnd (lift (text_at J j [''name''])) (\<lambda>n.
            bnd (on_db (\<lambda>self. haveSocketStatus (ev_B E) self serv_id n status)) (\<lambda>have.
            ret (ok, failed + 1, if have then nfailed else nfailed + 1)))
          else ret (ok + 1, failed, nfailed)) (\<lambda>counts.
     bnd (lift (c_text_at J j [''name''])) (\<lambda>name.
     bnd (lift (c_text_at J j [''status''])) (\<lambda>stts.
     bnd (on_snd (myqExec (ev_B E)
       (Query ''insert into s$sockets(serv_id, name, status, timestamp) values (%0:srv, %1q:name, %2q:stts, %3:ts) ON DUPLICATE KEY UPDATE status=%2q:stts, timestamp=%3:ts''
          [(''srv'', v_u32 serv_id), (''name'', v_str name), (''stts'', v_str stts), (''ts'', VDbl fp_ms)])
       ''servicesClient::collect'' ''Failed to insert socket'')) (\<lambda>_. ret counts))))))"

text \<open>The five parts of one service: its logs, processes, sockets, the alert, its type and status.\<close>

definition collect_logs :: "('db, 'j) env \<Rightarrow> u32 \<Rightarrow> u32 \<Rightarrow> 'j \<Rightarrow> ('db, 'j, unit) agent_prog" where
  "collect_logs E host_id serv_id s =
     bnd (lift (items_at (ev_J E) s [''logs'', ''entries''])) (\<lambda>js.
     bnd (fold_prog (log_entry E serv_id) (map snd js) (0, [])) (\<lambda>(maxlvl, t).
     if 0 < maxlvl then on_snd (sendLog (ev_B E) (ev_al E) host_id serv_id maxlvl t) else ret ()))"

definition collect_counts :: "('db, 'j) env \<Rightarrow> u32 \<Rightarrow> double \<Rightarrow> 'j \<Rightarrow> ('db, 'j, counts) agent_prog" where
  "collect_counts E serv_id fp_ms s =
     bnd (lift (items_at (ev_J E) s [''status'', ''process''])) (\<lambda>ps.
     bnd (fold_prog (process_entry E serv_id fp_ms) (map snd ps) (0, 0, 0)) (\<lambda>counts.
     bnd (lift (items_at (ev_J E) s [''status'', ''sockets''])) (\<lambda>ss.
     fold_prog (socket_entry E serv_id fp_ms) (map snd ss) counts)))"

definition collect_alert :: "('db, 'j) env \<Rightarrow> string \<Rightarrow> u32 \<Rightarrow> u32 \<Rightarrow> u32 \<Rightarrow> u32 \<Rightarrow> 'j \<Rightarrow> ('db, 'j, unit) agent_prog" where
  "collect_alert E name host_id serv_id failed nfailed s =
     (if 0 < nfailed then
        bnd (lift (text_at (ev_J E) s [''host''])) (\<lambda>host.
        on_snd (sendService (ev_B E) (ev_al E) host_id serv_id
          (''Service '' @ name @ '' on '' @ host @ '' have '' @ to_str failed @ '' failed componant'')))
      else ret ())"

definition collect_status :: "('db, 'j) env \<Rightarrow> u32 \<Rightarrow> u32 \<Rightarrow> double \<Rightarrow> u32 \<Rightarrow> u32 \<Rightarrow> ('db, 'j, unit) agent_prog" where
  "collect_status E serv_id type_id fp_ms failed ok =
     bnd (on_snd (myqExec (ev_B E) (Query ''update s$services set type_id=%0:t where id=%1:s''
            [(''t'', v_u32 type_id), (''s'', v_u32 serv_id)])
          ''servicesClient::collect'' ''Failed to update type'')) (\<lambda>_.
     on_snd (myqExec (ev_B E)
       (Query ''insert into s$history(serv_id, timestamp, failed, missing, ok) values (%0:s, %1:t, %2:f, 0, %3:o) ON DUPLICATE KEY UPDATE failed=%2:f, ok=%3:o''
          [(''s'', v_u32 serv_id), (''t'', VDbl fp_ms), (''f'', v_u32 failed), (''o'', v_u32 ok)])
       ''servicesClient::collect'' ''Failed to insert history''))"

text \<open>\<open>hosts\<close> is a \<open>std::set\<close>, kept as an ordered map to nothing.\<close>

definition collect_service :: "('db, 'j) env \<Rightarrow> double \<Rightarrow> string \<times> 'j \<Rightarrow> (u32 \<times> unit) list \<Rightarrow>
    ('db, 'j, (u32 \<times> unit) list) agent_prog" where
  "collect_service E fp_ms = (\<lambda>(name, s) hosts.
     bnd (lift (text_at (ev_J E) s [''logs'', ''host''])) (\<lambda>host.
     bnd (on_db (\<lambda>self. getHost (ev_B E) self host)) (\<lambda>host_id.
     bnd (on_db (\<lambda>self. getService (ev_B E) self host_id name)) (\<lambda>serv_id.
     bnd (lift (text_at (ev_J E) s [''status'', ''properties'', ''type''])) (\<lambda>ty.
     bnd (on_db (\<lambda>self. getServiceType (ev_B E) self ty)) (\<lambda>type_id.
     bnd (collect_logs E host_id serv_id s) (\<lambda>_.
     bnd (collect_counts E serv_id fp_ms s) (\<lambda>(ok, failed, nfailed).
     bnd (collect_alert E name host_id serv_id failed nfailed s) (\<lambda>_.
     bnd (collect_status E serv_id type_id fp_ms failed ok) (\<lambda>_.
     ret (om_put host_id () hosts)))))))))))"

definition missing_history :: "('db, 'j) env \<Rightarrow> double \<Rightarrow> u32 \<Rightarrow> ('db, 'j, unit) agent_prog" where
  "missing_history E fp_ms h = on_snd (myqExec (ev_B E)
     (Query ''insert into s$history select s.id as serv_id, %0:t as timestamp, 0 as failed, ifnull(p.cnt,0)+ifnull(o.cnt,0) as missing, 0 as ok from s$services s left join (select serv_id, count(*) as cnt from s$process group by serv_id) p on s.id=p.serv_id left join (select serv_id, count(*) as cnt from s$sockets group by serv_id) o on s.id=o.serv_id where s.id not in (select serv_id from s$history where timestamp>=%0:t) and host_id=%1:h''
        [(''t'', VDbl fp_ms), (''h'', v_u32 h)])
     ''servicesClient::collect'' ''Failed to insert missing history'')"

text \<open>\<open>strings[n]\<close> reads past the end of a vector that is too short.\<close>

definition part :: "string list \<Rightarrow> nat \<Rightarrow> string outcome" where
  "part ss n = (if n < length ss then Ret (ss ! n) else Undef)"

definition data_path :: "'j ressource \<Rightarrow> string list outcome" where
  "data_path r = (let ss = getlines (CHR ''/'') (rc_baseurl r) in
     if isService r then
       obind (part ss 3) (\<lambda>s3. obind (part ss 4) (\<lambda>s4.
       Ret [''services'', rc_servName r, ''collectors'', s3, s4]))
     else obind (part ss 2) (\<lambda>s2. obind (part ss 3) (\<lambda>s3. Ret [''system'', s2, s3])))"

definition collect_ressource :: "('db, 'j) env \<Rightarrow> 'j \<Rightarrow> nat \<Rightarrow> ('db, 'j, unit) agent_prog" where
  "collect_ressource E d i =
     bnd (gets (\<lambda>(a, w). ressources a ! i)) (\<lambda>r.
     bnd (lift (obind (data_path r) (j_path (ev_J E) d))) (\<lambda>p.
     on_ressource i (ressource_parse (ev_B E) (ev_J E) (ev_ftoa E) (ev_al E) p)))"

definition trunc :: "double \<Rightarrow> double" where
  "trunc x = (if x < 0 then - of_int \<lfloor>- x\<rfloor> else of_int \<lfloor>x\<rfloor>)"

definition collect_data :: "('db, 'j) env \<Rightarrow> double \<Rightarrow> 'j \<Rightarrow> ('db, 'j, unit) agent_prog" where
  "collect_data E fp_ms d =
     bnd (lift (items_at (ev_J E) d [''services''])) (\<lambda>services.
     bnd (fold_prog (collect_service E fp_ms) services []) (\<lambda>hosts.
     bnd (for_each (map fst hosts) (missing_history E fp_ms)) (\<lambda>_.
     bnd (gets (\<lambda>(a, w). length (ressources a))) (\<lambda>n.
     for_each [0..<n] (collect_ressource E d)))))"

definition collect :: "('db, 'j) env \<Rightarrow> ('db, 'j, unit) agent_prog" where
  "collect E =
     bnd (gets (\<lambda>(a, w). (since a, ev_now E (srv w)))) (\<lambda>(last, fp_ms).
     bnd (on_client (getJSON (ev_A E) (ev_J E) (ev_cfg E) (''/all?since='' @ ev_ftoa E (trunc last)))) (\<lambda>(ok, doc).
     if \<not> ok then ret ()
     else
       let d = (case doc of None \<Rightarrow> j_null (ev_J E) | Some d \<Rightarrow> d) in
       bnd (lift (obind (j_at (ev_J E) d ''timestamp'') (j_asDouble (ev_J E)))) (\<lambda>ts.
       bnd (on_fst (modify (\<lambda>a. a\<lparr>since := ts\<rparr>))) (\<lambda>_.
       failed_grab E ''agentClient::collect'' () (collect_data E fp_ms d)))))"

section \<open>The thread\<close>

text \<open>
  One round of the loop; \<open>sleep_for(pool_freq)\<close> reads a variable that may never have been set. The
  loop itself runs until the object is destroyed: \<open>agent_rounds n\<close> is its first \<open>n\<close> rounds.
\<close>

definition collect_round :: "('db, 'j) env \<Rightarrow> ('db, 'j, unit) agent_prog" where
  "collect_round E =
     bnd (collect E) (\<lambda>_.
     bnd (on_db release) (\<lambda>_.
     bnd (gets (\<lambda>(a, w). pool_freq a)) (\<lambda>f. case f of None \<Rightarrow> undef | Some s \<Rightarrow> ret ())))"

definition refresh :: "('db, 'j) env \<Rightarrow> ('db, 'j, unit) agent_prog" where
  "refresh E = bnd (gets (\<lambda>(a, w). collectCount a)) (\<lambda>c.
     if 5 < c then bnd (updateApi E) (\<lambda>_. on_fst (modify (\<lambda>a. a\<lparr>collectCount := 0\<rparr>))) else ret ())"

definition agent_round :: "('db, 'j) env \<Rightarrow> ('db, 'j, unit) agent_prog" where
  "agent_round E =
     bnd (refresh E) (\<lambda>_.
     bnd (on_fst (modify (\<lambda>a. a\<lparr>collectCount := collectCount a + 1\<rparr>))) (\<lambda>_.
     collect_round E))"

primrec agent_rounds :: "('db, 'j) env \<Rightarrow> nat \<Rightarrow> ('db, 'j, unit) agent_prog" where
  "agent_rounds E 0 = ret ()"
| "agent_rounds E (Suc n) = bnd (agent_round E) (\<lambda>_. agent_rounds E n)"

text \<open>\<open>startThread\<close>: whether the thread is started.\<close>

definition agent_startThread :: "('j agent, bool) prog" where
  "agent_startThread = bnd (gets (\<lambda>a. \<not> ready a \<or> active a)) (\<lambda>no.
     if no then ret False else bnd (modify (\<lambda>a. a\<lparr>active := True\<rparr>)) (\<lambda>_. ret True))"

section \<open>Lemmas\<close>

subsection \<open>What an agent leaves intact\<close>

text \<open>
  An invariant \<open>P\<close> of the agent that does not depend on which client it has, its document, its
  address, the frequency and the time of the last data, and that is indifferent to becoming ready,
  survives all the operations of the agent, together with an invariant \<open>R\<close> of the shared state. It
  may be about the resources, by a condition \<open>C\<close> on each that \<open>updateDefs\<close> establishes and that does
  not depend on the events.
\<close>

locale agent_frame = shared_inv B R for B :: "'db mysql" and R :: "'db world \<Rightarrow> bool" +
  fixes P :: "'j agent \<Rightarrow> bool" and C :: "'j ressource \<Rightarrow> bool"
  assumes P_fields: "P a \<Longrightarrow> P (a\<lparr>ag_client := Some h\<rparr>)" "P a \<Longrightarrow> P (a\<lparr>ag_client := Some h, ready := True\<rparr>)"
      "P a \<Longrightarrow> P (a\<lparr>api := v\<rparr>)" "P a \<Longrightarrow> P (a\<lparr>ag_baseurl := u\<rparr>)" "P a \<Longrightarrow> P (a\<lparr>pool_freq := f\<rparr>)"
      "P a \<Longrightarrow> P (a\<lparr>since := t\<rparr>)"
    and P_ressources: "P a \<Longrightarrow> (\<And>r. r \<in> set rs \<Longrightarrow> r \<notin> set (ressources a) \<Longrightarrow> C r) \<Longrightarrow> P (a\<lparr>ressources := rs\<rparr>)"
    and P_member: "P a \<Longrightarrow> r \<in> set (ressources a) \<Longrightarrow> C r"
    and C_defs: "C (updateDefs J d r)" "C r \<Longrightarrow> C (r\<lparr>rc_def := None\<rparr>)"
    and C_events: "C r \<Longrightarrow> C (r\<lparr>event_factory := f'\<rparr>)" "C r \<Longrightarrow> C (r\<lparr>current_events := m\<rparr>)"
begin

definition Q :: "'j agent \<times> 'db world \<Rightarrow> bool" where
  "Q = (\<lambda>(a, w). P a \<and> R w)"

lemma Q_simp [simp]: "Q (a, w) \<longleftrightarrow> P a \<and> R w"
  by (simp add: Q_def)

lemma keeps_parts:
  "(\<And>self. keeps R (f self)) \<Longrightarrow> keeps Q (on_db f)" "keeps R n \<Longrightarrow> keeps Q (on_snd n)"
  "(\<And>a. P a \<Longrightarrow> P (g a)) \<Longrightarrow> keeps Q (on_fst (modify g))"
  by (auto simp: keeps_def on_db_def on_snd_def on_fst_def modify_def split: prod.splits) (metis snd_conv)+

lemma P_keep: "P a \<Longrightarrow> set rs \<subseteq> set (ressources a) \<Longrightarrow> P (a\<lparr>ressources := rs\<rparr>)"
  by (rule P_ressources) auto

lemma P_update: "P a \<Longrightarrow> (j < length (ressources a) \<Longrightarrow> C r) \<Longrightarrow> P (a\<lparr>ressources := (ressources a)[j := r]\<rparr>)"
  using set_update_subset_insert [of "ressources a" j r]
  by (cases "j < length (ressources a)") (auto intro!: P_ressources simp: list_update_beyond)

lemma P_dangle: "P a \<Longrightarrow> P (a\<lparr>api := v, ressources := map (\<lambda>r. r\<lparr>rc_def := None\<rparr>) (ressources a)\<rparr>)"
proof -
  assume P: "P a"
  have "P ((a\<lparr>api := v\<rparr>)\<lparr>ressources := map (\<lambda>r. r\<lparr>rc_def := None\<rparr>) (ressources a)\<rparr>)"
    using P_member [OF P] by (intro P_ressources P_fields P) (auto intro: C_defs)
  then show ?thesis by simp
qed

lemma keeps_client: "keeps (\<lambda>(h, w). R w) m \<Longrightarrow> keeps Q (on_client m)"
  by (auto simp: keeps_def on_client_def case_prod_beta P_fields split: option.split)

lemma keeps_on_ressource:
  assumes "keeps (\<lambda>(r, w). R w) k" and "keeps (\<lambda>(r, w). C r) k"
  shows "keeps Q (on_ressource i k)"
  using assms P_member
  by (auto simp: keeps_def on_ressource_def case_prod_beta intro!: P_update)

lemma keeps_on_new:
  assumes "keeps (\<lambda>(r, w). R w) l" and "\<And>w r' w'. l (r, w) = (Ret (), (r', w')) \<Longrightarrow> C r'"
  shows "keeps Q (on_new r l)"
proof (rule keepsI_pair)
  fix a w assume q: "Q (a, w)"
  obtain x r' w' where run: "l (r, w) = (x, (r', w'))" by (metis surj_pair)
  have w': "R w'" using keeps_run [OF assms(1) run] q by simp
  show "Q (snd (on_new r l (a, w)))"
  proof (cases "x = Ret ()")
    case True
    with assms(2) run have "C r'" by simp
    then have "P (a\<lparr>ressources := ressources a @ [r']\<rparr>)" using q by (intro P_ressources) auto
    with True run w' show ?thesis by (simp add: on_new_def)
  next
    case False
    with run w' q show ?thesis by (cases x) (simp_all add: on_new_def)
  qed
qed

lemma keeps_C_snd: "keeps (\<lambda>(r, w). C r) (on_snd m)"
  by (auto simp: keeps_def on_snd_def split: prod.splits)

lemma keeps_C_steps:
  "keeps (\<lambda>(r, w). C r) (check_rule B J ftoa al line e)" "keeps (\<lambda>(r, w). C r) (check_open B J line p)"
  "keeps (\<lambda>(r, w). C r) (store_line B J line)"
  unfolding check_rule_def check_open_def raise_event_def store_line_def Let_def
  by (intro keeps_intros keeps_on_fst keeps_modify keeps_C_snd; simp add: C_events)+

lemma keeps_C:
  "keeps (\<lambda>(r, w). C r) (ressource_parse B J ftoa al data)"
  "ressource_init B J (r, w) = (Ret (), (r', w')) \<Longrightarrow> C r'"
proof -
  show "keeps (\<lambda>(r, w). C r) (ressource_parse B J ftoa al data)"
    unfolding ressource_parse_def parse_line_def by (intro keeps_intros keeps_C_steps)
  assume run: "ressource_init B J (r, w) = (Ret (), (r', w'))"
  then obtain d where d: "rc_def r = Some d"
    by (cases "rc_def r") (simp_all add: ressource_init_def prog_simps)
  have load: "keeps (\<lambda>(r, w). C r) (load_rows B q msg step)" if "\<And>x. keeps (\<lambda>(r, w). C r) (step x)" for q msg step
    unfolding load_rows_def try_store_on_def
    by (intro keeps_intros keeps_C_snd) (auto split: store_res.split intro!: keeps_intros keeps_C_snd that)
  have "keeps (\<lambda>(r, w). C r) (load_current B x)" "keeps (\<lambda>(r, w). C r) (load_rule B x)" for x
    unfolding load_current_def load_rule_def
    by (intro keeps_intros keeps_on_fst keeps_modify; simp add: C_events)+
  then have "keeps (\<lambda>(r, w). C r) (bnd (load_rows B q msg (load_current B)) (\<lambda>_. load_rows B q' msg' (load_rule B)))" for q msg q' msg'
    by (intro keeps_intros load)
  moreover have "bnd (load_rows B (current_query u) msg (load_current B)) (\<lambda>_. load_rows B (factory_query u) msg' (load_rule B)) (u, w)
      = (Ret (), (r', w'))" if "u = updateDefs J d r" and "msg = ''Failed to get current events for '' @ rc_table u"
      and "msg' = ''Failed to get event factory for '' @ rc_table u" for u msg msg'
    using run d that by (simp add: ressource_init_def prog_simps)
  ultimately show "C r'" using C_defs(1) keeps_run by fastforce
qed

lemma keeps_getJSON: "keeps (\<lambda>(h, w). R w) (getJSON A J cfg path)"
proof -
  have srv: "R w \<Longrightarrow> R (w\<lparr>srv := d\<rparr>)" for w d using log_free by (simp add: srv_log_free_def)
  have "keeps (\<lambda>(h, w). R w) (http_request A opt path)" "keeps (\<lambda>(h, w). R w) (https_request A opt path)" for opt path
    by (auto simp: keeps_def http_request_def https_request_def srv split: option.splits prod.splits)
  moreover have "keeps R (outside m)" for m :: "('db, client) prog" by (rule keeps_outside) (rule srv)
  ultimately show ?thesis
    unfolding getJSON_def HttpClient_request_def by (intro db_intros) (auto split: option.split intro!: db_intros)
qed

lemma keeps_api_at: "keeps Q (api_at E ks)"
  unfolding api_at_def by (intro db_intros keeps_parts P_fields)

lemma keeps_failed_grab:
  assumes "ev_B E = B" and "keeps Q m"
  shows "keeps Q (failed_grab E from d m)"
  unfolding failed_grab_def assms(1) by (intro db_intros keeps_parts assms(2))

lemmas keeps_agent = db_intros keeps_parts keeps_client keeps_on_ressource keeps_on_new P_fields P_dangle keeps_C keeps_api_at keeps_failed_grab keeps_getJSON
  keeps_alerts keeps_ressource

lemma keeps_createRessources: "ev_B E = B \<Longrightarrow> keeps Q (createRessources E)"
proof -
  assume B: "ev_B E = B"
  have "keeps Q (update_known E key tbl j)" for key tbl j
    unfolding update_known_def by (intro keeps_agent P_update C_defs)
  moreover have "keeps Q (create_client E key tbl owner resid serv)" for key tbl owner resid serv
    unfolding create_client_def Let_def B by (intro keeps_agent)
  ultimately have "keeps Q (create_path E key origin name)" for key origin name
    unfolding create_path_def add_ressource_def link_service_def link_host_def B by (intro keeps_agent) auto
  then show ?thesis
    unfolding createRessources_def create_ressource_def by (intro keeps_agent B)
qed

lemma keeps_createTables: "ev_B E = B \<Longrightarrow> keeps Q (createTables E)"
proof -
  assume B: "ev_B E = B"
  have ty: "keeps Q (column_type E i j)" for i j
    unfolding column_type_def by (intro keeps_agent)
  have "keeps Q (create_column E i j ss)" for i j ss
    unfolding create_column_def by (intro keeps_agent ty)
  moreover have "keeps Q (add_column E i j)" for i j
    unfolding add_column_def B by (intro keeps_agent ty)
  moreover have "keeps Q (property_keys E i)" for i
    unfolding property_keys_def by (intro keeps_agent)
  ultimately have "keeps Q (create_or_extend E i)" for i
    unfolding create_or_extend_def create_table_def B by (intro keeps_agent) auto
  then show ?thesis unfolding createTables_def by (intro keeps_agent B)
qed

lemma keeps_agent_init: "ev_B E = B \<Longrightarrow> keeps Q (agent_init E)"
  and keeps_updateApi: "ev_B E = B \<Longrightarrow> keeps Q (updateApi E)"
proof -
  assume B: "ev_B E = B"
  have "keeps Q (updateCounter E x y z)" for x y z
    unfolding updateCounter_def Let_def B by (intro keeps_agent B)
  moreover have "keeps Q (load_api E)"
    unfolding load_api_def by (intro keeps_agent)
  moreover have "keeps Q (drop_ressources E)"
    unfolding drop_ressources_def by (intro keeps_agent P_keep) auto
  ultimately have ready: "keeps Q (updateApi_ready E)"
    unfolding updateApi_ready_def by (intro keeps_agent keeps_createRessources keeps_createTables B) auto
  have row: "keeps Q (read_agent_row E r)" for r
    unfolding read_agent_row_def B by (intro keeps_agent)
  have "keeps Q (agent_config E)"
    unfolding agent_config_def try_store_on_def B
    by (intro keeps_agent row) (auto split: store_res.split intro!: keeps_agent row)
  moreover have srv: "R w \<Longrightarrow> R (w\<lparr>srv := d\<rparr>)" for w d using log_free by (simp add: srv_log_free_def)
  have "keeps R (HttpClient_init (ev_A E) (ev_J E) url ssl (ev_cfg E))" for url ssl
    unfolding HttpClient_init_def by (intro db_intros keeps_outside srv)
  ultimately show init: "keeps Q (agent_init E)"
    unfolding agent_init_def by (intro keeps_agent ready B) auto
  with ready show "keeps Q (updateApi E)" unfolding updateApi_def by (intro keeps_agent)
qed

lemma keeps_collect_service: "ev_B E = B \<Longrightarrow> keeps Q (collect_service E t p hosts)"
proof -
  assume B: "ev_B E = B"
  have "keeps Q (log_entry E i j acc)" for i j acc
    unfolding log_entry_def Let_def B by (intro keeps_agent)
  moreover have "keeps Q (process_entry E i t j acc)" for i t j acc
    unfolding process_entry_def Let_def B by (intro keeps_agent)
  moreover have "keeps Q (socket_entry E i t j acc)" for i t j acc
    unfolding socket_entry_def Let_def B by (intro keeps_agent)
  ultimately have "keeps Q (collect_service E t (n, s) hosts)" for n s
    unfolding collect_service_def prod.case collect_logs_def collect_counts_def collect_alert_def collect_status_def B
    by (intro keeps_agent) auto
  then show ?thesis by (cases p) simp
qed

lemma keeps_collect_round: "ev_B E = B \<Longrightarrow> keeps Q (collect_round E)"
proof -
  assume B: "ev_B E = B"
  have "keeps Q (collect E)"
    unfolding collect_def collect_data_def missing_history_def collect_ressource_def Let_def B
    by (intro keeps_agent keeps_collect_service B)
  then show ?thesis unfolding collect_round_def by (intro keeps_agent)
qed

end

text \<open>The counter of rounds is left alone by everything but the thread.\<close>

interpretation count_frame: agent_frame B "\<lambda>w. True" "\<lambda>a. collectCount a = c" "\<lambda>r. True" for B :: "'db mysql" and c
  by unfold_locales (simp_all add: srv_log_free_def keeps_def)

lemma refresh_count:
  assumes "refresh E (a, w) = (Ret (), (a', w'))"
  shows "collectCount a' = (if 5 < collectCount a then 0 else collectCount a)"
proof (cases "5 < collectCount a")
  case True
  with assms show ?thesis
    by (auto simp: refresh_def bnd_gets bnd_Ret_iff on_fst_def modify_def split: prod.splits)
next
  case False
  with assms show ?thesis by (auto simp: refresh_def prog_simps)
qed

lemma agent_round_count:
  assumes "agent_round E (a, w) = (Ret (), (a', w'))"
  shows "collectCount a' = (if 5 < collectCount a then 1 else collectCount a + 1)"
proof -
  obtain a1 w1 where first: "refresh E (a, w) = (Ret (), (a1, w1))"
    and rest: "collect_round E (a1\<lparr>collectCount := collectCount a1 + 1\<rparr>, w1) = (Ret (), (a', w'))"
    using assms by (auto simp: agent_round_def bnd_Ret_iff [of "refresh E"] prog_simps)
  have "count_frame.Q (collectCount a1 + 1) (a', w')"
    by (rule keeps_run [OF count_frame.keeps_collect_round rest]) simp_all
  then show ?thesis using refresh_count [OF first] by simp
qed

definition round_number :: "nat \<Rightarrow> nat" where
  "round_number n = (if n = 0 then 0 else (n - 1) mod 6 + 1)"

lemma round_number_le: "round_number n \<le> 6"
proof -
  have "(n - 1) mod 6 < 6" by simp
  then have "(n - 1) mod 6 + 1 \<le> 6" by linarith
  then show ?thesis unfolding round_number_def by simp
qed

lemma round_number_Suc: "round_number (Suc n) = (if 5 < round_number n then 1 else round_number n + 1)"
proof (cases n)
  case (Suc m)
  have "m mod 6 < 6" by simp
  then show ?thesis using mod_Suc [of m 6] by (auto simp: round_number_def Suc)
qed (simp add: round_number_def)

lemma agent_rounds_Suc: "agent_rounds E (Suc n) = bnd (agent_rounds E n) (\<lambda>_. agent_round E)"
proof (induction n)
  case 0
  show ?case by (auto simp: bnd_def ret_def fun_eq_iff split: prod.split outcome.split)
next
  case (Suc n)
  have "agent_rounds E (Suc (Suc n)) = bnd (agent_round E) (\<lambda>_. bnd (agent_rounds E n) (\<lambda>_. agent_round E))"
    using Suc by simp
  then show ?case by (simp add: bnd_assoc)
qed

lemma agent_rounds_count:
  "agent_rounds E n (a, w) = (Ret (), (a', w')) \<Longrightarrow> collectCount a = 0 \<Longrightarrow> unat (collectCount a') = round_number n"
proof (induction n arbitrary: a' w')
  case 0 then show ?case by (simp add: prog_simps round_number_def)
next
  case (Suc n)
  obtain a1 w1 where "agent_rounds E n (a, w) = (Ret (), (a1, w1))" and r: "agent_round E (a1, w1) = (Ret (), (a', w'))"
    using Suc.prems(1) unfolding agent_rounds_Suc by (auto simp: bnd_Ret_iff)
  with Suc have IH: "unat (collectCount a1) = round_number n" by blast
  moreover note round_number_le [of n]
  ultimately have "unat (collectCount a1 + 1) = round_number n + 1"
    by (simp add: unat_word_ariths(1))
  moreover have "5 < collectCount a1 \<longleftrightarrow> 5 < round_number n" using IH by (simp add: word_less_nat_alt)
  ultimately show ?case using agent_round_count [OF r] by (simp add: round_number_Suc)
qed

subsection \<open>Paths\<close>

lemma path_res_run:
  assumes "CHR ''/'' \<notin> set q" and "length p < 2 ^ 64"
  shows "path_res (CHR ''/'' # p @ CHR ''/'' # q) = Ret p"
proof -
  have "str_rfind (CHR ''/'' # p @ CHR ''/'' # q) (CHR ''/'') = Suc (length p)"
    using str_rfind_stop [OF assms(1), of "CHR ''/'' # p"] by simp
  moreover have "sz (int (length p)) = length p" using assms(2) by (simp add: sz_small)
  ultimately show ?thesis by (simp add: path_res_def substr_def)
qed

lemma origin_name_host: "length x < npos \<Longrightarrow> origin_name (''system/'' @ x) = Ret (''host'', x)"
  by (simp add: origin_name_def substr_def)

lemma origin_name_service:
  assumes "CHR ''/'' \<notin> set n" and "length n + length x + 20 < 2 ^ 64"
  shows "origin_name (''service/'' @ (c # n) @ CHR ''/'' # x) = Ret (''service'', x)"
proof -
  let ?res = "''service/'' @ (c # n) @ CHR ''/'' # x" and ?pre = "''service/'' @ c # n @ [CHR ''/'']"
  have "str_find (n @ CHR ''/'' # x) (CHR ''/'') = length n" using assms(1) by (rule str_find_stop)
  moreover have "sz (int (length n) + 10) = length ?pre" using assms(2) by (simp add: sz_small)
  moreover have "substr ?res 9 npos = Ret (n @ CHR ''/'' # x)"
    using assms(2) by (simp add: substr_def npos_def)
  moreover have "substr ?res (length ?pre) npos = Ret x"
    using substr_prefix [of ?pre x npos] assms(2) by (simp add: npos_def)
  moreover have "take 7 ?res \<noteq> ''system/''" by simp
  ultimately show ?thesis unfolding origin_name_def by simp
qed

subsection \<open>Examples\<close>

definition demo_env :: "json json_api \<Rightarrow> (nat \<Rightarrow> string, json) env" where
  "demo_env J = \<lparr>ev_B = fixed_mysql [], ev_A = pipe 2, ev_J = J, ev_ftoa = (\<lambda>x. []), ev_now = (\<lambda>d. 0),
     ev_al = (\<lambda>n. None), ev_cfg = JNull\<rparr>"

lemma demo_env_simps [simp]:
  "ev_B (demo_env J) = fixed_mysql []" "ev_A (demo_env J) = pipe 2" "ev_J (demo_env J) = J"
  "ev_cfg (demo_env J) = JNull"
  by (simp_all add: demo_env_def)

lemma new_agent_simps [simp]:
  "ag_id (new_agent J i) = i" "api (new_agent J i) = j_null J" "ressources (new_agent J i) = []"
  "collectCount (new_agent J i) = 0" "ready (new_agent J i) = False" "active (new_agent J i) = False"
  by (simp_all add: new_agent_def)

section \<open>Properties\<close>

text \<open>C14. The name of a resource agrees with the place its data is read from: of the paths
  \<open>/system/c/r/history\<close> and \<open>/service/n/c/r/history\<close> both are \<open>c/r\<close>, with origin host and
  service, and the data is looked up under \<open>system\<close> and under the collectors of the service,
  at \<open>c\<close> and \<open>r\<close>.\<close>

theorem path_names_data:
  assumes "CHR ''/'' \<notin> set c" and "CHR ''/'' \<notin> set r" and "CHR ''/'' \<notin> set n" and "n \<noteq> []"
    and "length n + length c + length r < 2 ^ 32"
    and host: "rc_baseurl h = ''/system/'' @ c @ ''/'' @ r @ ''/history''" "\<not> isService h"
    and service: "rc_baseurl s = ''/service/'' @ n @ ''/'' @ c @ ''/'' @ r @ ''/history''" "isService s" "rc_servName s = n"
  shows "obind (path_res (rc_baseurl h)) origin_name = Ret (''host'', c @ ''/'' @ r)
    \<and> data_path h = Ret [''system'', c, r]
    \<and> obind (path_res (rc_baseurl s)) origin_name = Ret (''service'', c @ ''/'' @ r)
    \<and> data_path s = Ret [''services'', n, ''collectors'', c, r]"
proof -
  have hist: "CHR ''/'' \<notin> set ''history''" "CHR ''/'' \<notin> set ''system''" "CHR ''/'' \<notin> set ''service''" by simp_all
  have h: "rc_baseurl h = CHR ''/'' # (''system/'' @ (c @ ''/'' @ r)) @ CHR ''/'' # ''history''" using host by simp
  have s: "rc_baseurl s = CHR ''/'' # (''service/'' @ n @ CHR ''/'' # (c @ ''/'' @ r)) @ CHR ''/'' # ''history''"
    using service by simp
  obtain a m where n: "n = a # m" using assms(4) by (cases n) auto
  have "path_res (rc_baseurl h) = Ret (''system/'' @ (c @ ''/'' @ r))"
    unfolding h by (rule path_res_run [OF hist(1)]) (use assms(5) in simp)
  moreover have "origin_name (''system/'' @ (c @ ''/'' @ r)) = Ret (''host'', c @ ''/'' @ r)"
    by (rule origin_name_host) (use assms(5) in \<open>simp add: npos_def\<close>)
  moreover have "path_res (rc_baseurl s) = Ret (''service/'' @ n @ CHR ''/'' # (c @ ''/'' @ r))"
    unfolding s by (rule path_res_run [OF hist(1)]) (use assms(5) in simp)
  moreover have "origin_name (''service/'' @ n @ CHR ''/'' # (c @ ''/'' @ r)) = Ret (''service'', c @ ''/'' @ r)"
    unfolding n by (rule origin_name_service) (use assms(3,5) n in simp_all)
  moreover have "getlines (CHR ''/'') (rc_baseurl h) = [[], ''system'', c, r, ''history'']"
    using getlines_stop [of "CHR ''/''" "[]"] getlines_stop [OF hist(2)] getlines_stop [OF assms(1)]
      getlines_stop [OF assms(2)] getlines_last [OF hist(1)] by (simp add: host)
  moreover have "getlines (CHR ''/'') (rc_baseurl s) = [[], ''service'', n, c, r, ''history'']"
    using getlines_stop [of "CHR ''/''" "[]"] getlines_stop [OF hist(3)] getlines_stop [OF assms(1)]
      getlines_stop [OF assms(2)] getlines_stop [OF assms(3)] getlines_last [OF hist(1)] by (simp add: service)
  ultimately show ?thesis using host(2) service(2,3) by (simp add: data_path_def part_def)
qed

theorem path_names_data_witness:
  "data_path ((new_ressource 1 2 ''/system/cpu/usage/history'' ''cpu'' JNull)) = Ret [''system'', ''cpu'', ''usage'']"
proof -
  let ?h = "new_ressource 1 2 ''/system/cpu/usage/history'' ''cpu'' JNull"
  let ?s = "setService ''web'' (new_ressource 1 2 ''/service/web/cpu/usage/history'' ''cpu'' JNull)"
  show ?thesis
    using path_names_data [of "''cpu''" "''usage''" "''web''" ?h ?s]
    by (simp add: new_ressource_def setService_def)
qed

text \<open>C37. A short path stops the agent: if the first path of the API document is a slash and fewer
  than nine characters without another slash, \<open>createRessources\<close> throws \<open>out_of_range\<close> before it
  has created a single resource.\<close>

theorem short_path_throws:
  assumes conn: "conn w (Agent (ag_id a))"
    and doc: "j_touch_path (ev_J E) (api a) [''paths''] = Ret v" "j_path (ev_J E) v [''paths''] = Ret ps"
    and first: "map fst (j_items (ev_J E) ps) = (CHR ''/'' # x) # keys"
    and short: "CHR ''/'' \<notin> set x" "length x < 9"
  shows "createRessources E (a, w) = (Throw ''basic_string::substr'', (a\<lparr>api := v\<rparr>, w))"
proof -
  have "str_rfind (CHR ''/'' # x) (CHR ''/'') = 0" using str_rfind_stop [OF short(1), of "[]"] by simp
  moreover have "sz (int 0 - 1) = npos" by (simp add: sz_def npos_def)
  ultimately have res: "path_res (CHR ''/'' # x) = Ret x"
    using short(2) by (simp add: path_res_def substr_def npos_def)
  have "take 7 x \<noteq> ''system/''" using short(1) set_take_subset [of 7 x] by auto
  then have "origin_name x = Throw ''basic_string::substr''"
    using short(2) by (simp add: origin_name_def substr_def)
  with res have "create_ressource E (CHR ''/'' # x) s = (Throw ''basic_string::substr'', s)" for s
    by (simp add: create_ressource_def prog_simps)
  with conn doc first show ?thesis
    by (simp add: createRessources_def failed_grab_def on_db_def api_at_def prog_simps bnd_def)
qed

theorem short_path_throws_witness:
  "fst (createRessources (demo_env jsoncpp) ((new_agent jsoncpp 1)\<lparr>api := JObj [(''paths'', JObj [(''/all'', JNull)])]\<rparr>,
     demo_world (\<lambda>s. []))) = Throw ''basic_string::substr''"
  using short_path_throws [of "demo_world (\<lambda>s. [])" "(new_agent jsoncpp 1)\<lparr>api := JObj [(''paths'', JObj [(''/all'', JNull)])]\<rparr>"
    "demo_env jsoncpp" _ _ "''all''" "[]"] by simp

text \<open>C33. The API document is asked for every sixth round: after \<open>n\<close> rounds that all returned the
  counter is below seven, and round \<open>n + 1\<close> begins with a refresh exactly when \<open>n\<close> is a positive
  multiple of six.\<close>

theorem refresh_schedule:
  assumes "agent_rounds E n (a, w) = (Ret (), (a', w'))" and "collectCount a = 0"
  shows "unat (collectCount a') \<le> 6 \<and> (5 < collectCount a' \<longleftrightarrow> 0 < n \<and> 6 dvd n)"
proof -
  have c: "unat (collectCount a') = round_number n" by (rule agent_rounds_count [OF assms])
  have "5 < round_number n \<longleftrightarrow> 0 < n \<and> 6 dvd n"
  proof (cases n)
    case (Suc m)
    then show ?thesis using mod_Suc [of m 6] mod_less_divisor [of 6 m]
      by (auto simp: round_number_def dvd_eq_mod_eq_0)
  qed (simp add: round_number_def)
  moreover note round_number_le [of n]
  ultimately show ?thesis using c by (simp add: word_less_nat_alt)
qed

theorem refresh_schedule_witness:
  "\<exists>a' w'. agent_rounds (demo_env jsoncpp) 1
      ((new_agent jsoncpp 1)\<lparr>ag_client := Some (demo_http [demo_connection]), pool_freq := Some 60\<rparr>,
       demo_net_world (head_text ''1.1'' ''200 OK'' [(''content-length'', ''2'')] @ ''{]'')) = (Ret (), (a', w'))
    \<and> unat (collectCount a') \<le> 6"
proof -
  let ?w = "demo_net_world (head_text ''1.1'' ''200 OK'' [(''content-length'', ''2'')] @ ''{]'')"
  let ?a = "(new_agent jsoncpp 1)\<lparr>ag_client := Some (demo_http [demo_connection]), pool_freq := Some 60\<rparr>"
  let ?path = "''/all?since='' @ ev_ftoa (demo_env jsoncpp) (trunc 0)"
  obtain h1 w1 where f: "fetch (pipe 2) jsoncpp JNull ?path (demo_http [demo_connection], ?w) = (Ret (Some ''{]''), (h1, w1))"
    using demo_fetch [of "''{]''" jsoncpp JNull ?path] by (elim meta_impE exE) simp_all
  have p: "j_parse jsoncpp ''{]'' = None" by (simp add: jsoncpp_def json_parse_def)
  obtain h' w' where g: "getJSON (pipe 2) jsoncpp JNull ?path (demo_http [demo_connection], ?w)
      = (Ret (False, j_broken jsoncpp ''{]''), (h', w'))"
    using getJSON_malformed [OF f p] by (elim exE)
  have "\<not> conn w' self" for self using getJSON_run(4) [OF g] by (simp add: demo_net_world_def)
  then have "\<exists>a'. agent_rounds (demo_env jsoncpp) 1 (?a, ?w) = (Ret (), (a', w'))"
    using g by (simp add: agent_round_def refresh_def collect_round_def collect_def on_client_def on_db_def bnd_def
        gets_def modify_def ret_def on_fst_def on_snd_def release_def new_agent_def)
  then show ?thesis using refresh_schedule [of "demo_env jsoncpp" 1 ?a ?w _ w'] by (auto simp: new_agent_def)
qed

text \<open>The event types as \<open>sql/schema.sql\<close> creates them, the most severe first.\<close>

definition seeded_names :: "string list" where
  "seeded_names = [''Critical'', ''Error'', ''Warning'', ''Notice'', ''Information'']"

definition seeded_schema :: schema_db where
  "seeded_schema = empty_schema\<lparr>rows := (rows empty_schema)(EventTypes := enumerate 1 (map (\<lambda>n. [VStr n]) seeded_names)),
     auto := (auto empty_schema)(EventTypes := 6)\<rparr>"

definition seeded_levels :: "alerter_level list" where
  "seeded_levels = [Linfo, Lnotice, Lwarning, Lerror, Lcritical]"

lemma seeded_eval:
  "list_all (\<lambda>i. list_all (\<lambda>j. (i < j) = (seeded_levels ! i < seeded_levels ! j)) [0..<5]) [0..<5]"
  "list_all (\<lambda>k. (seeded_levels ! k \<in> {Lcritical, Lerror, Lwarning}) = (\<not> k < 2)) [0..<5]"
  by code_simp+

lemma seeded_level_less: "i < 5 \<Longrightarrow> j < 5 \<Longrightarrow> i < j \<longleftrightarrow> seeded_levels ! i < seeded_levels ! j"
  using seeded_eval(1) by (simp add: list_all_iff)

lemma seeded_email: "k < 5 \<Longrightarrow> email_sendAlert (level_value (seeded_levels ! k)) dest t m = None \<longleftrightarrow> k < 2"
  using seeded_eval(2) unfolding email_sendAlert_def insert_iff level_value_inject by (auto simp: list_all_iff)

text \<open>C24. Severities are inverted: in the database as it is created, the id that \<open>collect\<close> obtains for
  the level of a log line, keeps the greatest of, and passes to the alerters as the level of the
  alert, is the level info for critical lines and the level critical for lines of information, and
  the less severe a line the higher the level. The mail script, which drops the two lowest levels,
  mails information and drops critical lines and errors.\<close>

theorem severity_inverted:
  assumes "k < 5" and "conn w self" and "srv w = seeded_schema"
  shows "getEventType schema_mysql self (seeded_names ! k) w
    = (Ret (level_value ([Linfo, Lnotice, Lwarning, Lerror, Lcritical] ! k)), w)
    \<and> (\<forall>j<5. (k < j) = ([Linfo, Lnotice, Lwarning, Lerror, Lcritical] ! k < [Linfo, Lnotice, Lwarning, Lerror, Lcritical] ! j))
    \<and> (email_sendAlert (level_value ([Linfo, Lnotice, Lwarning, Lerror, Lcritical] ! k)) dest t m = None) = (k < 2)"
proof -
  have inv: "schema_inv seeded_schema"
    using empty_schema_inv by (simp add: schema_inv_def table_ok_def seeded_schema_def seeded_names_def)
  consider "k = 0" | "k = 1" | "k = 2" | "k = 3" | "k = 4" using assms(1) by linarith
  then have "key_of seeded_schema EventTypes lower [v_str (seeded_names ! k)] = Some (Suc k)"
    by cases (simp_all add: key_of_def matching_def same_key_def v_str_def c_str_def seeded_schema_def seeded_names_def
        empty_schema_def tolower_def char_eval)
  with inv assms have "getEventType schema_mysql self (seeded_names ! k) w = (Ret (of_nat (Suc k)), w)"
    using event_types_table.get_or_create_found [of w self "seeded_names ! k" "Suc k"]
    unfolding getEventType_def haveEventType_def by simp
  moreover have "of_nat (Suc k) = level_value (seeded_levels ! k)"
    using assms(1) by (auto simp: less_Suc_eq numeral_eq_Suc seeded_levels_def)
  ultimately show ?thesis
    using seeded_level_less [OF assms(1)] seeded_email [OF assms(1)] by (simp add: seeded_levels_def)
qed

theorem severity_inverted_witness:
  "fst (getEventType schema_mysql (Agent 1) ''Critical'' (demo_world seeded_schema)) = Ret (level_value Linfo)
    \<and> email_sendAlert (level_value Linfo) ''a@b'' ''t'' ''m'' = None"
  using severity_inverted [of 0 "demo_world seeded_schema" "Agent 1" "''a@b''" "''t''" "''m''"] by (simp add: seeded_names_def)



end
