(* ===== verification/Services.thy ===== *)
theory Services
  imports AgentClient
begin

text \<open>
  What \<open>agentClient::collect\<close> counts for a service: its processes and sockets by their status, and
  which of the failed ones are news.
\<close>

section \<open>Well-formed entries\<close>

text \<open>The members \<open>collect\<close> reads of a process and of a socket are there and have the types it wants.\<close>

definition process_members :: "'j json_api \<Rightarrow> 'j \<Rightarrow> bool" where
  "process_members J j \<longleftrightarrow>
     list_all (\<lambda>k. \<exists>s. c_text_at J j [k] = Ret s) [''name'', ''full_path'', ''cwd'', ''username'', ''status'']
     \<and> (\<exists>s. text_at J j [''name''] = Ret s) \<and> (\<exists>s. text_at J j [''status''] = Ret s)
     \<and> (\<exists>n. obind (j_at J j ''pid'') (j_asInt J) = Ret n)"

definition socket_members :: "'j json_api \<Rightarrow> 'j \<Rightarrow> bool" where
  "socket_members J j \<longleftrightarrow>
     list_all (\<lambda>k. \<exists>s. c_text_at J j [k] = Ret s) [''name'', ''status'']
     \<and> (\<exists>s. text_at J j [''name''] = Ret s) \<and> (\<exists>s. text_at J j [''status''] = Ret s)"

definition status_ok :: "'j json_api \<Rightarrow> 'j \<Rightarrow> bool" where
  "status_ok J j \<longleftrightarrow> text_at J j [''status''] = Ret ''ok''"

text \<open>A server that answers every query with a number.\<close>

definition numbers :: "'db mysql \<Rightarrow> bool" where
  "numbers B \<longleftrightarrow> (\<forall>q d. \<exists>n k d'. my_store B q d = (Rows [[n]], d') \<and> my_int B n = Some k)"

section \<open>Lemmas\<close>

lemma have_row_numbers:
  assumes "numbers B" and "conn w self"
  shows "\<exists>b w'. have_row B self from q msg w = (Ret b, w') \<and> conn w' = conn w"
proof -
  obtain n k d where "my_store B q (srv w) = (Rows [[n]], d)" "my_int B n = Some k"
    using assms(1) unfolding numbers_def by metis
  then show ?thesis using assms(2) by (auto simp: have_row_held row_positive_count)
qed

lemma exec_then: "\<exists>w'. bnd (on_snd (myqExec B q from msg)) (\<lambda>_. ret x) (a, w) = (Ret x, (a, w')) \<and> conn w' = conn w"
  using myqExec_returns [of B q "from" msg w] by (auto simp: prog_simps)

lemma on_db_run: "f (Agent (ag_id a)) w = (Ret x, w') \<Longrightarrow> bnd (on_db f) g (a, w) = g x (a, w')"
  by (simp add: on_db_def on_snd_def bnd_def)

text \<open>An entry that is well formed is counted as what its status says, and as news at most once.\<close>

definition counted :: "bool \<Rightarrow> bool \<Rightarrow> counts \<Rightarrow> counts" where
  "counted good new = (\<lambda>(ok, failed, nfailed). if good then (ok + 1, failed, nfailed)
     else (ok, failed + 1, if new then nfailed + 1 else nfailed))"

lemma process_counted:
  assumes "numbers (ev_B E)" and "conn w (Agent (ag_id a))" and "process_members (ev_J E) j"
  shows "\<exists>new w'. process_entry E i t j c (a, w) = (Ret (counted (status_ok (ev_J E) j) new c), (a, w')) \<and> conn w' = conn w"
proof -
  obtain ok failed nfailed where c: "c = (ok, failed, nfailed)" by (rule prod_cases3)
  obtain x1 x2 x3 x4 x5 x6 st pid where m: "c_text_at (ev_J E) j [''name''] = Ret x1" "c_text_at (ev_J E) j [''full_path''] = Ret x2"
    "c_text_at (ev_J E) j [''cwd''] = Ret x3" "c_text_at (ev_J E) j [''username''] = Ret x4"
    "c_text_at (ev_J E) j [''status''] = Ret x5" "text_at (ev_J E) j [''name''] = Ret x6"
    "text_at (ev_J E) j [''status''] = Ret st" "obind (j_at (ev_J E) j ''pid'') (j_asInt (ev_J E)) = Ret pid"
    using assms(3) by (auto simp: process_members_def)
  obtain b w1 where have_run: "haveProcessStatus (ev_B E) (Agent (ag_id a)) i x6 st w = (Ret b, w1)" "conn w1 = conn w"
    using have_row_numbers [OF assms(1,2)] unfolding haveProcessStatus_def by metis
  note run = process_entry_def prod.case Let_def m lift_simps bnd_simps c
  show ?thesis
  proof (cases "st = ''ok''")
    case True
    have "\<exists>w'. process_entry E i t j c (a, w) = (Ret (ok + 1, failed, nfailed), (a, w')) \<and> conn w' = conn w"
      unfolding run if_P [OF True] by (rule exec_then)
    with True m(7) show ?thesis by (simp add: status_ok_def counted_def c)
  next
    case False
    have "\<exists>w'. process_entry E i t j c (a, w) = (Ret (ok, failed + 1, if b then nfailed else nfailed + 1), (a, w')) \<and> conn w' = conn w1"
      unfolding run if_not_P [OF False] bnd_assoc
        on_db_run [of "\<lambda>self. haveProcessStatus (ev_B E) self i x6 st", OF have_run(1)]
      by (rule exec_then)
    with False m(7) have_run(2) show ?thesis by (intro exI [of _ "\<not> b"]) (cases b; simp add: status_ok_def counted_def c)
  qed
qed

lemma socket_counted:
  assumes "numbers (ev_B E)" and "conn w (Agent (ag_id a))" and "socket_members (ev_J E) j"
  shows "\<exists>new w'. socket_entry E i t j c (a, w) = (Ret (counted (status_ok (ev_J E) j) new c), (a, w')) \<and> conn w' = conn w"
proof -
  obtain ok failed nfailed where c: "c = (ok, failed, nfailed)" by (rule prod_cases3)
  obtain x1 x2 x3 st where m: "c_text_at (ev_J E) j [''name''] = Ret x1" "c_text_at (ev_J E) j [''status''] = Ret x2"
    "text_at (ev_J E) j [''name''] = Ret x3" "text_at (ev_J E) j [''status''] = Ret st"
    using assms(3) by (auto simp: socket_members_def)
  obtain b w1 where have_run: "haveSocketStatus (ev_B E) (Agent (ag_id a)) i x3 st w = (Ret b, w1)" "conn w1 = conn w"
    using have_row_numbers [OF assms(1,2)] unfolding haveSocketStatus_def by metis
  note run = socket_entry_def prod.case Let_def m lift_simps bnd_simps c
  show ?thesis
  proof (cases "st = ''ok''")
    case True
    have "\<exists>w'. socket_entry E i t j c (a, w) = (Ret (ok + 1, failed, nfailed), (a, w')) \<and> conn w' = conn w"
      unfolding run if_not_P [of "st \<noteq> ''ok''", unfolded not_not, OF True] by (rule exec_then)
    with True m(4) show ?thesis by (simp add: status_ok_def counted_def c)
  next
    case False
    have "\<exists>w'. socket_entry E i t j c (a, w) = (Ret (ok, failed + 1, if b then nfailed else nfailed + 1), (a, w')) \<and> conn w' = conn w1"
      unfolding run if_P [of "st \<noteq> ''ok''", OF False] bnd_assoc
        on_db_run [of "\<lambda>self. haveSocketStatus (ev_B E) self i x3 st", OF have_run(1)]
      by (rule exec_then)
    with False m(4) have_run(2) show ?thesis by (intro exI [of _ "\<not> b"]) (cases b; simp add: status_ok_def counted_def c)
  qed
qed

text \<open>A loop over entries that are counted counts them all.\<close>

definition tally :: "'j json_api \<Rightarrow> 'j list \<Rightarrow> nat \<Rightarrow> counts" where
  "tally J js new = (of_nat (length (filter (status_ok J) js)), of_nat (length (filter (\<lambda>j. \<not> status_ok J j) js)), of_nat new)"

lemma counts_loop:
  assumes step: "\<And>j c w. j \<in> set js \<Longrightarrow> conn w self \<Longrightarrow>
      \<exists>new w'. f j c (a, w) = (Ret (counted (status_ok J j) new c), (a, w')) \<and> conn w' = conn w"
    and "conn w self" and "new \<le> length (filter (\<lambda>j. \<not> status_ok J j) ds)"
  shows "\<exists>new' w'. fold_prog f js (tally J ds new) (a, w) = (Ret (tally J (ds @ js) new'), (a, w'))
    \<and> conn w' = conn w \<and> new' \<le> length (filter (\<lambda>j. \<not> status_ok J j) (ds @ js))"
  using assms
proof (induction js arbitrary: ds new w)
  case Nil then show ?case by (auto simp: prog_simps)
next
  case (Cons j js)
  from Cons.prems(1) [of j w "tally J ds new"] Cons.prems(2) obtain n w1
    where one: "f j (tally J ds new) (a, w) = (Ret (counted (status_ok J j) n (tally J ds new)), (a, w1))" "conn w1 = conn w"
    by auto
  let ?new = "if \<not> status_ok J j \<and> n then Suc new else new"
  have c: "counted (status_ok J j) n (tally J ds new) = tally J (ds @ [j]) ?new"
    by (simp add: counted_def tally_def add.commute)
  have "?new \<le> length (filter (\<lambda>j. \<not> status_ok J j) (ds @ [j]))" using Cons.prems(3) by simp
  from Cons.IH [OF _ _ this, of w1] Cons.prems(1,2) one(2)
  obtain new' w' where "fold_prog f js (tally J (ds @ [j]) ?new) (a, w1) = (Ret (tally J ((ds @ [j]) @ js) new'), (a, w'))"
    "conn w' = conn w1" "new' \<le> length (filter (\<lambda>j. \<not> status_ok J j) ((ds @ [j]) @ js))" by auto
  with one c show ?case by (intro exI [of _ new'] exI [of _ w']) (simp add: prog_simps)
qed

section \<open>Properties\<close>

text \<open>C16. What is counted for a service is what its entries say: with a connection, a server that
  answers every query with a number and well-formed processes and sockets, \<open>collect\<close> gets through all
  of them, and counts as ok and as failed those with the status ok and the others, in 32 bits; the
  failures that are news are at most as many.\<close>

theorem service_counts:
  assumes "numbers (ev_B E)" and "conn w (Agent (ag_id a))"
    and ps: "items_at (ev_J E) s [''status'', ''process''] = Ret ps" "list_all (\<lambda>p. process_members (ev_J E) (snd p)) ps"
    and ss: "items_at (ev_J E) s [''status'', ''sockets''] = Ret ss" "list_all (\<lambda>p. socket_members (ev_J E) (snd p)) ss"
  shows "\<exists>nfailed w'. collect_counts E i t s (a, w) =
      (Ret (of_nat (length (filter (status_ok (ev_J E)) (map snd (ps @ ss)))),
            of_nat (length (filter (\<lambda>j. \<not> status_ok (ev_J E) j) (map snd (ps @ ss)))), of_nat nfailed), (a, w'))
    \<and> nfailed \<le> length (filter (\<lambda>j. \<not> status_ok (ev_J E) j) (map snd (ps @ ss))) \<and> conn w' = conn w"
proof -
  let ?J = "ev_J E"
  have start: "tally ?J [] 0 = (0, 0, 0)" by (simp add: tally_def)
  have "\<exists>n w'. fold_prog (process_entry E i t) (map snd ps) (tally ?J [] 0) (a, w) = (Ret (tally ?J ([] @ map snd ps) n), (a, w'))
      \<and> conn w' = conn w \<and> n \<le> length (filter (\<lambda>j. \<not> status_ok ?J j) ([] @ map snd ps))"
    by (rule counts_loop [OF _ assms(2)], rule process_counted [OF assms(1)]) (use ps(2) in \<open>auto simp: list_all_iff\<close>)
  then obtain n1 w1 where procs: "fold_prog (process_entry E i t) (map snd ps) (0, 0, 0) (a, w) = (Ret (tally ?J (map snd ps) n1), (a, w1))"
    "conn w1 = conn w" "n1 \<le> length (filter (\<lambda>j. \<not> status_ok ?J j) (map snd ps))"
    unfolding start append_Nil by (elim exE conjE) (rule that)
  have "conn w1 (Agent (ag_id a))" using assms(2) procs(2) by simp
  then have "\<exists>n w'. fold_prog (socket_entry E i t) (map snd ss) (tally ?J (map snd ps) n1) (a, w1)
      = (Ret (tally ?J (map snd ps @ map snd ss) n), (a, w'))
      \<and> conn w' = conn w1 \<and> n \<le> length (filter (\<lambda>j. \<not> status_ok ?J j) (map snd ps @ map snd ss))"
    by (intro counts_loop [OF _ _ procs(3)] socket_counted [OF assms(1)]) (use ss(2) in \<open>auto simp: list_all_iff\<close>)
  then obtain n2 w2 where socks: "fold_prog (socket_entry E i t) (map snd ss) (tally ?J (map snd ps) n1) (a, w1)
      = (Ret (tally ?J (map snd ps @ map snd ss) n2), (a, w2))"
    "conn w2 = conn w1" "n2 \<le> length (filter (\<lambda>j. \<not> status_ok ?J j) (map snd ps @ map snd ss))"
    by (elim exE conjE) (rule that)
  have "collect_counts E i t s (a, w) = (Ret (tally ?J (map snd (ps @ ss)) n2), (a, w2))"
    unfolding collect_counts_def ps(1) ss(1) using procs(1) socks(1) by (simp add: prog_simps)
  with procs socks show ?thesis by (intro exI [of _ n2] exI [of _ w2]) (simp add: tally_def)
qed

definition demo_process :: "string \<Rightarrow> json" where
  "demo_process st = JObj [(''cwd'', JStr ''/''), (''full_path'', JStr ''/bin/x''), (''name'', JStr ''x''), (''pid'', JInt 1),
     (''status'', JStr st), (''username'', JStr ''root'')]"

definition demo_status :: json where
  "demo_status = JObj [(''status'', JObj [(''process'', JArr [demo_process ''ok'', demo_process ''dead'']),
     (''sockets'', JArr [demo_process ''ok''])])]"

lemma demo_process_members: "process_members jsoncpp (demo_process st)" "socket_members jsoncpp (demo_process st)"
  "status_ok jsoncpp (demo_process st) \<longleftrightarrow> st = ''ok''"
  by (simp_all add: process_members_def socket_members_def status_ok_def demo_process_def c_text_at_def text_at_def json_asInt_def)

theorem service_counts_witness:
  "\<exists>nfailed w'. collect_counts ((demo_env jsoncpp)\<lparr>ev_B := fixed_mysql [[''0'']]\<rparr>) 7 0 demo_status
      (new_agent jsoncpp 1, demo_world (\<lambda>s. []))
    = (Ret (2, 1, of_nat nfailed), (new_agent jsoncpp 1, w')) \<and> nfailed \<le> 1"
  using service_counts [of "(demo_env jsoncpp)\<lparr>ev_B := fixed_mysql [[''0'']]\<rparr>" "demo_world (\<lambda>s. [])" "new_agent jsoncpp 1"
      demo_status "json_items (JArr [demo_process ''ok'', demo_process ''dead''])" "json_items (JArr [demo_process ''ok''])" 7 0]
  by (auto simp: numbers_def items_at_def demo_status_def demo_process_members)

end
