(* ===== verification/Tables.thy ===== *)
theory Tables
  imports AgentClient
begin

text \<open>
  The data tables \<open>agentClient::createTables\<close> creates for the definitions in the document of an agent,
  against the columns the inserts of \<open>ressourceClient\<close> name.
\<close>

section \<open>The columns of a definition\<close>

definition data_type :: "'j json_api \<Rightarrow> 'j \<Rightarrow> string option" where
  "data_type J t = (if j_is_text J t ''number'' then Some ''double(20,4)''
     else if j_is_text J t ''integer'' then Some ''integer(32)'' else None)"

definition column_line :: "string \<Rightarrow> string \<Rightarrow> string" where
  "column_line j t = tab @ j @ tab @ tab @ t @ '','' @ newline"

definition created :: "'j json_api \<Rightarrow> (string \<times> 'j) list \<Rightarrow> (string \<times> string) list" where
  "created J cols = [(j, t). (j, Some t) \<leftarrow> map (\<lambda>(j, v). (j, data_type J v)) cols, j \<noteq> ''timestamp'']"

text \<open>
  A definition that is all there: reading it does not change the document, and every column has a
  type that is a text.
\<close>

definition complete_definition :: "'j json_api \<Rightarrow> 'j \<Rightarrow> string \<Rightarrow> 'j \<Rightarrow> (string \<times> 'j) list \<Rightarrow> bool" where
  "complete_definition J v i ps cols \<longleftrightarrow>
     j_touch_path J v [''definitions'', i, ''properties''] = Ret v
     \<and> j_path J v [''definitions'', i, ''properties''] = Ret ps \<and> map fst cols = map fst (j_items J ps)
     \<and> (\<forall>(j, t)\<in>set cols. j_touch_path J v [''definitions'', i, ''properties'', j, ''type''] = Ret v
          \<and> j_path J v [''definitions'', i, ''properties'', j, ''type''] = Ret t \<and> (\<exists>s. j_asString J t = Ret s))"

section \<open>Lemmas\<close>

lemma api_at_there:
  assumes "j_touch_path (ev_J E) (api a) ks = Ret (api a)" and "j_path (ev_J E) (api a) ks = Ret v"
  shows "api_at E ks (a, w) = (Ret v, (a, w))"
  using assms by (simp add: api_at_def prog_simps)

lemma column_type_run:
  assumes "j_touch_path (ev_J E) (api a) [''definitions'', i, ''properties'', j, ''type''] = Ret (api a)"
    and "j_path (ev_J E) (api a) [''definitions'', i, ''properties'', j, ''type''] = Ret t" "j_asString (ev_J E) t = Ret s"
  shows "\<exists>w'. column_type E i j (a, w) = (Ret (data_type (ev_J E) t), (a, w')) \<and> srv w' = srv w"
  using api_at_there [OF assms(1,2), of w] assms(3)
  by (auto simp: column_type_def data_type_def prog_simps l_defs)

lemma create_columns_run:
  "\<forall>(j, t)\<in>set cols. j_touch_path (ev_J E) (api a) [''definitions'', i, ''properties'', j, ''type''] = Ret (api a)
     \<and> j_path (ev_J E) (api a) [''definitions'', i, ''properties'', j, ''type''] = Ret t \<and> (\<exists>s. j_asString (ev_J E) t = Ret s) \<Longrightarrow>
   \<exists>w'. fold_prog (create_column E i) (map fst cols) ss (a, w)
     = (Ret (ss @ concat (map (\<lambda>(j, t). column_line j t) (created (ev_J E) cols))), (a, w')) \<and> srv w' = srv w"
proof (induction cols arbitrary: ss w)
  case Nil then show ?case by (simp add: created_def prog_simps)
next
  case (Cons c cols)
  obtain j t where c: "c = (j, t)" by (rule prod.exhaust)
  let ?add = "if j = ''timestamp'' then [] else case data_type (ev_J E) t of None \<Rightarrow> [] | Some ty \<Rightarrow> column_line j ty"
  obtain s where at: "j_touch_path (ev_J E) (api a) [''definitions'', i, ''properties'', j, ''type''] = Ret (api a)"
    "j_path (ev_J E) (api a) [''definitions'', i, ''properties'', j, ''type''] = Ret t" "j_asString (ev_J E) t = Ret s"
    using Cons.prems c by auto
  obtain w1 where one: "create_column E i j ss (a, w) = (Ret (ss @ ?add), (a, w1))" "srv w1 = srv w"
    using column_type_run [OF at, of w]
    by (cases "j = ''timestamp''") (auto simp: create_column_def column_line_def prog_simps split: option.splits)
  have "\<exists>w'. fold_prog (create_column E i) (map fst cols) (ss @ ?add) (a, w1)
      = (Ret ((ss @ ?add) @ concat (map (\<lambda>(j, t). column_line j t) (created (ev_J E) cols))), (a, w')) \<and> srv w' = srv w1"
    by (rule Cons.IH) (use Cons.prems in simp)
  then obtain w' where rest: "fold_prog (create_column E i) (map fst cols) (ss @ ?add) (a, w1)
      = (Ret ((ss @ ?add) @ concat (map (\<lambda>(j, t). column_line j t) (created (ev_J E) cols))), (a, w'))" "srv w' = srv w1"
    by blast
  have "created (ev_J E) (c # cols) = (if j = ''timestamp'' then created (ev_J E) cols
      else case data_type (ev_J E) t of None \<Rightarrow> created (ev_J E) cols | Some ty \<Rightarrow> (j, ty) # created (ev_J E) cols)"
    by (simp add: created_def c split: option.split)
  then have all: "concat (map (\<lambda>(j, t). column_line j t) (created (ev_J E) (c # cols)))
      = ?add @ concat (map (\<lambda>(j, t). column_line j t) (created (ev_J E) cols))"
    by (simp split: option.split)
  have "fold_prog (create_column E i) (map fst (c # cols)) ss (a, w) = fold_prog (create_column E i) (map fst cols) (ss @ ?add) (a, w1)"
    unfolding c list.map fst_conv fold_prog.simps by (rule bnd_run(1) [of "create_column E i j ss" "(a, w)", OF one(1)])
  with one(2) rest show ?case unfolding all by (intro exI [of _ w']) simp
qed

lemma column_list_concat: "column_list ks = concat (map (\<lambda>k. '', '' @ k) ks)"
  by (induction ks) simp_all

section \<open>Properties\<close>

text \<open>C18. A table is created for a definition with one column for each member whose type is
  \<open>number\<close> or \<open>integer\<close>, in their order, besides the three columns of the key; but the insert of
  the data names every member. So a definition with a member of any other type gets a table without
  that column, and inserts that name it.\<close>

theorem created_columns:
  assumes "complete_definition (ev_J E) (api a) i ps cols"
  shows "\<exists>w'. create_table E i serv (a, w) = (Ret (), (a, w'))
      \<and> srv w' = snd (my_exec (ev_B E) (Query (table_head i serv
          @ concat (map (\<lambda>(j, t). column_line j t) (created (ev_J E) cols)) @ table_tail i serv) []) (srv w))
    \<and> (\<exists>rest. baseInsert (updateDefs (ev_J E) ps r)
        = ''insert into d$'' @ rc_table r @ ''('' @ id_name r @ '', res_id'' @ concat (map (\<lambda>j. '', '' @ j) (map fst cols)) @ rest)"
proof -
  have ps: "j_touch_path (ev_J E) (api a) [''definitions'', i, ''properties''] = Ret (api a)"
    "j_path (ev_J E) (api a) [''definitions'', i, ''properties''] = Ret ps" "map fst (j_items (ev_J E) ps) = map fst cols"
    using assms by (simp_all add: complete_definition_def)
  obtain w1 where cols: "fold_prog (create_column E i) (map fst cols) (table_head i serv) (a, w)
      = (Ret (table_head i serv @ concat (map (\<lambda>(j, t). column_line j t) (created (ev_J E) cols))), (a, w1))" "srv w1 = srv w"
    using create_columns_run [of cols E a i "table_head i serv" w] assms by (auto simp: complete_definition_def)
  obtain w' where exec: "myqExec (ev_B E) (Query ((table_head i serv @ concat (map (\<lambda>(j, t). column_line j t) (created (ev_J E) cols)))
      @ table_tail i serv) []) ''agentClient::createTables'' (''Failed to create data table: d$'' @ i) w1 = (Ret (), w')"
    "srv w' = snd (my_exec (ev_B E) (Query ((table_head i serv @ concat (map (\<lambda>(j, t). column_line j t) (created (ev_J E) cols)))
      @ table_tail i serv) []) (srv w1))"
    using myqExec_returns by blast
  have "property_keys E i (a, w) = (Ret (map fst cols), (a, w))"
    using api_at_there [OF ps(1,2), of w] ps(3) by (simp add: property_keys_def prog_simps)
  then have "create_table E i serv (a, w) = (Ret (), (a, w'))"
    using cols(1) exec(1) by (simp add: create_table_def prog_simps)
  moreover have "\<exists>rest. baseInsert (updateDefs (ev_J E) ps r)
      = ''insert into d$'' @ rc_table r @ ''('' @ id_name r @ '', res_id'' @ concat (map (\<lambda>j. '', '' @ j) (map fst cols)) @ rest"
    by (simp add: updateDefs_def Let_def ps(3) column_list_concat)
  ultimately show ?thesis using exec(2) cols(2) by auto
qed

definition labelled :: json where
  "labelled = JObj [(''label'', JObj [(''type'', JStr ''string'')]), (''pctfree'', JObj [(''type'', JStr ''number'')]),
     (''timestamp'', JObj [(''type'', JStr ''number'')])]"

theorem created_columns_witness:
  "created jsoncpp [(''label'', JStr ''string''), (''pctfree'', JStr ''number''), (''timestamp'', JStr ''number'')]
     = [(''pctfree'', ''double(20,4)'')]
   \<and> (\<exists>rest. baseInsert (updateDefs jsoncpp labelled (disk []))
      = ''insert into d$disk_usage(host_id, res_id, label, pctfree, timestamp'' @ rest)"
proof -
  let ?a = "(new_agent jsoncpp 1)\<lparr>api := JObj [(''definitions'', JObj [(''disk'', JObj [(''properties'', labelled)])])]\<rparr>"
  let ?cols = "[(''label'', JStr ''string''), (''pctfree'', JStr ''number''), (''timestamp'', JStr ''number'')]"
  have "complete_definition (ev_J (demo_env jsoncpp)) (api ?a) ''disk'' labelled ?cols"
    by (simp add: complete_definition_def labelled_def json_touch_def)
  from created_columns [OF this, of False "demo_world (\<lambda>s. [])" "disk []"]
  obtain rest where "baseInsert (updateDefs jsoncpp labelled (disk []))
      = ''insert into d$'' @ rc_table (disk []) @ ''('' @ id_name (disk []) @ '', res_id'' @ concat (map (\<lambda>j. '', '' @ j) (map fst ?cols)) @ rest"
    by (elim exE conjE) simp
  moreover have "rc_table (disk []) = ''disk_usage''" "id_name (disk []) = ''host_id''"
    by (simp_all add: disk_def new_ressource_def id_name_def)
  ultimately show ?thesis by (simp add: created_def data_type_def)
qed

end
