(* ===== verification/Templates.thy ===== *)
theory Templates
  imports Ressource
begin

text \<open>
  The template queries of mysql++: which parameters the text of a query has. The insert statement a
  resource builds from the names in the document of its agent is read back.
\<close>

section \<open>Parameters of a template\<close>

text \<open>
  A parameter is a percent sign, a number, a modifier that may be missing, a colon and a name; one
  without a name has no default. \<open>%%\<close> stands for a percent sign.
\<close>

definition name_char :: "char \<Rightarrow> bool" where
  "name_char c \<longleftrightarrow> (let n = of_char c :: nat in
     48 \<le> n \<and> n \<le> 57 \<or> 65 \<le> n \<and> n \<le> 90 \<or> 97 \<le> n \<and> n \<le> 122 \<or> n = 95)"

definition parameter_at :: "string \<Rightarrow> (nat \<times> string) list" where
  "parameter_at s =
     (let n = takeWhile is_digit s; d = dropWhile is_digit s; m = (if take 1 d = ''q'' then tl d else d) in
     if n = [] then [] else [(undec n, if take 1 m = '':'' then takeWhile name_char (tl m) else [])])"

primrec parameters :: "string \<Rightarrow> (nat \<times> string) list" where
  "parameters [] = []"
| "parameters (c # s) = (if c = CHR ''%'' then parameter_at s else []) @ parameters s"

text \<open>A query without values is not parsed.\<close>

definition well_bound :: "query \<Rightarrow> bool" where
  "well_bound q \<longleftrightarrow> q_defaults q = [] \<or> list_all (\<lambda>(n, p). p \<in> fst ` set (q_defaults q)) (parameters (q_text q))"

lemmas well_bound_simps = well_bound_def parameter_at_def name_char_def is_digit_def

section \<open>Lemmas\<close>

definition is_name :: "string \<Rightarrow> bool" where
  "is_name k \<longleftrightarrow> k \<noteq> [] \<and> list_all name_char k"

lemma name_char_plain: "name_char c \<Longrightarrow> c \<noteq> CHR ''%'' \<and> c \<noteq> CHR 0x00"
  by (auto simp: name_char_def)

lemma is_name_plain: "is_name k \<Longrightarrow> CHR ''%'' \<notin> set k \<and> c_str k = k"
  using name_char_plain by (fastforce simp: is_name_def list_all_iff c_str_def takeWhile_eq_all_conv)

lemma dec_plain: "CHR ''%'' \<notin> set (dec n)"
  using dec_digits [of n] by (auto simp: list_all_iff is_digit_def)

lemma parameters_plain: "CHR ''%'' \<notin> set s \<Longrightarrow> parameters (s @ t) = parameters t"
  by (induction s) auto

lemma takeWhile_prefix: "list_all P s \<Longrightarrow> t = [] \<or> \<not> P (hd t) \<Longrightarrow> takeWhile P (s @ t) = s \<and> dropWhile P (s @ t) = t"
  by (induction s) (cases t; simp)+

lemma parameters_one:
  assumes "is_name k" and "t = [] \<or> \<not> name_char (hd t)"
  shows "parameters (''%'' @ dec n @ '':'' @ k @ t) = (n, k) # parameters t"
proof -
  have "takeWhile is_digit (dec n @ '':'' @ k @ t) = dec n \<and> dropWhile is_digit (dec n @ '':'' @ k @ t) = '':'' @ k @ t"
    by (rule takeWhile_prefix [OF dec_digits]) (simp add: is_digit_def)
  moreover have "takeWhile name_char (k @ t) = k"
    using assms takeWhile_prefix [of name_char k t] by (simp add: is_name_def)
  ultimately have "parameter_at (dec n @ '':'' @ k @ t) = [(n, k)]"
    by (simp add: parameter_at_def undec_dec dec_not_Nil)
  moreover have "parameters (dec n @ '':'' @ k @ t) = parameters t"
    using parameters_plain [of "dec n @ '':'' @ k" t] dec_plain [of n] is_name_plain [OF assms(1)] by simp
  ultimately show ?thesis by simp
qed

lemma parameters_values:
  assumes "t = [] \<or> \<not> name_char (hd t)"
  shows "list_all is_name ks \<Longrightarrow> parameters (value_list n ks @ t) = enumerate n ks @ parameters t"
proof (induction ks arbitrary: n)
  case (Cons k ks)
  let ?rest = "value_list (Suc n) ks @ t"
  have "?rest = [] \<or> \<not> name_char (hd ?rest)" using assms by (cases ks) (simp_all add: name_char_def)
  with Cons have "parameters (''%'' @ dec n @ '':'' @ k @ ?rest) = (n, k) # enumerate (Suc n) ks @ parameters t"
    by (subst parameters_one) simp_all
  then show ?case by simp
qed simp

lemma parameters_updates:
  "list_all is_name ks \<Longrightarrow>
   parameters (update_list n first ks) = filter (\<lambda>(n, k). k \<noteq> ''timestamp'') (enumerate n ks)"
proof (induction ks arbitrary: n first)
  case (Cons k ks)
  let ?rest = "update_list (Suc n) False ks"
  have sep: "update_list m False ks = [] \<or> \<not> name_char (hd (update_list m False ks))" for m
    by (induction ks arbitrary: m) (simp_all add: name_char_def)
  from Cons have "parameters (''%'' @ dec n @ '':'' @ k @ ?rest)
      = (n, k) # filter (\<lambda>(n, k). k \<noteq> ''timestamp'') (enumerate (Suc n) ks)"
    by (subst parameters_one) (simp_all add: sep)
  moreover have "parameters ((if first then [] else '', '') @ k @ ''='' @ u) = parameters u" for u
    using parameters_plain [of "(if first then [] else '', '') @ k @ ''=''" u] is_name_plain [of k] Cons.prems by simp
  ultimately show ?case using Cons by simp
qed simp

lemma columns_plain: "list_all is_name ks \<Longrightarrow> CHR ''%'' \<notin> set (column_list ks)"
  by (induction ks) (auto dest: is_name_plain)

section \<open>Properties\<close>

text \<open>C17. The insert statement reads back: when the members of the definition are identifiers, the
  parameters in the text that \<open>updateDefs\<close> builds are the members, numbered in their order, and then
  those but the time stamp once more for the update; and every line that has a number for each
  member gives a statement with a value for each of its parameters.\<close>

theorem insert_statement_roundtrip:
  assumes keys: "list_all is_name (map fst (j_items J d))" and table: "CHR ''%'' \<notin> set (rc_table r)"
  shows "parameters (baseInsert (updateDefs J d r)) = enumerate 0 (map fst (j_items J d))
      @ filter (\<lambda>(n, k). k \<noteq> ''timestamp'') (enumerate 0 (map fst (j_items J d)))
    \<and> (case line_values J line (map fst (j_items J d)) of
        Ret vs \<Rightarrow> well_bound (Query (baseInsert (updateDefs J d r)) vs) | _ \<Rightarrow> True)"
proof -
  let ?ks = "map fst (j_items J d)"
  let ?head = "''insert into d$'' @ rc_table r @ ''('' @ id_name r @ '', res_id'' @ column_list ?ks @
     '') values ('' @ to_str (rc_host_id r) @ '', '' @ to_str (rc_res_id r)"
  have plain: "CHR ''%'' \<notin> set ?head"
    using table columns_plain [OF keys] dec_plain by (auto simp: id_name_def to_str_def)
  have insert_text: "baseInsert (updateDefs J d r) = ?head @ value_list 0 ?ks @ '') ON DUPLICATE KEY UPDATE '' @ update_list 0 True ?ks"
    by (simp add: updateDefs_def Let_def)
  have tail: "parameters ('') ON DUPLICATE KEY UPDATE '' @ u) = parameters u" for u by (rule parameters_plain) simp
  have ps: "parameters (baseInsert (updateDefs J d r))
      = enumerate 0 ?ks @ filter (\<lambda>(n, k). k \<noteq> ''timestamp'') (enumerate 0 ?ks)"
    unfolding insert_text parameters_plain [OF plain]
    by (subst parameters_values [OF _ keys]) (simp_all only: tail parameters_updates [OF keys], simp add: name_char_def)
  have "well_bound (Query (baseInsert (updateDefs J d r)) vs)" if "line_values J line ?ks = Ret vs" for vs
  proof -
    have "k \<in> fst ` set vs" if k: "k \<in> set ?ks" for k
    proof -
      have "is_name k" using keys k by (auto simp: list_all_iff)
      then have "c_str k = k" using is_name_plain by blast
      with line_values_at [OF \<open>line_values J line ?ks = Ret vs\<close> k] show ?thesis by (force dest: map_of_SomeD)
    qed
    then show ?thesis
      by (auto simp: well_bound_def ps list_all_iff in_set_enumerate_eq) 
  qed
  with ps show ?thesis by (simp split: outcome.split)
qed

theorem insert_statement_roundtrip_witness:
  "parameters (baseInsert (updateDefs jsoncpp (disk_line 0) (disk [])))
   = [(0, ''pctfree''), (1, ''timestamp''), (0, ''pctfree'')]"
  using insert_statement_roundtrip [of jsoncpp "disk_line 0" "disk []" "disk_line 3"]
  by (simp add: disk_line_def is_name_def name_char_def disk_def new_ressource_def)

end
