(* ===== verification/Aggregator.thy ===== *)
theory Aggregator
  imports Alerter "HOL-Library.Multiset"
begin

text \<open>
  The thread that condenses the data tables (\<open>src/statAggregator.cpp\<close>, class \<open>statAggregator\<close>): for
  every kind of data it creates tables of averages per minute, hour and day and a view over all of
  them, fills them from one another, and purges what is older than its retention.
\<close>

section \<open>The object\<close>

record aggreg_data =
  delay_am :: u32
  delay_ah :: u32
  delay_ad :: u32
  retention_d :: u32
  retention_am :: u32
  retention_ah :: u32
  retention_ad :: u32
  base_am :: string
  base_ah :: string
  base_ad :: string
  next_low :: double
  next_med :: double
  next_high :: double

text \<open>\<open>make_shared<aggreg_data>()\<close> value-initialises; the points in time are milliseconds.\<close>

definition new_data :: aggreg_data where
  "new_data = \<lparr>delay_am = 0, delay_ah = 0, delay_ad = 0, retention_d = 0, retention_am = 0, retention_ah = 0,
     retention_ad = 0, base_am = [], base_ah = [], base_ad = [], next_low = 0, next_med = 0, next_high = 0\<rparr>"

record aggregator =
  tables :: "(string \<times> aggreg_data) list"
  thread_freq :: "u32 option"
  agg_active :: bool

type_synonym ('db, 'a) agg_prog = "(aggregator \<times> 'db world, 'a) prog"

definition new_aggregator :: aggregator where
  "new_aggregator = \<lparr>tables = [], thread_freq = None, agg_active = False\<rparr>"

definition aggregator_init :: "(aggregator, unit) prog" where
  "aggregator_init = modify (\<lambda>g. g\<lparr>thread_freq := Some 3600\<rparr>)"

text \<open>
  A member function of \<open>dbTools\<close> on the connection of the aggregator, and a change of the entry of a
  table.
\<close>

definition agg_db :: "(objid \<Rightarrow> ('db world, 'a) prog) \<Rightarrow> ('db, 'a) agg_prog" where
  "agg_db f = on_snd (f Aggregator)"

definition entry :: "string \<Rightarrow> aggregator \<Rightarrow> aggreg_data" where
  "entry t g = (case map_of (tables g) t of None \<Rightarrow> new_data | Some e \<Rightarrow> e)"

definition set_entry :: "string \<Rightarrow> (aggreg_data \<Rightarrow> aggreg_data) \<Rightarrow> ('db, unit) agg_prog" where
  "set_entry t f = on_fst (modify (\<lambda>g. g\<lparr>tables := om_put t (f (entry t g)) (tables g)\<rparr>))"

section \<open>The statements\<close>

text \<open>
  The three levels. Per level: the prefix of its table and of the table it is filled from, the
  table whose keys start it, its period in milliseconds, and what the current time in seconds is
  divided by.
\<close>

datatype level = AM | AH | AD

primrec lv_name :: "level \<Rightarrow> string" where
  "lv_name AM = ''am$''" | "lv_name AH = ''ah$''" | "lv_name AD = ''ad$''"

primrec lv_source :: "level \<Rightarrow> string" where
  "lv_source AM = ''d$''" | "lv_source AH = ''am$''" | "lv_source AD = ''ah$''"

primrec lv_keys :: "level \<Rightarrow> string" where
  "lv_keys AM = ''d$''" | "lv_keys AH = ''am$''" | "lv_keys AD = ''am$''"

primrec lv_ms :: "level \<Rightarrow> nat" where
  "lv_ms AM = 60000" | "lv_ms AH = 3600000" | "lv_ms AD = 86400000"

primrec lv_now :: "level \<Rightarrow> nat" where
  "lv_now AM = 60" | "lv_now AH = 3600" | "lv_now AD = 3600"

definition bucket_sql :: "level \<Rightarrow> string \<Rightarrow> string" where
  "bucket_sql v ts = ''floor('' @ ts @ ''/'' @ dec (lv_ms v) @ '')*'' @ dec (lv_ms v) @ ''.0000''"

definition create_head :: "level \<Rightarrow> string \<Rightarrow> string \<Rightarrow> string" where
  "create_head v tbl id_name = ''create table '' @ lv_name v @ tbl @ '' as select '' @ id_name @ '', res_id, '' @
     bucket_sql v ''timestamp'' @ '' as timestamp ''"

definition base_head :: "level \<Rightarrow> string \<Rightarrow> string \<Rightarrow> string" where
  "base_head v tbl id_name = ''insert into '' @ lv_name v @ tbl @ '' select d.'' @ id_name @ '', d.res_id, '' @
     bucket_sql v ''d.timestamp'' @ '' as timestamp ''"

text \<open>The columns computed for a column of the data: from samples, and from rows of the level below.\<close>

definition column_sql :: "level \<Rightarrow> string \<Rightarrow> string" where
  "column_sql v col = (if v = AM then
     '', avg('' @ col @ '') as avg_'' @ col @ '', min('' @ col @ '') as min_'' @ col @ '', max('' @ col @ '') as max_'' @ col @
     '', sum('' @ col @ '') as sum_'' @ col @ '', count('' @ col @ '') as cnt_'' @ col @ '' ''
   else
     '', sum(sum_'' @ col @ '')/sum(cnt_'' @ col @ '') as avg_'' @ col @ '', min(min_'' @ col @ '') as min_'' @ col @
     '', max(max_'' @ col @ '') as max_'' @ col @ '', sum(sum_'' @ col @ '') as sum_'' @ col @
     '', sum(cnt_'' @ col @ '') as cnt_'' @ col @ '' '')"

definition view_column :: "string \<Rightarrow> string" where
  "view_column col = '', '' @ col @ '' as avg_'' @ col @ '', '' @ col @ '' as min_'' @ col @ '', '' @ col @ '' as max_'' @ col @
     '', '' @ col @ '' as sum_'' @ col @ '', 1 as cnt_'' @ col"

text \<open>The rows a level takes: those of finished buckets, \<open>delay\<close> periods old.\<close>

definition due_sql :: "level \<Rightarrow> string \<Rightarrow> u32 \<Rightarrow> string" where
  "due_sql v ts delay = ''floor('' @ ts @ ''/'' @ dec (lv_ms v) @ '')<floor(UNIX_TIMESTAMP(now())/'' @ dec (lv_now v) @
     '')-'' @ to_str delay"

definition base_tail :: "level \<Rightarrow> string \<Rightarrow> string \<Rightarrow> u32 \<Rightarrow> string" where
  "base_tail v tbl id_name delay =
     ''from '' @ lv_source v @ tbl @ '' d, (select u.'' @ id_name @ '', u.res_id, max(u.timestamp) as timestamp from (select x.'' @
     id_name @ '', x.res_id, max(x.timestamp) as timestamp from '' @ lv_name v @ tbl @ '' x group by x.'' @ id_name @
     '', x.res_id union all select z.'' @ id_name @ '', z.res_id, 0.0000 as timestamp from '' @ lv_keys v @ tbl @
     '' z group by z.'' @ id_name @ '', z.res_id) u group by u.'' @ id_name @ '', u.res_id) y where '' @
     due_sql v ''d.timestamp'' delay @ '' and floor(d.timestamp/'' @ dec (lv_ms v) @ '')*'' @ dec (lv_ms v) @
     ''>y.timestamp and d.'' @ id_name @ ''=y.'' @ id_name @ '' and d.res_id=y.res_id group by d.'' @ id_name @
     '',d.res_id, '' @ bucket_sql v ''d.timestamp''"

definition create_tail :: "level \<Rightarrow> string \<Rightarrow> string \<Rightarrow> u32 \<Rightarrow> string" where
  "create_tail v tbl id_name delay = ''from '' @ lv_source v @ tbl @ '' where '' @ due_sql v ''timestamp'' delay @
     '' group by '' @ id_name @ '',res_id, '' @ bucket_sql v ''timestamp''"

text \<open>One part of the view: rows of a level newer than the first row of the next finer one.\<close>

definition view_part :: "string \<Rightarrow> string \<Rightarrow> string \<Rightarrow> string \<Rightarrow> string" where
  "view_part tbl id_name outer inner =
     ''(select min(timestamp) as mint, '' @ id_name @ '', res_id from '' @ inner @ ''$'' @ tbl @ '' group by '' @ id_name @
     '', res_id) '' @ inner @ '' where '' @ inner @ ''.'' @ id_name @ '' = '' @ outer @ ''.'' @ id_name @ '' and '' @ inner @
     ''.res_id  = '' @ outer @ ''.res_id and '' @ outer @ ''.timestamp > '' @ inner @ ''.mint''"

definition view_head :: "string \<Rightarrow> string \<Rightarrow> string" where
  "view_head tbl id_name = ''create or replace view all$'' @ tbl @ '' as select ad.* from ad$'' @ tbl @ '' ad, '' @
     view_part tbl id_name ''ad'' ''ah'' @ '' union all select ah.* from ah$'' @ tbl @ '' ah, '' @
     view_part tbl id_name ''ah'' ''am'' @ '' union all select am.*  from am$'' @ tbl @ '' am, '' @
     view_part tbl id_name ''am'' ''d'' @ '' union all select '' @ id_name @ '', res_id, timestamp ''"

definition columns_query :: "string \<Rightarrow> string \<Rightarrow> query" where
  "columns_query tbl id_name = Query
     (''select col.column_name from information_schema.columns col where col.TABLE_SCHEMA=DATABASE() and col.table_name = '' @
      [CHR 0x27] @ ''d$'' @ tbl @ [CHR 0x27] @ '' and col.data_type in ('' @ [CHR 0x27] @ ''int'' @ [CHR 0x27] @ '', '' @ [CHR 0x27] @
      ''double'' @ [CHR 0x27] @ '') and column_name not in ('' @ [CHR 0x27] @ id_name @ [CHR 0x27] @ '', '' @ [CHR 0x27] @
      ''res_id'' @ [CHR 0x27] @ '', '' @ [CHR 0x27] @ ''timestamp'' @ [CHR 0x27] @ '')'') []"

section \<open>Setting up a table\<close>

text \<open>The fields of a row of \<open>c$data_configs\<close>, assigned one after the other.\<close>

definition read_field :: "'db mysql \<Rightarrow> row \<Rightarrow> nat \<Rightarrow> (u32 \<Rightarrow> aggreg_data \<Rightarrow> aggreg_data) \<Rightarrow>
    (aggreg_data \<times> 'db world, unit) prog" where
  "read_field B r i f = bnd (lift (conv (my_u32 B) r i)) (\<lambda>x. on_fst (modify (f x)))"

definition read_delays :: "'db mysql \<Rightarrow> row \<Rightarrow> (aggreg_data \<times> 'db world, unit) prog" where
  "read_delays B r =
     bnd (read_field B r 1 (\<lambda>x e. e\<lparr>delay_am := x\<rparr>)) (\<lambda>_.
     bnd (read_field B r 2 (\<lambda>x e. e\<lparr>delay_ah := x\<rparr>)) (\<lambda>_.
     bnd (read_field B r 3 (\<lambda>x e. e\<lparr>delay_ad := x\<rparr>)) (\<lambda>_.
     bnd (read_field B r 4 (\<lambda>x e. e\<lparr>retention_d := x\<rparr>)) (\<lambda>_.
     bnd (read_field B r 5 (\<lambda>x e. e\<lparr>retention_am := x\<rparr>)) (\<lambda>_.
     bnd (read_field B r 6 (\<lambda>x e. e\<lparr>retention_ah := x\<rparr>)) (\<lambda>_.
     read_field B r 7 (\<lambda>x e. e\<lparr>retention_ad := x\<rparr>)))))))"

text \<open>
  A known entry is changed in place, whatever happens; a new one is only kept when all its fields
  were read.
\<close>

definition on_entry :: "string \<Rightarrow> (aggreg_data \<times> 'db world, unit) prog \<Rightarrow> ('db, unit) agg_prog" where
  "on_entry t m = (\<lambda>(g, w). case m (entry t g, w) of (x, (e, w)) \<Rightarrow>
     (x, (if map_of (tables g) t \<noteq> None \<or> x = Ret () then g\<lparr>tables := om_put t e (tables g)\<rparr> else g, w)))"

definition base_of :: "level \<Rightarrow> aggreg_data \<Rightarrow> string" where
  "base_of v e = (case v of AM \<Rightarrow> base_am e | AH \<Rightarrow> base_ah e | AD \<Rightarrow> base_ad e)"

definition delay_of :: "level \<Rightarrow> aggreg_data \<Rightarrow> u32" where
  "delay_of v e = (case v of AM \<Rightarrow> delay_am e | AH \<Rightarrow> delay_ah e | AD \<Rightarrow> delay_ad e)"

definition set_base :: "level \<Rightarrow> string \<Rightarrow> aggreg_data \<Rightarrow> aggreg_data" where
  "set_base v s e = (case v of AM \<Rightarrow> e\<lparr>base_am := s\<rparr> | AH \<Rightarrow> e\<lparr>base_ah := s\<rparr> | AD \<Rightarrow> e\<lparr>base_ad := s\<rparr>)"

definition extend_base :: "string \<Rightarrow> level \<Rightarrow> string \<Rightarrow> ('db, unit) agg_prog" where
  "extend_base tbl v s = set_entry tbl (\<lambda>e. set_base v (base_of v e @ s) e)"

text \<open>
  One column of the data at one level: its columns go into the insert statement, and into the
  create statement of a table that does not exist; of one that does, the answer is not used.
\<close>

definition column_level :: "'db mysql \<Rightarrow> string \<Rightarrow> string \<Rightarrow> level \<Rightarrow> bool \<Rightarrow> string \<Rightarrow> ('db, string) agg_prog" where
  "column_level B tbl col v have create =
     bnd (extend_base tbl v (column_sql v col)) (\<lambda>_.
     if \<not> have then ret (create @ column_sql v col)
     else bnd (agg_db (\<lambda>self. tableHasColumn B self (lv_name v @ tbl) (''avg_'' @ col))) (\<lambda>_. ret create))"

definition agg_column :: "'db mysql \<Rightarrow> string \<Rightarrow> bool \<times> bool \<times> bool \<times> bool \<Rightarrow> row \<Rightarrow>
    string \<times> string \<times> string \<times> string \<Rightarrow> ('db, string \<times> string \<times> string \<times> string) agg_prog" where
  "agg_column B tbl = (\<lambda>(haveAM, haveAH, haveAD, haveAL) r (create_am, create_ah, create_ad, create_al).
     bnd (lift (cell r 0)) (\<lambda>c. let col = c_str c in
     bnd (column_level B tbl col AM haveAM create_am) (\<lambda>create_am.
     bnd (column_level B tbl col AH haveAH create_ah) (\<lambda>create_ah.
     bnd (column_level B tbl col AD haveAD create_ad) (\<lambda>create_ad.
     ret (create_am, create_ah, create_ad, if haveAL then create_al else create_al @ view_column col))))))"

definition lv_label :: "level \<Rightarrow> string" where
  "lv_label v = (case v of AM \<Rightarrow> ''AM'' | AH \<Rightarrow> ''AH'' | AD \<Rightarrow> ''AD'')"

text \<open>The message about the index of the daily table names the hourly one.\<close>

definition create_level :: "'db mysql \<Rightarrow> string \<Rightarrow> string \<Rightarrow> level \<Rightarrow> string \<Rightarrow> ('db, unit) agg_prog" where
  "create_level B tbl id_name v create =
     (let t = lv_name v @ tbl; run = (\<lambda>q msg. on_snd (myqExec B (Query q []) ''statAggregator::init'' msg)) in
     bnd (run create (''Failed to create aggregate '' @ lv_label v)) (\<lambda>_.
     bnd (run (''alter table '' @ t @ '' add constraint primary key ('' @ id_name @ '', res_id, timestamp)'')
           (''Failed to alter aggregate '' @ lv_label v)) (\<lambda>_.
     bnd (run (''create index '' @ t @ ''_res_i on '' @ t @ ''(res_id)'')
           (''Failed to index res_id on '' @ (if v = AD then ''ah$'' else lv_name v) @ tbl)) (\<lambda>_.
     run (''alter table '' @ t @ '' add constraint '' @ t @ ''_'' @ id_name @ ''_i foreign key ('' @ id_name @
          '') references '' @ (if id_name = ''host_id'' then ''h$'' else ''s$'') @ ''ressources('' @ id_name @
          '') on delete cascade on update cascade'')
       (''Failed to add constraint on '' @ t)))))"

definition create_tables :: "'db mysql \<Rightarrow> string \<Rightarrow> string \<Rightarrow> bool \<times> bool \<times> bool \<times> bool \<Rightarrow>
    string \<times> string \<times> string \<times> string \<Rightarrow> ('db, unit) agg_prog" where
  "create_tables B tbl id_name = (\<lambda>(haveAM, haveAH, haveAD, haveAL) (create_am, create_ah, create_ad, create_al).
     bnd (gets (\<lambda>(g, w). entry tbl g)) (\<lambda>e.
     bnd (if haveAM then ret ()
          else create_level B tbl id_name AM (create_am @ create_tail AM tbl id_name (delay_am e))) (\<lambda>_.
     bnd (if haveAH then ret ()
          else create_level B tbl id_name AH (create_ah @ create_tail AH tbl id_name (delay_ah e))) (\<lambda>_.
     bnd (if haveAD then ret ()
          else create_level B tbl id_name AD (create_ad @ create_tail AD tbl id_name (delay_ad e))) (\<lambda>_.
     if haveAL then ret ()
     else on_snd (myqExec B (Query (create_al @ '' from d$'' @ tbl) []) ''statAggregator::init''
            ''Failed to create aggregate all view''))))))"

definition setup_table :: "'db mysql \<Rightarrow> string \<Rightarrow> ('db, unit) agg_prog" where
  "setup_table B tbl =
     bnd (gets (\<lambda>(g, w). (thread_freq g, entry tbl g))) (\<lambda>(freq, e). case freq of None \<Rightarrow> undef | Some freq \<Rightarrow>
     bnd (on_fst (modify (\<lambda>g. if delay_am e < freq then g\<lparr>thread_freq := Some (delay_am e)\<rparr> else g))) (\<lambda>_.
     bnd (agg_db (\<lambda>self. tableHasColumn B self (''d$'' @ tbl) ''serv_id'')) (\<lambda>serv.
     let id_name = (if serv then ''serv_id'' else ''host_id'') in
     bnd (agg_db (\<lambda>self. haveTable B self (''am$'' @ tbl))) (\<lambda>haveAM.
     bnd (agg_db (\<lambda>self. haveTable B self (''ah$'' @ tbl))) (\<lambda>haveAH.
     bnd (agg_db (\<lambda>self. haveTable B self (''ad$'' @ tbl))) (\<lambda>haveAD.
     bnd (agg_db (\<lambda>self. haveTable B self (''all$'' @ tbl))) (\<lambda>haveAL.
     bnd (set_entry tbl (\<lambda>e. e\<lparr>base_am := base_head AM tbl id_name, base_ah := base_head AH tbl id_name,
            base_ad := base_head AD tbl id_name\<rparr>)) (\<lambda>_.
     bnd (try_store_on B (columns_query tbl id_name) ''statAggregator::init'' ''Failed to get a data_table column''
       (\<lambda>rs.
          bnd (fold_prog (agg_column B tbl (haveAM, haveAH, haveAD, haveAL)) rs
            (create_head AM tbl id_name, create_head AH tbl id_name, create_head AD tbl id_name, view_head tbl id_name)) (\<lambda>creates.
          bnd (extend_base tbl AM (base_tail AM tbl id_name (delay_am e))) (\<lambda>_.
          bnd (extend_base tbl AH (base_tail AH tbl id_name (delay_ah e))) (\<lambda>_.
          bnd (extend_base tbl AD (base_tail AD tbl id_name (delay_ad e))) (\<lambda>_.
          bnd (create_tables B tbl id_name (haveAM, haveAH, haveAD, haveAL) creates) (\<lambda>_. ret (None :: unit option)))))))
       (ret None)) (\<lambda>_. ret ())))))))))"

definition configure_table :: "'db mysql \<Rightarrow> row \<Rightarrow> ('db, unit) agg_prog" where
  "configure_table B r =
     bnd (lift (cell r 0)) (\<lambda>t. let tbl = c_str t in
     bnd (gets (\<lambda>(g, w). map_of (tables g) tbl \<noteq> None)) (\<lambda>known.
     bnd (on_entry tbl (read_delays B r)) (\<lambda>_.
     if known then ret () else setup_table B tbl)))"

definition configure :: "'db mysql \<Rightarrow> ('db, unit) agg_prog" where
  "configure B =
     bnd (try_store_on B
       (Query ''select data_type, delay_am, delay_ah, delay_ad, retention_d, retention_am, retention_ah, retention_ad from c$data_configs'' [])
       ''statAggregator::init'' ''Failed to get data_table list''
       (\<lambda>rs. bnd (for_each rs (configure_table B)) (\<lambda>_. ret (None :: unit option))) (ret None)) (\<lambda>_. ret ())"

section \<open>Filling and purging\<close>

text \<open>
  The statements of one table all go through one \<open>Query\<close>, whose text grows with \<open>operator<<\<close>;
  what is left of the text after an execution is up to mysql++: \<open>after r t\<close> for result \<open>r\<close> of
  text \<open>t\<close>. It is documented to be emptied after a success and kept after a failure.
\<close>

definition stream_exec :: "'db mysql \<Rightarrow> (exec_res \<Rightarrow> string \<Rightarrow> string) \<Rightarrow> string \<Rightarrow> string \<Rightarrow> ('db world, string) prog" where
  "stream_exec B after t msg =
     bnd (gets (\<lambda>w. fst (my_exec B (Query t []) (srv w)))) (\<lambda>r.
     bnd (myqExec B (Query t []) ''statAggregator::thread'' msg) (\<lambda>_. ret (after r t)))"

definition purge_sql :: "string \<Rightarrow> u32 \<Rightarrow> string" where
  "purge_sql t retention = ''delete from '' @ t @ '' where timestamp<(floor(UNIX_TIMESTAMP(now())/'' @ dec (60 * 60 * 24) @
     '')-'' @ to_str retention @ '')*'' @ dec (60 * 60 * 24 * 1000)"

definition purge :: "'db mysql \<Rightarrow> (exec_res \<Rightarrow> string \<Rightarrow> string) \<Rightarrow> string \<Rightarrow> u32 \<Rightarrow> string \<Rightarrow> string \<Rightarrow> ('db world, string) prog" where
  "purge B after t retention msg buf =
     (if 0 < retention then stream_exec B after (buf @ purge_sql t retention) msg else ret buf)"

definition run_low :: "'db mysql \<Rightarrow> (exec_res \<Rightarrow> string \<Rightarrow> string) \<Rightarrow> double \<Rightarrow> string \<Rightarrow> string \<Rightarrow> ('db, string) agg_prog" where
  "run_low B after fp_ms tbl buf =
     bnd (gets (\<lambda>(g, w). entry tbl g)) (\<lambda>e. if \<not> next_low e < fp_ms then ret buf
     else
       bnd (on_snd (stream_exec B after (buf @ base_am e) ''Failed to insert aggregate AM'')) (\<lambda>buf.
       bnd (on_snd (purge B after (''d$'' @ tbl) (retention_d e) ''Failed to purge raw data'' buf)) (\<lambda>buf.
       bnd (set_entry tbl (\<lambda>e. e\<lparr>next_low := fp_ms + of_nat (unat (delay_am e)) * 60000\<rparr>)) (\<lambda>_. ret buf))))"

definition run_med :: "'db mysql \<Rightarrow> (exec_res \<Rightarrow> string \<Rightarrow> string) \<Rightarrow> double \<Rightarrow> string \<Rightarrow> string \<Rightarrow> ('db, string) agg_prog" where
  "run_med B after fp_ms tbl buf =
     bnd (gets (\<lambda>(g, w). entry tbl g)) (\<lambda>e. if \<not> next_med e < fp_ms then ret buf
     else
       bnd (on_snd (stream_exec B after (buf @ base_ah e) ''Failed to insert aggregate AH'')) (\<lambda>buf.
       bnd (on_snd (purge B after (''am$'' @ tbl) (retention_am e) ''Failed to purge aggregate AM'' buf)) (\<lambda>buf.
       bnd (set_entry tbl (\<lambda>e. e\<lparr>next_med := fp_ms + 3600000\<rparr>)) (\<lambda>_. ret buf))))"

definition run_high :: "'db mysql \<Rightarrow> (exec_res \<Rightarrow> string \<Rightarrow> string) \<Rightarrow> double \<Rightarrow> string \<Rightarrow> string \<Rightarrow> ('db, string) agg_prog" where
  "run_high B after fp_ms tbl buf =
     bnd (gets (\<lambda>(g, w). entry tbl g)) (\<lambda>e. if \<not> next_high e < fp_ms then ret buf
     else
       bnd (on_snd (stream_exec B after (buf @ base_ad e) ''Failed to insert aggregate AD'')) (\<lambda>buf.
       bnd (on_snd (purge B after (''ah$'' @ tbl) (retention_ah e) ''Failed to purge aggregate AH'' buf)) (\<lambda>buf.
       bnd (on_snd (purge B after (''ad$'' @ tbl) (retention_ad e) ''Failed to purge aggregate AH'' buf)) (\<lambda>buf.
       bnd (set_entry tbl (\<lambda>e. e\<lparr>next_high := fp_ms + 43200000\<rparr>)) (\<lambda>_. ret buf)))))"

definition run_table :: "'db mysql \<Rightarrow> (exec_res \<Rightarrow> string \<Rightarrow> string) \<Rightarrow> double \<Rightarrow> string \<Rightarrow> ('db, unit) agg_prog" where
  "run_table B after fp_ms tbl =
     bnd (run_low B after fp_ms tbl []) (\<lambda>buf.
     bnd (run_med B after fp_ms tbl buf) (\<lambda>buf.
     bnd (run_high B after fp_ms tbl buf) (\<lambda>_. ret ())))"

section \<open>The thread\<close>

text \<open>One round; the thread ends (\<open>False\<close>) when it gets no connection, and nothing resets \<open>active\<close>.\<close>

definition aggregator_round :: "'db mysql \<Rightarrow> (exec_res \<Rightarrow> string \<Rightarrow> string) \<Rightarrow> ('db \<Rightarrow> double) \<Rightarrow> ('db, bool) agg_prog" where
  "aggregator_round B after now =
     bnd (agg_db (grab B)) (\<lambda>ok. if \<not> ok then
       bnd (on_snd (l_error ''statAggregator::thread'' ''Failed to get a connection from the pool!'')) (\<lambda>_. ret False)
     else
       bnd (configure B) (\<lambda>_.
       bnd (gets (\<lambda>(g, w). (map fst (tables g), now (srv w)))) (\<lambda>(tbls, fp_ms).
       bnd (for_each tbls (run_table B after fp_ms)) (\<lambda>_.
       bnd (agg_db release) (\<lambda>_.
       bnd (gets (\<lambda>(g, w). thread_freq g)) (\<lambda>freq. case freq of None \<Rightarrow> undef | Some f \<Rightarrow> ret True))))))"

definition aggregator_startThread :: "(aggregator, bool) prog" where
  "aggregator_startThread = bnd (gets agg_active) (\<lambda>a.
     if a then ret False else bnd (modify (\<lambda>g. g\<lparr>agg_active := True\<rparr>)) (\<lambda>_. ret True))"

section \<open>What the columns mean\<close>

text \<open>
  The aggregate functions of \<^const>\<open>column_sql\<close> on the values of a group: the columns of a row of
  the minute table from samples, and those of the other tables from rows of the level below. A
  bucket is named by its start; a table has one row for every bucket with an entry.
\<close>

record stat =
  st_avg :: double
  st_min :: double
  st_max :: double
  st_sum :: double
  st_cnt :: double

definition stat_of :: "double list \<Rightarrow> stat" where
  "stat_of xs = \<lparr>st_avg = sum_list xs / of_nat (length xs), st_min = Min (set xs), st_max = Max (set xs),
     st_sum = sum_list xs, st_cnt = of_nat (length xs)\<rparr>"

definition stat_merge :: "stat list \<Rightarrow> stat" where
  "stat_merge ss = \<lparr>st_avg = sum_list (map st_sum ss) / sum_list (map st_cnt ss), st_min = Min (set (map st_min ss)),
     st_max = Max (set (map st_max ss)), st_sum = sum_list (map st_sum ss), st_cnt = sum_list (map st_cnt ss)\<rparr>"

definition bucket :: "level \<Rightarrow> double \<Rightarrow> double" where
  "bucket v ts = of_int \<lfloor>ts / of_nat (lv_ms v)\<rfloor> * of_nat (lv_ms v)"

definition group_rows :: "level \<Rightarrow> ('a list \<Rightarrow> stat) \<Rightarrow> (double \<times> 'a) list \<Rightarrow> (double \<times> stat) list" where
  "group_rows v f src =
     map (\<lambda>b. (b, f (map snd (filter (\<lambda>p. bucket v (fst p) = b) src)))) (remdups (map (\<lambda>p. bucket v (fst p)) src))"

text \<open>The condition of \<^const>\<open>due_sql\<close> on a row with time stamp \<open>ts\<close> at \<open>now\<close> (seconds).\<close>

definition due :: "level \<Rightarrow> double \<Rightarrow> nat \<Rightarrow> double \<Rightarrow> bool" where
  "due v now delay ts \<longleftrightarrow> \<lfloor>ts / of_nat (lv_ms v)\<rfloor> < \<lfloor>now / of_nat (lv_now v)\<rfloor> - int delay"

section \<open>Lemmas\<close>

subsection \<open>Groups of groups\<close>

lemma sum_list_mset: "mset xs = mset ys \<Longrightarrow> sum_list xs = (sum_list ys :: double)"
  by (simp flip: sum_mset_sum_list)

lemma stat_of_mset:
  assumes "mset xs = mset ys"
  shows "stat_of xs = stat_of ys"
  unfolding stat_of_def sum_list_mset [OF assms] mset_eq_setD [OF assms] mset_eq_length [OF assms] ..

lemma stat_merge_mset:
  assumes "mset xs = mset ys"
  shows "stat_merge xs = stat_merge ys"
proof -
  have "mset (map f xs) = mset (map f ys)" for f :: "stat \<Rightarrow> double" using assms by simp
  note same = sum_list_mset [OF this] mset_eq_setD [OF this]
  show ?thesis unfolding stat_merge_def same [of st_sum] same [of st_cnt] same [of st_min] same [of st_max] ..
qed

lemma Min_concat:
  fixes xss :: "double list list"
  assumes "xss \<noteq> []" and "\<forall>xs\<in>set xss. xs \<noteq> []"
  shows "Min (set (map (\<lambda>xs. Min (set xs)) xss)) = Min (set (concat xss))"
    and "Max (set (map (\<lambda>xs. Max (set xs)) xss)) = Max (set (concat xss))"
  using assms
proof (induction xss)
  case (Cons xs xss)
  {
    case 1 with Cons show ?case by (cases "xss = []") (simp_all add: Min_Un)
  next
    case 2 with Cons show ?case by (cases "xss = []") (simp_all add: Max_Un)
  }
qed simp_all

lemma stat_merge_stat_of:
  assumes "xss \<noteq> []" and "\<forall>xs\<in>set xss. xs \<noteq> []"
  shows "stat_merge (map stat_of xss) = stat_of (concat xss)"
proof -
  have "sum_list (map (\<lambda>xs. sum_list xs) xss) = (sum_list (concat xss) :: double)"
    by (induction xss) simp_all
  moreover have "sum_list (map (\<lambda>xs. of_nat (length xs)) xss) = (of_nat (length (concat xss)) :: double)"
    by (induction xss) simp_all
  ultimately show ?thesis
    using Min_concat [OF assms] by (simp add: stat_merge_def stat_of_def comp_def)
qed

lemma mset_groups:
  "distinct ks \<Longrightarrow> mset (concat (map (\<lambda>b. filter (\<lambda>p. k p = b) xs) ks)) = mset (filter (\<lambda>p. k p \<in> set ks) xs)"
proof (induction ks)
  case (Cons b ks)
  then have "mset (concat (map (\<lambda>b. filter (\<lambda>p. k p = b) xs) (b # ks)))
      = filter_mset (\<lambda>p. k p = b) (mset xs) + filter_mset (\<lambda>p. k p \<in> set ks) (mset xs)" by (simp add: mset_filter)
  also have "\<dots> = filter_mset (\<lambda>p. k p \<in> set (b # ks)) (mset xs)"
    using Cons.prems by (induction xs) auto
  finally show ?case by (simp add: mset_filter)
qed simp

lemma map_of_group_rows: "map_of (group_rows v f src) b = (if b \<in> (\<lambda>p. bucket v (fst p)) ` set src
    then Some (f (map snd (filter (\<lambda>p. bucket v (fst p) = b) src))) else None)"
  by (auto simp: group_rows_def map_of_map_restrict restrict_map_def)

lemma distinct_group_rows: "distinct (map fst (group_rows v f src))"
  by (simp add: group_rows_def comp_def)

text \<open>Grouping the rows of a level by the bucket of the next is grouping the samples by it.\<close>

lemma group_group:
  assumes nest: "\<And>t. bucket u (bucket v t) = bucket u t"
  shows "map_of (group_rows u stat_merge (group_rows v stat_of src)) = map_of (group_rows u stat_of src)"
proof
  fix b
  let ?grp = "\<lambda>c. filter (\<lambda>p. bucket v (fst p) = c) src"
  let ?ks = "remdups (map (\<lambda>p. bucket v (fst p)) src)" let ?kb = "filter (\<lambda>c. bucket u c = b) ?ks"
  have key: "b \<in> (\<lambda>p. bucket u (fst p)) ` set (group_rows v stat_of src) \<longleftrightarrow> b \<in> (\<lambda>p. bucket u (fst p)) ` set src"
    by (simp add: group_rows_def image_image nest)
  show "map_of (group_rows u stat_merge (group_rows v stat_of src)) b = map_of (group_rows u stat_of src) b"
  proof (cases "b \<in> (\<lambda>p. bucket u (fst p)) ` set src")
    case False with key show ?thesis by (simp add: map_of_group_rows)
  next
    case True
    have rows: "map snd (filter (\<lambda>p. bucket u (fst p) = b) (group_rows v stat_of src))
        = map stat_of (map (\<lambda>c. map snd (?grp c)) ?kb)"
      by (simp add: group_rows_def filter_map comp_def)
    have ne: "?kb \<noteq> []" using True by (auto simp: filter_empty_conv nest)
    have nes: "\<forall>xs\<in>set (map (\<lambda>c. map snd (?grp c)) ?kb). xs \<noteq> []"
      by (auto simp: filter_empty_conv)
    have "filter (\<lambda>p. bucket v (fst p) \<in> set ?kb) src = filter (\<lambda>p. bucket u (fst p) = b) src"
      by (rule filter_cong) (auto simp: nest)
    then have "mset (concat (map ?grp ?kb)) = mset (filter (\<lambda>p. bucket u (fst p) = b) src)"
      using mset_groups [of ?kb "\<lambda>p. bucket v (fst p)" src] by simp
    then have "mset (concat (map (\<lambda>c. map snd (?grp c)) ?kb)) = mset (map snd (filter (\<lambda>p. bucket u (fst p) = b) src))"
      using mset_map [of snd "concat (map ?grp ?kb)"] by (simp add: map_concat comp_def)
    from stat_of_mset [OF this] have "stat_merge (map stat_of (map (\<lambda>c. map snd (?grp c)) ?kb))
        = stat_of (map snd (filter (\<lambda>p. bucket u (fst p) = b) src))"
      using stat_merge_stat_of [OF _ nes] ne by simp
    with True key rows show ?thesis by (simp add: map_of_group_rows)
  qed
qed

lemma mset_by_keys:
  assumes "distinct (map fst xs)" and "distinct (map fst ys)" and "map_of xs = map_of ys"
  shows "mset xs = mset ys"
proof -
  have "set xs = set ys"
    using assms map_of_eq_Some_iff [OF assms(1)] map_of_eq_Some_iff [OF assms(2)] by (metis prod.exhaust subsetI subset_antisym)
  then show ?thesis
    using assms(1,2) by (simp add: distinct_map set_eq_iff_mset_eq_distinct)
qed

lemma group_rows_mset:
  assumes "mset xs = mset ys"
  shows "map_of (group_rows v stat_merge xs) = map_of (group_rows v stat_merge ys)"
proof
  fix b
  have "mset (map snd (filter (\<lambda>p. bucket v (fst p) = b) xs)) = mset (map snd (filter (\<lambda>p. bucket v (fst p) = b) ys))"
    using assms by (simp add: mset_filter)
  from stat_merge_mset [OF this] mset_eq_setD [OF assms]
  show "map_of (group_rows v stat_merge xs) b = map_of (group_rows v stat_merge ys) b"
    by (simp add: map_of_group_rows)
qed

lemma floor_div_nat:
  fixes y :: double
  assumes "0 < n"
  shows "\<lfloor>of_int \<lfloor>y\<rfloor> / (of_nat n :: double)\<rfloor> = \<lfloor>y / of_nat n\<rfloor>"
proof (rule floor_unique)
  have n: "(0 :: double) < of_nat n" using assms by simp
  have "of_int \<lfloor>y / of_nat n\<rfloor> * of_nat n \<le> y" using n by (simp flip: pos_le_divide_eq)
  then have "of_int (\<lfloor>y / of_nat n\<rfloor> * int n) \<le> y" by simp
  then have "\<lfloor>y / of_nat n\<rfloor> * int n \<le> \<lfloor>y\<rfloor>" unfolding le_floor_iff .
  then have "(of_int (\<lfloor>y / of_nat n\<rfloor> * int n) :: double) \<le> of_int \<lfloor>y\<rfloor>" unfolding of_int_le_iff .
  then show "of_int \<lfloor>y / of_nat n\<rfloor> \<le> of_int \<lfloor>y\<rfloor> / (of_nat n :: double)"
    using n by (simp add: pos_le_divide_eq)
  have "of_int \<lfloor>y\<rfloor> / of_nat n \<le> y / of_nat n" using n by (simp add: divide_right_mono)
  also have "\<dots> < of_int \<lfloor>y / of_nat n\<rfloor> + 1" by linarith
  finally show "of_int \<lfloor>y\<rfloor> / (of_nat n :: double) < of_int \<lfloor>y / of_nat n\<rfloor> + 1" .
qed

lemma floor_floor_div:
  fixes x :: double
  assumes "0 < m" and "0 < n"
  shows "\<lfloor>of_int \<lfloor>x / of_nat m\<rfloor> * of_nat m / (of_nat (m * n) :: double)\<rfloor> = \<lfloor>x / of_nat (m * n)\<rfloor>"
  using floor_div_nat [OF assms(2), of "x / of_nat m"] assms(1) by (simp add: field_simps)

lemma bucket_nested: "bucket AH (bucket AM t) = bucket AH t" "bucket AD (bucket AH t) = bucket AD t"
  using floor_floor_div [of 60000 60 t] floor_floor_div [of 3600000 24 t] by (simp_all add: bucket_def)

subsection \<open>What a round leaves intact\<close>

context shared_inv
begin

lemma keeps_agg_db: "(\<And>self. keeps R (f self)) \<Longrightarrow> keeps (\<lambda>(g, w). R w) (agg_db f)"
  unfolding agg_db_def by (intro db_intros)

lemma keeps_set_entry: "keeps (\<lambda>(g, w). R w) (set_entry t f)"
  unfolding set_entry_def by (intro db_intros)

lemma keeps_configure: "keeps (\<lambda>(g, w). R w) (configure B)"
proof -
  have "keeps (\<lambda>(e, w). R w) (read_delays B r)" for r
    unfolding read_delays_def read_field_def by (intro db_intros)
  then have entry: "keeps (\<lambda>(g, w). R w) (on_entry t (read_delays B r))" for t r
    by (auto simp: keeps_def on_entry_def case_prod_beta)
  have "keeps (\<lambda>(g, w). R w) (column_level B tbl col v hv create)" for tbl col v hv create
    unfolding column_level_def extend_base_def by (intro db_intros keeps_agg_db keeps_set_entry)
  then have col: "keeps (\<lambda>(g, w). R w) (agg_column B tbl (a, b, c, d) r (e, f, g, h))" for tbl a b c d r e f g h
    unfolding agg_column_def prod.case Let_def by (intro db_intros)
  then have col: "keeps (\<lambda>(g, w). R w) (agg_column B tbl haves r acc)" for tbl haves r acc
    by (metis prod_cases4)
  have tables: "keeps (\<lambda>(g, w). R w) (create_tables B tbl i (a, b, c, d) (e, f, g, h))" for tbl i a b c d e f g h
    unfolding create_tables_def prod.case create_level_def Let_def by (intro db_intros)
  then have tables: "keeps (\<lambda>(g, w). R w) (create_tables B tbl i haves creates)" for tbl i haves creates
    by (metis prod_cases4)
  have "keeps (\<lambda>(g, w). R w) (setup_table B tbl)" for tbl
    unfolding setup_table_def extend_base_def try_store_on_def Let_def
    by (intro db_intros keeps_agg_db keeps_set_entry)
      (auto split: store_res.split intro!: db_intros keeps_agg_db keeps_set_entry col tables)
  then show ?thesis
    unfolding configure_def try_store_on_def configure_table_def Let_def
    by (intro db_intros) (auto split: store_res.split intro!: db_intros entry)
qed

lemma keeps_aggregator_round: "keeps (\<lambda>(g, w). R w) (aggregator_round B after now)"
proof -
  have stream: "keeps R (stream_exec B after t msg)" for t msg
    unfolding stream_exec_def by (intro db_intros)
  have "keeps R (purge B after t ret' msg buf)" for t ret' msg buf
    unfolding purge_def by (intro db_intros stream)
  then have "keeps (\<lambda>(g, w). R w) (run_table B after t tbl)" for t tbl
    unfolding run_table_def run_low_def run_med_def run_high_def by (intro db_intros stream keeps_set_entry)
  then show ?thesis
    unfolding aggregator_round_def by (intro db_intros keeps_agg_db keeps_configure)
qed

end

subsection \<open>Running the statements\<close>

text \<open>What is documented of the text of a query after its execution.\<close>

definition auto_reset :: "(exec_res \<Rightarrow> string \<Rightarrow> string) \<Rightarrow> bool" where
  "auto_reset after \<longleftrightarrow> (\<forall>r t. after r t = (if r = ExecOk then [] else t))"

lemma stream_exec_run:
  assumes "auto_reset after" and "my_exec B (Query t []) (srv w) = (r, d)"
  shows "\<exists>w'. stream_exec B after t msg w = (Ret (if r = ExecOk then [] else t), w') \<and> srv w' = d"
  using assms myqExec_returns [of B "Query t []" "''statAggregator::thread''" msg w]
  by (auto simp: stream_exec_def prog_simps auto_reset_def)

lemma map_of_set_entry: "om_ok m \<Longrightarrow> map_of (om_put t e m) t = Some e"
  by simp

section \<open>Properties\<close>


text \<open>C23. The raw data is purged only behind its own aggregation: with a query object that keeps its
  text after a failure, a refused insert leaves the database as it was, since the purge is then
  appended to the refused text; an accepted one is followed by the purge if a retention is set.\<close>

theorem purge_behind_aggregate:
  assumes "auto_reset after" and e: "map_of (tables g) tbl = Some e" "next_low e < fp_ms"
    and refused: "\<And>x d. fst (my_exec B (Query (base_am e) []) d) \<noteq> ExecOk \<Longrightarrow>
      \<exists>r. r \<noteq> ExecOk \<and> my_exec B (Query (base_am e @ x) []) d = (r, d)"
    and ins: "my_exec B (Query (base_am e) []) (srv w) = (r, d)"
  shows "\<exists>buf g' w'. run_low B after fp_ms tbl [] (g, w) = (Ret buf, (g', w'))
    \<and> srv w' = (if r \<noteq> ExecOk then srv w else if retention_d e = 0 then d
        else snd (my_exec B (Query (purge_sql (''d$'' @ tbl) (retention_d e)) []) d))"
proof -
  have entry: "entry tbl g = e" using e(1) by (simp add: entry_def)
  obtain w1 where w1: "stream_exec B after (base_am e) ''Failed to insert aggregate AM'' w
      = (Ret (if r = ExecOk then [] else base_am e), w1)" "srv w1 = d"
    using stream_exec_run [OF assms(1) ins] by blast
  let ?buf = "if r = ExecOk then [] else base_am e"
  have d: "d = srv w" if "r \<noteq> ExecOk" using refused [of "srv w" "[]"] ins that by auto
  have "\<exists>buf w2. purge B after (''d$'' @ tbl) (retention_d e) ''Failed to purge raw data'' ?buf w1 = (Ret buf, w2)
    \<and> srv w2 = (if r \<noteq> ExecOk then srv w else if retention_d e = 0 then d
        else snd (my_exec B (Query (purge_sql (''d$'' @ tbl) (retention_d e)) []) d))"
  proof (cases "retention_d e = 0")
    case True
    with w1(2) d show ?thesis by (auto simp: purge_def prog_simps)
  next
    case False
    obtain r2 d2 where r2: "my_exec B (Query (?buf @ purge_sql (''d$'' @ tbl) (retention_d e)) []) d = (r2, d2)"
      by fastforce
    have "d2 = srv w" if "r \<noteq> ExecOk"
      using refused [of "srv w" "purge_sql (''d$'' @ tbl) (retention_d e)"] ins r2 that d by auto
    with stream_exec_run [OF assms(1), of B _ w1 r2 d2 "''Failed to purge raw data''"] r2 w1(2) False show ?thesis
      by (fastforce simp: purge_def word_gt_0)
  qed
  with w1(1) e(2) entry show ?thesis
    by (fastforce simp: run_low_def set_entry_def prog_simps)
qed

text \<open>A server that carries everything out and keeps the statements it was sent.\<close>

definition recording_mysql :: "string list mysql" where
  "recording_mysql = fixed_mysql []\<lparr>my_exec := (\<lambda>q d. (ExecOk, d @ [q_text q]))\<rparr>"

theorem purge_behind_aggregate_witness:
  "\<exists>buf g' w'. run_low recording_mysql (\<lambda>r t. if r = ExecOk then [] else t) 1 ''cpu'' []
      (new_aggregator\<lparr>tables := [(''cpu'', new_data\<lparr>base_am := ''insert'', retention_d := 7\<rparr>)]\<rparr>, demo_world [])
      = (Ret buf, (g', w'))
    \<and> srv w' = [''insert'', purge_sql ''d$cpu'' 7]"
  using purge_behind_aggregate [of "\<lambda>r t. if r = ExecOk then [] else t"
    "new_aggregator\<lparr>tables := [(''cpu'', new_data\<lparr>base_am := ''insert'', retention_d := 7\<rparr>)]\<rparr>" "''cpu''"
    "new_data\<lparr>base_am := ''insert'', retention_d := 7\<rparr>" 1 recording_mysql "demo_world []"]
  by (simp add: auto_reset_def recording_mysql_def new_aggregator_def new_data_def)



text \<open>C35. The aggregation stops for good when it gets no connection once: the thread ends, the flag
  \<open>active\<close> stays set, and so no later \<open>startThread\<close> starts it again.\<close>

theorem aggregator_stops:
  assumes "grab B Aggregator w = (Ret False, w1)" and "agg_active g"
  shows "\<exists>w'. aggregator_round B after now (g, w) = (Ret False, (g, w')) \<and> aggregator_startThread g = (Ret False, g)"
  using assms(2)
  by (simp add: aggregator_round_def aggregator_startThread_def agg_db_def l_defs bnd_on_parts bnd_gets run_simps
      bnd_on_snd(1) [of "grab B Aggregator" w False w1, OF assms(1)])

definition exhausted_mysql :: "unit mysql" where
  "exhausted_mysql = fixed_mysql []\<lparr>my_grab := (\<lambda>d. ((0, NoConnection), d))\<rparr>"

theorem aggregator_stops_witness:
  "\<exists>w'. aggregator_round exhausted_mysql (\<lambda>r t. t) (\<lambda>d. 0) (new_aggregator\<lparr>agg_active := True\<rparr>,
      (demo_world ())\<lparr>conn := \<lambda>self. False\<rparr>) = (Ret False, (new_aggregator\<lparr>agg_active := True\<rparr>, w'))"
proof -
  let ?w = "(demo_world ())\<lparr>conn := \<lambda>self. False\<rparr>"
  have "\<exists>w1. grab exhausted_mysql Aggregator ?w = (Ret False, w1)"
    by (simp add: grab_def safe_grab_def exhausted_mysql_def pool_grab_def demo_world_def bnd_def on_srv_def gets_def
        modify_def ret_def)
  then show ?thesis using aggregator_stops [of exhausted_mysql ?w _ "new_aggregator\<lparr>agg_active := True\<rparr>"] by fastforce
qed

end
