(* ===== verification/AgentManager.thy ===== *)
theory AgentManager
  imports AgentClient Aggregator Pool
begin

text \<open>
  The agents of this backend (\<open>src/agentManager.cpp\<close>, class \<open>agentManager\<close>) and the program as a
  whole (\<open>src/backend.cpp\<close>): start, the main loop, and the threads of the agents and of the
  aggregation as a relation between the states of the system.
\<close>

section \<open>The object\<close>

text \<open>\<open>agents\<close> is a \<open>std::map\<close>; \<open>aggreg\<close> is null before \<open>init\<close>; the bits of \<open>back_id\<close> are read as an \<open>int32_t\<close>.\<close>

record 'j manager =
  agents :: "(u32 \<times> 'j agent) list"
  aggreg :: "aggregator option"
  back_id :: u32

definition new_manager :: "'j manager" where
  "new_manager = \<lparr>agents = [], aggreg = None, back_id = 0\<rparr>"

type_synonym ('db, 'j, 'a) man_prog = "('j manager \<times> 'db world, 'a) prog"

text \<open>
  What is outside besides the environment of the agents: the name of this host (empty when it
  cannot be found), absolute paths, and what mysql++ makes of the text of an executed query.
\<close>

record 'db host =
  ho_name :: "'db \<Rightarrow> string"
  ho_realpath :: "string \<Rightarrow> 'db \<Rightarrow> string option"
  ho_after :: "exec_res \<Rightarrow> string \<Rightarrow> string"

definition on_agent :: "u32 \<Rightarrow> ('db, 'j, 'a) agent_prog \<Rightarrow> ('db, 'j, 'a) man_prog" where
  "on_agent i m = (\<lambda>(s, w). case map_of (agents s) i of None \<Rightarrow> (Undef, (s, w))
     | Some a \<Rightarrow> (case m (a, w) of (x, (a, w)) \<Rightarrow> (x, (s\<lparr>agents := om_put i a (agents s)\<rparr>, w))))"

definition on_aggreg :: "('db, 'a) agg_prog \<Rightarrow> ('db, 'j, 'a) man_prog" where
  "on_aggreg m = (\<lambda>(s, w). case aggreg s of None \<Rightarrow> (Undef, (s, w))
     | Some g \<Rightarrow> (case m (g, w) of (x, (g, w)) \<Rightarrow> (x, (s\<lparr>aggreg := Some g\<rparr>, w))))"

section \<open>Operations\<close>

definition agents_query :: "int \<Rightarrow> query" where
  "agents_query domains = (if 0 < domains
     then Query ''select id from c$agents where central_id=%0:id'' [(''id'', VInt domains)]
     else Query ''select id from c$agents'' [])"

text \<open>One row: an agent that is not known yet is created and initialised; \<open>cnt\<close> is the 16-bit \<open>count\<close>.\<close>

definition add_agent :: "('db, 'j) env \<Rightarrow> row \<Rightarrow> u16 \<Rightarrow> ('db, 'j, u16) man_prog" where
  "add_agent E r cnt =
     bnd (lift (conv (my_u32 (ev_B E)) r 0)) (\<lambda>i.
     bnd (gets (\<lambda>(s, w). map_of (agents s) i \<noteq> None)) (\<lambda>known. if known then ret cnt
     else
       bnd (on_fst (modify (\<lambda>s. s\<lparr>agents := om_put i (new_agent (ev_J E) i) (agents s)\<rparr>))) (\<lambda>_.
       bnd (on_agent i (agent_init E)) (\<lambda>_. ret (cnt + 1)))))"

definition add_agents :: "('db, 'j) env \<Rightarrow> int \<Rightarrow> ('db, 'j, unit) man_prog" where
  "add_agents E domains =
     bnd (try_store_on (ev_B E) (agents_query domains) ''agentManager::updateAgents'' ''Failed to get agents list''
       (\<lambda>rs. bnd (fold_prog (add_agent E) rs 0) (\<lambda>cnt.
          bnd (if 0 < cnt then on_snd (l_info ''agentManager::updateAgents''
                 (''Started '' @ dec (unat cnt) @ '' agents'')) else ret ()) (\<lambda>_. ret (None :: unit option))))
       (bnd (on_snd (l_error ''agentManager::updateAgents'' ''Could not query for agent list'')) (\<lambda>_. ret None)))
     (\<lambda>_. ret ())"

definition self_status :: "('db, 'j) env \<Rightarrow> double \<Rightarrow> ('db, 'j, unit) man_prog" where
  "self_status E fp_ms = bnd (gets (\<lambda>(s, w). back_id s)) (\<lambda>i.
     on_snd (myqExec (ev_B E)
       (Query ''insert into b$history(back_id, timestamp, failed, ok) values(%0:id, %1:ts, 0, 1) on duplicate key update failed=0, ok=1''
          [(''id'', VInt (sint i)), (''ts'', VDbl fp_ms)])
       ''agentManager::updateAgents'' ''Failed to insert self status''))"

definition failed_backends :: "('db, 'j) env \<Rightarrow> double \<Rightarrow> ('db world, unit) prog" where
  "failed_backends E fp_ms = myqExec (ev_B E)
     (Query ''insert into b$history select back_id, %0:ts-300000 timestamp, 1 failed, 0 ok from (select max(timestamp) ts, back_id from b$history group by back_id) x where x.ts<%0:ts-600000''
        [(''ts'', VDbl fp_ms)])
     ''agentManager::updateAgents'' ''Failed to insert failed backends status''"

definition updateAgents :: "('db, 'j) env \<Rightarrow> ('db, 'j, unit) man_prog" where
  "updateAgents E =
     bnd (on_snd (grab (ev_B E) Manager)) (\<lambda>ok. if \<not> ok then
       on_snd (l_error ''agentManager::updateAgents'' ''Failed to get a connection from the pool!'')
     else
       bnd (lift (obind (j_at (ev_J E) (ev_cfg E) ''central_id'') (j_asInt (ev_J E)))) (\<lambda>domains.
       bnd (add_agents E domains) (\<lambda>_.
       bnd (gets (\<lambda>(s, w). ev_now E (srv w))) (\<lambda>fp_ms.
       bnd (self_status E fp_ms) (\<lambda>_.
       bnd (on_snd (failed_backends E fp_ms)) (\<lambda>_.
       on_snd (release Manager)))))))"

definition manager_init :: "('db, 'j) env \<Rightarrow> 'db host \<Rightarrow> string \<Rightarrow> string \<Rightarrow> ('db, 'j, unit) man_prog" where
  "manager_init E H p_me p_cfgfile =
     bnd (gets (\<lambda>(s, w). (ho_name H (srv w), ho_realpath H (c_str p_cfgfile) (srv w)))) (\<lambda>(host, path).
     bnd (on_snd (getBackend (ev_B E) Manager (if host = [] then p_me else host)
            (case path of None \<Rightarrow> p_cfgfile | Some f \<Rightarrow> f))) (\<lambda>i.
     bnd (on_fst (modify (\<lambda>s. s\<lparr>back_id := i, aggreg := Some new_aggregator\<rparr>))) (\<lambda>_.
     bnd (updateAgents E) (\<lambda>_.
     bnd (on_aggreg (on_fst aggregator_init)) (\<lambda>_.
     on_snd (l_notice ''agentManager::init'' ''Backend started and ready''))))))"

definition startThreads :: "('db, 'j, unit) man_prog" where
  "startThreads =
     bnd (gets (\<lambda>(s, w). map fst (agents s))) (\<lambda>ids.
     bnd (for_each ids (\<lambda>i. bnd (on_agent i (on_fst agent_startThread)) (\<lambda>_. ret ()))) (\<lambda>_.
     bnd (on_aggreg (on_fst aggregator_startThread)) (\<lambda>_. ret ())))"

section \<open>The program\<close>

text \<open>
  What \<open>main\<close> builds before it calls \<open>init\<close>: the completed configuration, the shared state with
  the pool and the log, the alerters, and the manager. The sections of the configuration are
  completed in place, through pointers into the document.
\<close>

definition backend_start :: "'db mysql \<Rightarrow> 'j json_api \<Rightarrow> 'db fs \<Rightarrow> build_paths \<Rightarrow> (string \<Rightarrow> 'db \<Rightarrow> bool) \<Rightarrow>
    string option \<Rightarrow> 'db \<Rightarrow> ('j \<times> alerters) outcome \<times> 'db world" where
  "backend_start B J F p opens file_text d =
     (let none = \<lparr>srv = d, usedCount = 0, poolSize = 0, conn = (\<lambda>self. False),
        logs = \<lparr>lg_level = 0, lg_file = [], lg_opens = False, lg_lines = []\<rparr>, sent = []\<rparr> in
      bnd (lift (Config_init J p file_text)) (\<lambda>data.
      bnd (lift (getDB J data)) (\<lambda>data.
      bnd (lift (obind (j_path J data [''db'', ''pool_size'']) (j_asInt J))) (\<lambda>size.
      bnd (modify (\<lambda>w. w\<lparr>poolSize := word_of_int size\<rparr>)) (\<lambda>_.
      bnd (lift (getLog J data)) (\<lambda>data.
      bnd (lift (obind (j_at J data ''log'') (log_init J (watched_log_file p)))) (\<lambda>(log_cfg, level).
      bnd (lift (j_put J data ''log'' log_cfg)) (\<lambda>data.
      bnd (lift (obind (j_at J log_cfg ''file'') (j_asString J))) (\<lambda>log_file.
      bnd (modify (\<lambda>w. w\<lparr>logs := \<lparr>lg_level = level, lg_file = log_file, lg_opens = opens log_file d, lg_lines = []\<rparr>\<rparr>)) (\<lambda>_.
      bnd (lift (getAlerter J data)) (\<lambda>data.
      bnd (lift (j_at J data ''alerters'')) (\<lambda>al_cfg.
      bnd (alerterManager_init B J F p al_cfg) (\<lambda>(al_cfg, al).
      bnd (lift (j_put J data ''alerters'' al_cfg)) (\<lambda>data.
      ret (data, al)))))))))))))) none)"

text \<open>A round of the main loop; before it sleeps \<open>pool_freq\<close> seconds.\<close>

definition main_round :: "('db, 'j) env \<Rightarrow> ('db, 'j, unit) man_prog" where
  "main_round E =
     bnd (lift (obind (j_at (ev_J E) (ev_cfg E) ''pool_freq'') (j_asInt (ev_J E)))) (\<lambda>_.
     bnd (updateAgents E) (\<lambda>_. startThreads))"

definition agent_thread :: "('db, 'j) env \<Rightarrow> u32 \<Rightarrow> ('db, 'j, unit) man_prog" where
  "agent_thread E i = on_agent i (agent_round E)"

definition aggregator_thread :: "('db, 'j) env \<Rightarrow> 'db host \<Rightarrow> ('db, 'j, unit) man_prog" where
  "aggregator_thread E H = bnd (on_aggreg (aggregator_round (ev_B E) (ho_after H) (ev_now E))) (\<lambda>_. ret ())"

text \<open>
  The system: a step is a round of the main loop, of the thread of an active agent, or of the
  aggregation, however it ends, even where the program or the thread would not go on. Rounds are
  taken as a whole: the threads share no more than the pool, the log and the server.
\<close>

inductive backend_step :: "('db, 'j) env \<Rightarrow> 'db host \<Rightarrow> 'j manager \<times> 'db world \<Rightarrow> 'j manager \<times> 'db world \<Rightarrow> bool"
  for E H where
  main: "backend_step E H s (snd (main_round E s))"
| agent: "map_of (agents (fst s)) i = Some a \<Longrightarrow> active a \<Longrightarrow> backend_step E H s (snd (agent_thread E i s))"
| aggregate: "aggreg (fst s) = Some g \<Longrightarrow> agg_active g \<Longrightarrow> backend_step E H s (snd (aggregator_thread E H s))"

inductive backend_reach :: "('db, 'j) env \<Rightarrow> 'db host \<Rightarrow> string \<Rightarrow> string \<Rightarrow> 'j manager \<times> 'db world \<Rightarrow> bool"
  for E H me cfgfile where
  start: "usedCount w = 0 \<Longrightarrow> conn w = (\<lambda>self. False) \<Longrightarrow> unat (poolSize w) < 2 ^ 32 - 1 \<Longrightarrow>
    backend_reach E H me cfgfile (snd (bnd (manager_init E H me cfgfile) (\<lambda>_. startThreads) (new_manager, w)))"
| step: "backend_reach E H me cfgfile s \<Longrightarrow> backend_step E H s t \<Longrightarrow> backend_reach E H me cfgfile t"

inductive_cases backend_stepE: "backend_step E H s t"

section \<open>Lemmas\<close>

subsection \<open>What the operations leave intact\<close>

text \<open>
  An invariant of the system: one of the shared state, and one of every agent by its id, which
  holds of a new agent and survives the steps of agents and the start of their threads.
\<close>

locale system_inv = shared_inv B R for B :: "'db mysql" and R :: "'db world \<Rightarrow> bool" +
  fixes P :: "u32 \<Rightarrow> 'j agent \<Rightarrow> bool" and C :: "'j ressource \<Rightarrow> bool"
  assumes agent_law: "agent_frame B R (P i) C"
    and P_new: "P i (new_agent J i)"
    and P_count: "P i a \<Longrightarrow> P i (a\<lparr>collectCount := c\<rparr>)"
    and P_active: "P i a \<Longrightarrow> ready a \<Longrightarrow> P i (a\<lparr>active := True\<rparr>)"
begin

definition S :: "'j manager \<times> 'db world \<Rightarrow> bool" where
  "S = (\<lambda>(s, w). om_ok (agents s) \<and> (\<forall>i a. map_of (agents s) i = Some a \<longrightarrow> P i a) \<and> R w)"

lemma S_simp: "S (s, w) \<longleftrightarrow> om_ok (agents s) \<and> (\<forall>i a. map_of (agents s) i = Some a \<longrightarrow> P i a) \<and> R w"
  by (simp add: S_def)

abbreviation Q :: "u32 \<Rightarrow> 'j agent \<times> 'db world \<Rightarrow> bool" where
  "Q i \<equiv> \<lambda>(a, w). P i a \<and> R w"

lemma keeps_on_agent: "keeps (Q i) m \<Longrightarrow> keeps S (on_agent i m)"
  by (auto simp: keeps_def on_agent_def S_simp case_prod_beta split: option.split)

lemma keeps_on_world: "keeps R m \<Longrightarrow> keeps S (on_snd m)"
  by (auto simp: keeps_def on_snd_def S_simp case_prod_beta)

lemma keeps_on_aggreg: "keeps (\<lambda>(g, w). R w) m \<Longrightarrow> keeps S (on_aggreg m)"
  by (auto simp: keeps_def on_aggreg_def S_simp case_prod_beta split: option.split)

lemma keeps_fields: "(\<And>s. agents (f s) = agents s) \<Longrightarrow> keeps S (on_fst (modify f))"
  by (auto simp: keeps_def on_fst_def modify_def S_simp)

lemma keeps_add: "keeps S (on_fst (modify (\<lambda>s. s\<lparr>agents := om_put i (new_agent J i) (agents s)\<rparr>)))"
  by (auto simp: keeps_def on_fst_def modify_def S_simp P_new)

lemma keeps_agent_init: "ev_B E = B \<Longrightarrow> keeps (Q i) (agent_init E)"
  using agent_frame.keeps_agent_init [OF agent_law, of E i] by (simp add: agent_frame.Q_def [OF agent_law])

lemma keeps_agent_round: "ev_B E = B \<Longrightarrow> keeps (Q i) (agent_round E)"
proof -
  assume B: "ev_B E = B"
  have count: "keeps (Q i) (on_fst (modify f))" if "\<And>a. \<exists>c. f a = a\<lparr>collectCount := c\<rparr>" for f
    using that P_count by (auto simp: keeps_def on_fst_def modify_def) metis
  have "keeps (Q i) (updateApi E)" "keeps (Q i) (collect_round E)"
    using agent_frame.keeps_updateApi [OF agent_law, of E i] agent_frame.keeps_collect_round [OF agent_law, of E i] B
    by (simp_all add: agent_frame.Q_def [OF agent_law])
  then show ?thesis
    unfolding agent_round_def refresh_def by (intro db_intros count) auto
qed

lemma keeps_start: "keeps (Q i) (on_fst agent_startThread)"
  by (auto simp: keeps_def on_fst_def agent_startThread_def bnd_def gets_def modify_def ret_def P_active)

lemma keeps_updateAgents: "ev_B E = B \<Longrightarrow> keeps S (updateAgents E)"
proof -
  assume B: "ev_B E = B"
  have "keeps S (add_agent E r c)" for r c
    unfolding add_agent_def by (intro db_intros keeps_on_agent keeps_agent_init keeps_add B)
  then have "keeps S (add_agents E domains)" for domains
    unfolding add_agents_def try_store_on_def B
    by (intro db_intros keeps_on_world) (auto split: store_res.split intro!: db_intros keeps_on_world)
  then show ?thesis
    unfolding updateAgents_def self_status_def failed_backends_def B by (intro db_intros keeps_on_world)
qed

lemma keeps_startThreads: "keeps S startThreads"
  unfolding startThreads_def by (intro db_intros keeps_on_agent keeps_start keeps_on_aggreg)

lemma keeps_rounds:
  assumes "ev_B E = B"
  shows "keeps S (main_round E)" "keeps S (agent_thread E i)" "keeps S (aggregator_thread E H)"
    "keeps S (bnd (manager_init E H me cfgfile) (\<lambda>_. startThreads))"
  unfolding main_round_def agent_thread_def aggregator_thread_def manager_init_def assms
  by (intro db_intros keeps_updateAgents keeps_startThreads keeps_on_agent keeps_agent_round keeps_on_aggreg
      keeps_aggregator_round keeps_on_world keeps_fields assms; simp)+

lemma keeps_step: "backend_step E H s t \<Longrightarrow> ev_B E = B \<Longrightarrow> S s \<Longrightarrow> S t"
  by (erule backend_stepE) (auto intro: keepsD [OF keeps_rounds(1)] keepsD [OF keeps_rounds(2)] keepsD [OF keeps_rounds(3)])

lemma reach_S:
  assumes "backend_reach E H me cfgfile s" and B: "ev_B E = B"
    and start: "\<And>w. usedCount w = 0 \<Longrightarrow> conn w = (\<lambda>self. False) \<Longrightarrow> unat (poolSize w) < 2 ^ 32 - 1 \<Longrightarrow> R w"
  shows "S s"
  using assms(1)
proof (induction rule: backend_reach.induct)
  case (start w)
  with assms(3) have "S (new_manager, w)" by (simp add: S_simp new_manager_def)
  then show ?case by (rule keepsD [OF keeps_rounds(4) [OF B]])
next
  case (step s t) then show ?case using keeps_step B by blast
qed

end

text \<open>The pool: every agent will do.\<close>

interpretation pool_system: system_inv B pool_ok "\<lambda>i a. True" "\<lambda>r. True" for B :: "'db mysql"
  by unfold_locales
    (auto intro: srv_log_free_pool_ok keeps_pool_ok simp: pool_ok_def holders_def)

text \<open>The agents: each has the id it is filed under, is only active when ready, and has a client by then.\<close>

definition agent_ok :: "u32 \<Rightarrow> 'j agent \<Rightarrow> bool" where
  "agent_ok i a \<longleftrightarrow> ag_id a = i \<and> (active a \<longrightarrow> ready a) \<and> (ready a \<longrightarrow> ag_client a \<noteq> None)"

interpretation agent_system: system_inv B "\<lambda>w. True" agent_ok "\<lambda>r. True" for B :: "'db mysql"
  by unfold_locales (auto simp: agent_ok_def new_agent_def srv_log_free_def keeps_def)

subsection \<open>An agent that is not ready\<close>

text \<open>Only the thread of an agent and its first initialisation touch it, and neither happens to one that is known but not ready.\<close>

definition idle :: "u32 \<Rightarrow> 'j agent \<Rightarrow> 'j manager \<times> 'db world \<Rightarrow> bool" where
  "idle i a s \<longleftrightarrow> map_of (agents (fst s)) i = Some a \<and> \<not> ready a"

lemma keeps_idle_parts:
  "keeps (idle i a) (on_snd n)" "keeps (idle i a) (on_aggreg g)"
  "(\<And>s. agents (f s) = agents s) \<Longrightarrow> keeps (idle i a) (on_fst (modify f))"
  "j \<noteq> i \<Longrightarrow> keeps (idle i a) (on_agent j m)"
  by (auto simp: keeps_def idle_def on_snd_def on_aggreg_def on_fst_def modify_def on_agent_def case_prod_beta
      split: option.split)

lemma keeps_idle_start: "keeps (idle i a) (on_agent j (on_fst agent_startThread))"
  by (auto simp: keeps_def idle_def on_agent_def on_fst_def agent_startThread_def prog_simps split: option.split)

lemma keeps_idle_add: "keeps (idle i a) (add_agent E r c)"
proof -
  have "idle i a (snd (bnd (gets (\<lambda>(s, w). map_of (agents s) j \<noteq> None)) (\<lambda>known. if known then ret c
     else bnd (on_fst (modify (\<lambda>s. s\<lparr>agents := om_put j (new_agent (ev_J E) j) (agents s)\<rparr>))) (\<lambda>_.
       bnd (on_agent j (agent_init E)) (\<lambda>_. ret (c + 1)))) s))" if s: "idle i a s" for j s
  proof (cases "map_of (agents (fst s)) j = None")
    case True
    with s have j: "j \<noteq> i" by (auto simp: idle_def)
    have "keeps (idle i a) (bnd (on_agent j (agent_init E)) (\<lambda>_. ret (c + 1)))"
      by (intro keeps_intros keeps_idle_parts j)
    with True s j show ?thesis
      by (cases s) (auto simp: bnd_gets bnd_on_parts keeps_def idle_def)
  next
    case False
    with s show ?thesis by (auto simp: bnd_gets ret_def case_prod_beta)
  qed
  then show ?thesis unfolding add_agent_def by (intro keeps_bnd keeps_pure keepsI)
qed

lemma keeps_idle_round: "keeps (idle i a) (main_round E)"
proof -
  have "keeps (idle i a) (add_agents E domains)" for domains
    unfolding add_agents_def try_store_on_def
    by (intro keeps_intros keeps_idle_parts) (auto split: store_res.split intro!: keeps_intros keeps_idle_parts keeps_idle_add)
  then show ?thesis
    unfolding main_round_def updateAgents_def self_status_def startThreads_def
    by (intro keeps_intros keeps_idle_parts keeps_idle_start)
qed

lemma step_idle:
  assumes "backend_step E H s t" and "idle i a s" and "\<not> active a"
  shows "idle i a t"
  using assms(1)
proof (cases rule: backend_step.cases)
  case main then show ?thesis using keeps_idle_round [of i a E] assms(2) by (cases s) (simp add: keeps_def)
next
  case (agent j b)
  with assms(2,3) have "j \<noteq> i" by (auto simp: idle_def)
  then show ?thesis using agent keeps_idle_parts(4) [of j i a "agent_round E"] assms(2)
    by (cases s) (simp add: agent_thread_def keeps_def)
next
  case aggregate
  have "keeps (idle i a) (aggregator_thread E H)"
    unfolding aggregator_thread_def by (intro keeps_intros keeps_idle_parts)
  then show ?thesis using aggregate assms(2) by (cases s) (simp add: keeps_def)
qed

subsection \<open>An example\<close>

text \<open>A central that assigns one agent to this backend, and answers with \<open>r\<close> when asked for its address.\<close>

definition demo_central :: "store_res \<Rightarrow> 'db mysql" where
  "demo_central r = (fixed_mysql [[''1'']])\<lparr>my_store :=
     \<lambda>q d. (if take 11 (q_text q) = ''select host'' then r else Rows [[''1'']], d)\<rparr>"

definition central_env :: "(nat \<Rightarrow> string, json) env" where
  "central_env = (demo_env jsoncpp)\<lparr>ev_B := demo_central NoResult\<rparr>"

definition demo_host :: "'db host" where
  "demo_host = \<lparr>ho_name = (\<lambda>d. ''me''), ho_realpath = (\<lambda>p d. None), ho_after = (\<lambda>r t. [])\<rparr>"

definition demo_started :: "json manager \<times> (nat \<Rightarrow> string) world" where
  "demo_started = snd (bnd (manager_init central_env demo_host ''back'' ''c.json'') (\<lambda>_. startThreads)
     (new_manager, demo_net_world []))"

lemma demo_started_reach: "backend_reach central_env demo_host ''back'' ''c.json'' demo_started"
  unfolding demo_started_def by (rule backend_reach.start) (simp_all add: demo_net_world_def)

lemma demo_started_agents:
  "map (\<lambda>(i, a). (i, ag_id a, ready a, active a)) (agents (fst demo_started)) = [(1, 1, False, False)]"
  by code_simp

lemma demo_started_agent: "\<exists>a. agents (fst demo_started) = [(1, a)] \<and> \<not> ready a \<and> \<not> active a"
  using demo_started_agents by auto

section \<open>Properties\<close>



text \<open>C2. No thread runs without a client: in every state the running backend reaches the agents are
  filed in the order of their ids, each under its own, an agent with a thread is ready, and one
  that is ready has the client its thread dereferences.\<close>

theorem running_agents_have_clients:
  assumes "backend_reach E H me cfgfile s"
  shows "sorted_wrt (<) (map fst (agents (fst s)))
    \<and> list_all (\<lambda>(i, a). ag_id a = i \<and> (if active a then ready a else True) \<and> (if ready a then ag_client a \<noteq> None else True))
        (agents (fst s))"
proof -
  have "agent_system.S s" by (rule agent_system.reach_S [OF assms refl]) simp
  then show ?thesis
    by (cases s) (auto simp: agent_system.S_simp om_ok_def list_all_iff agent_ok_def om_map_of_eq)
qed

theorem running_agents_have_clients_witness: "list_all (\<lambda>(i, a). ag_id a = i) (agents (fst demo_started))"
  using running_agents_have_clients [OF demo_started_reach] by (auto simp: list_all_iff)

text \<open>C13. A failed start is final for an agent: once an agent is known but not ready, because the
  database did not answer the question for its address, no later round of the backend touches it:
  it is neither initialised again nor started, for as long as the program runs.\<close>

theorem unready_agent_abandoned:
  assumes "(backend_step E H)\<^sup>*\<^sup>* s t" and "map_of (agents (fst s)) i = Some a" and "\<not> ready a" and "\<not> active a"
  shows "map_of (agents (fst t)) i = Some a"
proof -
  have "idle i a t"
    using assms(1)
  proof (induction rule: rtranclp_induct)
    case base then show ?case using assms(2,3) by (simp add: idle_def)
  next
    case (step u v) then show ?case using step_idle assms(4) by blast
  qed
  then show ?thesis by (simp add: idle_def)
qed

theorem unready_agent_abandoned_witness:
  "map_of (agents (fst (snd (main_round central_env demo_started)))) 1 = map_of (agents (fst demo_started)) 1"
proof -
  obtain a where a: "agents (fst demo_started) = [(1, a)]" "\<not> ready a" "\<not> active a" using demo_started_agent by blast
  have "(backend_step central_env demo_host)\<^sup>*\<^sup>* demo_started (snd (main_round central_env demo_started))"
    by (intro r_into_rtranclp backend_step.main)
  from unready_agent_abandoned [OF this, of 1 a] a show ?thesis by simp
qed

text \<open>C34. And it keeps a connection: when the database gives no result for the address of an agent,
  \<open>init\<close> returns without an exception, leaves the agent not ready, and does not give back the
  connection it took from the pool.\<close>

theorem failed_init_keeps_connection:
  assumes "\<not> ready a" and "grab (ev_B E) (Agent (ag_id a)) w = (Ret True, v)"
    and "\<And>q. fst (my_store (ev_B E) q (srv v)) = NoResult"
  shows "\<exists>w'. agent_init E (a, w) = (Ret (), (a, w')) \<and> conn w' = conn v \<and> usedCount w' = usedCount v
    \<and> logs w' = log_error (logs v) ''agentClient::createTables'' (''Cannot look for agent id='' @ to_str (ag_id a))"
proof -
  have "\<exists>d. my_store (ev_B E) q (srv v) = (NoResult, d)" for q using assms(3) [of q] by (metis prod.collapse)
  then obtain d where d: "my_store (ev_B E) (Query ''select host, port, pool_freq, use_ssl from c$agents where id=%0:id''
      [(''id'', v_u32 (ag_id a))]) (srv v) = (NoResult, d)" by blast
  show ?thesis
    using assms(1,2) d
    by (simp add: agent_init_def failed_grab_def on_db_def agent_config_def try_store_on_def prog_simps bnd_assoc
        on_srv_def l_defs)
qed

theorem failed_init_keeps_connection_witness:
  "\<exists>w'. agent_init (demo_env jsoncpp\<lparr>ev_B := (fixed_mysql [])\<lparr>my_store := \<lambda>q d. (NoResult, d)\<rparr>\<rparr>) (new_agent jsoncpp 1, demo_world (\<lambda>s. []))
     = (Ret (), (new_agent jsoncpp 1, w')) \<and> conn w' (Agent 1)"
proof -
  let ?E = "demo_env jsoncpp\<lparr>ev_B := (fixed_mysql [])\<lparr>my_store := \<lambda>q d. (NoResult, d)\<rparr>\<rparr>"
  have "grab (ev_B ?E) (Agent (ag_id (new_agent jsoncpp 1))) (demo_world (\<lambda>s. [])) = (Ret True, demo_world (\<lambda>s. []))"
    by (simp add: grab_def prog_simps)
  from failed_init_keeps_connection [OF _ this] show ?thesis by auto
qed

end
