(* ===== verification/Statements.thy ===== *)
theory Statements
  imports Templates AgentManager
begin

text \<open>
  The statements the program sends. A parsed template query has numbered and named parameters in its
  text; mysql++ fills each from \<open>template_defaults\<close> and throws \<open>BadParamCount\<close> when one has no value.
  Whether a statement has all its values is a property of its text and its defaults; what is shown
  here is that the program sends no other, but for two.
\<close>

section \<open>Expected statements\<close>

text \<open>
  The two exceptions are the insert of new data, whose parameters are the names in the document of
  the agent, and the statement that closes an event.
\<close>

definition closes_event :: "query \<Rightarrow> bool" where
  "closes_event q \<longleftrightarrow> q_text q \<in> {''update h$res_events set end_time=%0:end where id=%1:id'',
     ''update s$res_events set end_time=%0:end where id=%1:id''}"

definition inserts_data :: "string \<Rightarrow> bool" where
  "inserts_data t \<longleftrightarrow> take 14 t = ''insert into d$''"

definition expected :: "query \<Rightarrow> bool" where
  "expected q \<longleftrightarrow> well_bound q \<or> closes_event q \<or> inserts_data (q_text q)"

text \<open>Another server answers all the rest.\<close>

definition instead :: "'db mysql \<Rightarrow> 'db mysql \<Rightarrow> 'db mysql" where
  "instead B' B = B\<lparr>my_store := (\<lambda>q. if expected q then my_store B q else my_store B' q),
     my_exec := (\<lambda>q. if expected q then my_exec B q else my_exec B' q)\<rparr>"

section \<open>Programs that send no other statement\<close>

named_theorems instead_simps "the program is the same on both servers"

lemmas expected_simps = expected_def well_bound_simps

lemma instead_sel [instead_simps]:
  "my_insert_id (instead B' B) = my_insert_id B" "my_error (instead B' B) = my_error B"
  "my_str (instead B' B) = my_str B" "my_grab (instead B' B) = my_grab B" "my_int (instead B' B) = my_int B"
  "my_u32 (instead B' B) = my_u32 B" "my_double (instead B' B) = my_double B"
  by (simp_all add: instead_def)

lemma instead_query [instead_simps]:
  "expected q \<Longrightarrow> my_store (instead B' B) q = my_store B q"
  "expected q \<Longrightarrow> my_exec (instead B' B) q = my_exec B q"
  by (simp_all add: instead_def)

text \<open>Both branches of every case are to be rewritten.\<close>

lemmas branches = if_cong option.case_cong exec_res.case_cong store_res.case_cong

lemma instead_reports [instead_simps]: "query_failed (instead B' B) q a b = query_failed B q a b"
  by (simp add: query_failed_def instead_simps)

lemma instead_pool [instead_simps]: "safe_grab (instead B' B) = safe_grab B" "grab (instead B' B) = grab B"
proof -
  show "safe_grab (instead B' B) = safe_grab B" by (simp add: safe_grab_def instead_simps)
  then show "grab (instead B' B) = grab B" by (intro ext) (simp only: grab_def cong: branches)
qed

lemma instead_macros [instead_simps]:
  "expected q \<Longrightarrow> myqExec (instead B' B) q a b = myqExec B q a b"
  "expected q \<Longrightarrow> try_store (instead B' B) q a b body = try_store B q a b body"
  "expected q \<Longrightarrow> try_store_on (instead B' B) q a b body' none = try_store_on B q a b body' none"
  by (simp_all add: myqExec_def try_store_def try_store_on_def instead_simps cong: branches)

lemma instead_rows [instead_simps]: "row_positive (instead B' B) = row_positive B" "row_id (instead B' B) = row_id B"
  by (intro ext; simp only: row_positive_def row_id_def instead_simps)+

lemma instead_bodies [instead_simps]:
  "with_conn (instead B' B) self a x m = with_conn B self a x m"
  "expected q \<Longrightarrow> ask (instead B' B) q a b body none = ask B q a b body none"
  "expected q \<Longrightarrow> have_row (instead B' B) self a q b = have_row B self a q b"
  "expected q \<Longrightarrow> get_id (instead B' B) self a q b = get_id B self a q b"
  "expected q \<Longrightarrow> expected q' \<Longrightarrow> get_or_create (instead B' B) self a have q b q' b' = get_or_create B self a have q b q' b'"
  by (simp_all add: with_conn_def ask_def have_row_def get_id_def get_or_create_def instead_simps cong: branches)

lemma instead_dbTools [instead_simps]:
  "haveProcessStatus (instead B' B) = haveProcessStatus B" "haveSocketStatus (instead B' B) = haveSocketStatus B"
  "haveLogEvent (instead B' B) = haveLogEvent B" "haveTable (instead B' B) = haveTable B"
  "haveRessource (instead B' B) = haveRessource B" "haveBackend (instead B' B) = haveBackend B"
  "haveHost (instead B' B) = haveHost B" "haveService (instead B' B) = haveService B"
  "haveEventType (instead B' B) = haveEventType B" "haveServiceType (instead B' B) = haveServiceType B"
  by (intro ext; simp add: haveProcessStatus_def haveSocketStatus_def haveLogEvent_def haveTable_def haveRessource_def
      haveBackend_def haveHost_def haveService_def haveEventType_def haveServiceType_def
      instead_simps expected_simps)+

lemma expected_names:
  "expected (Query ''select id from c$ressources where name=%0q:rs and origin=%1q:or'' [(''rs'', x), (''or'', y)])"
  "expected (Query ''select name from c$ressources where id=%0:id'' [(''id'', x)])"
  "expected (Query ''select host_id from s$services where id=%0:id'' [(''id'', x)])"
  "expected (Query ''select name from s$services where host_id=%0:hid and id=%1:sid'' [(''hid'', x), (''sid'', y)])"
  "expected (Query ''select name from h$hosts where id=%0:id'' [(''id'', x)])"
  "expected (Query
    ''select count(*) from information_schema.columns where TABLE_SCHEMA=DATABASE() and table_name=%0q:tn and column_name=%1q:cl''
    [(''tn'', x), (''cl'', y)])"
  by (simp_all add: expected_simps)

lemma instead_names [instead_simps]:
  "getRessourceId (instead B' B) = getRessourceId B" "getRessourceName (instead B' B) = getRessourceName B"
  "getServiceHost (instead B' B) = getServiceHost B" "getServiceName (instead B' B) = getServiceName B"
  "getHostName (instead B' B) = getHostName B" "tableHasColumn (instead B' B) = tableHasColumn B"
  by (intro ext; simp only: getRessourceId_def getRessourceName_def getServiceHost_def getServiceName_def getHostName_def
      tableHasColumn_def expected_names instead_simps cong: branches)+

lemma instead_creators [instead_simps]:
  "getBackend (instead B' B) = getBackend B" "getHost (instead B' B) = getHost B" "getService (instead B' B) = getService B"
  "getEventType (instead B' B) = getEventType B" "getServiceType (instead B' B) = getServiceType B"
  by (intro ext; simp add: getBackend_def getHost_def getService_def getEventType_def getServiceType_def
      instead_simps expected_simps)+

lemma instead_alerters [instead_simps]:
  "addAlerter (instead B' B) = addAlerter B" "add_plugin (instead B' B) = add_plugin B" "add_script (instead B' B) = add_script B"
proof -
  show add: "addAlerter (instead B' B) = addAlerter B"
    by (intro ext) (simp add: addAlerter_def instead_simps expected_simps)
  show "add_plugin (instead B' B) = add_plugin B" "add_script (instead B' B) = add_script B"
    by (intro ext; simp only: add_plugin_def add_script_def add cong: branches)+
qed

lemma instead_dispatch [instead_simps]:
  "expected q \<Longrightarrow> dispatch (instead B' B) al a q b whom lvl title msg = dispatch B al a q b whom lvl title msg"
  by (simp only: dispatch_def instead_simps)

lemma expected_alerts: "expected (alert_services_query i)" "expected (alert_hosts_query i)"
  by (simp_all add: alert_services_query_def alert_hosts_query_def expected_simps)

lemma instead_senders [instead_simps]:
  "sendService (instead B' B) = sendService B" "sendLog (instead B' B) = sendLog B"
  "sendServRessource (instead B' B) = sendServRessource B" "sendHostRessource (instead B' B) = sendHostRessource B"
  by (intro ext; simp only: sendService_def sendLog_def sendServRessource_def sendHostRessource_def expected_alerts
      instead_simps)+

lemma instead_alerterManager: "alerterManager_init (instead B' B) = alerterManager_init B"
  by (intro ext) (simp only: alerterManager_init_def instead_simps cong: branches)

lemma instead_backend_start: "backend_start (instead B' B) = backend_start B"
  by (intro ext) (simp only: backend_start_def instead_alerterManager)

subsection \<open>The aggregator\<close>

lemma expected_plain [instead_simps]: "expected (Query t [])"
  by (simp add: expected_def well_bound_def)

lemma instead_reading [instead_simps]: "read_delays (instead B' B) = read_delays B"
proof -
  have "read_field (instead B' B) = read_field B" by (intro ext) (simp only: read_field_def instead_simps)
  then show ?thesis by (intro ext) (simp only: read_delays_def)
qed

lemma instead_columns [instead_simps]: "agg_column (instead B' B) = agg_column B"
proof -
  have "column_level (instead B' B) = column_level B"
    by (intro ext) (simp only: column_level_def instead_simps cong: branches)
  then show ?thesis by (intro ext) (simp only: agg_column_def)
qed

lemma instead_tables [instead_simps]: "create_tables (instead B' B) = create_tables B"
proof -
  have "create_level (instead B' B) = create_level B" by (intro ext) (simp only: create_level_def instead_simps)
  then show ?thesis by (intro ext) (simp only: create_tables_def instead_simps cong: branches)
qed

lemma instead_setup [instead_simps]: "configure (instead B' B) = configure B"
proof -
  have "expected (columns_query t i)" for t i by (simp only: columns_query_def expected_plain)
  then have "setup_table (instead B' B) = setup_table B"
    by (intro ext) (simp only: setup_table_def instead_simps cong: branches)
  then have "configure_table (instead B' B) = configure_table B"
    by (intro ext) (simp only: configure_table_def instead_simps cong: branches)
  then show ?thesis by (simp only: configure_def instead_simps)
qed

lemma instead_stream [instead_simps]: "stream_exec (instead B' B) = stream_exec B" "purge (instead B' B) = purge B"
proof -
  show "stream_exec (instead B' B) = stream_exec B" by (intro ext) (simp only: stream_exec_def instead_simps)
  then show "purge (instead B' B) = purge B" by (intro ext) (simp only: purge_def)
qed

lemma instead_aggregator [instead_simps]: "aggregator_round (instead B' B) = aggregator_round B"
proof -
  have "run_table (instead B' B) = run_table B"
    by (intro ext) (simp only: run_table_def run_low_def run_med_def run_high_def instead_simps)
  then show ?thesis by (intro ext) (simp only: aggregator_round_def instead_simps cong: branches)
qed

subsection \<open>A resource\<close>

lemma bnd_lift_cong: "(\<And>a. x = Ret a \<Longrightarrow> f a = g a) \<Longrightarrow> bnd (lift x) f = bnd (lift x) g"
  by (cases x) simp_all

lemma typed_cases: "typed r = ''s$'' \<or> typed r = ''h$''"
  by (simp add: typed_def)

lemma expected_ressource: "expected (current_query r)" "expected (factory_query r)"
  using typed_cases [of r] by (auto simp: current_query_def factory_query_def expected_simps)

lemma expected_event:
  "current_value_query J line e i r = Ret q \<Longrightarrow> expected q" "new_event_query J line e r = Ret q \<Longrightarrow> expected q"
  "end_query J line i r = Ret q \<Longrightarrow> expected q"
  using typed_cases [of r]
  by (auto simp: current_value_query_def new_event_query_def end_query_def obind_eq_Ret closes_event_def expected_simps)

lemma instead_load [instead_simps]:
  "load_current (instead B' B) = load_current B" "load_rule (instead B' B) = load_rule B"
proof -
  have "event_of_row (instead B' B) = event_of_row B" by (intro ext) (simp only: event_of_row_def instead_simps)
  then show "load_current (instead B' B) = load_current B" "load_rule (instead B' B) = load_rule B"
    by (intro ext; simp only: load_current_def load_rule_def instead_simps)+
qed

lemma instead_ressource_init [instead_simps]: "ressource_init (instead B' B) = ressource_init B"
  by (intro ext) (simp only: ressource_init_def load_rows_def expected_ressource instead_simps cong: branches)

lemma instead_event_alert: "event_alert (instead B' B) = event_alert B"
  by (intro ext) (simp only: event_alert_def instead_simps)

lemma expected_raise:
  "(if 0 < i then current_value_query J line e i r else new_event_query J line e r) = Ret q \<Longrightarrow> expected q"
  by (simp split: if_splits add: expected_event)

lemma instead_raise_event: "raise_event (instead B' B) = raise_event B"
proof (intro ext)
  fix J ftoa al line e s
  show "raise_event (instead B' B) J ftoa al line e s = raise_event B J ftoa al line e s"
    unfolding raise_event_def Let_def instead_event_alert
    by (rule fun_cong [where x = s], rule arg_cong [where f = "bnd (gets fst)"], rule ext, rule bnd_lift_cong)
      (simp only: instead_simps expected_raise)
qed

lemma instead_check_rule: "check_rule (instead B' B) = check_rule B"
  by (intro ext) (simp only: check_rule_def instead_raise_event)

lemma instead_end_query:
  "bnd (lift (end_query J line i r)) (\<lambda>q. bnd (on_snd (myqExec (instead B' B) q a b)) f)
   = bnd (lift (end_query J line i r)) (\<lambda>q. bnd (on_snd (myqExec B q a b)) f)"
  by (rule bnd_lift_cong) (simp only: instead_simps expected_event)

lemma instead_check_open: "check_open (instead B' B) = check_open B"
  by (intro ext) (simp only: check_open_def instead_end_query)

section \<open>The agents\<close>

definition elsewhere :: "'db mysql \<Rightarrow> ('db, 'j) env \<Rightarrow> ('db, 'j) env" where
  "elsewhere B' E = E\<lparr>ev_B := instead B' (ev_B E)\<rparr>"

lemma elsewhere_sel [instead_simps]:
  "ev_B (elsewhere B' E) = instead B' (ev_B E)" "ev_A (elsewhere B' E) = ev_A E" "ev_J (elsewhere B' E) = ev_J E"
  "ev_ftoa (elsewhere B' E) = ev_ftoa E" "ev_now (elsewhere B' E) = ev_now E" "ev_al (elsewhere B' E) = ev_al E"
  "ev_cfg (elsewhere B' E) = ev_cfg E"
  by (simp_all add: elsewhere_def)

lemma expected_agent:
  "expected (Query ''insert into c$ressources(name, origin, data_type) values(%0q:name,%1q:ori,%2q:tbl)''
     [(''name'', x0), (''ori'', x1), (''tbl'', x2)])"
  "expected (Query ''insert into s$ressources(serv_id,res_id) values (%0:srv,%1:res) ON DUPLICATE KEY UPDATE res_id=res_id''
     [(''srv'', x0), (''res'', x1)])"
  "expected (Query ''insert into h$ressources(host_id,res_id) values (%0:host,%1:res) ON DUPLICATE KEY UPDATE res_id=res_id''
     [(''host'', x0), (''res'', x1)])"
  "expected (Query ''insert into agt$history(agt_id, timestamp, failed, missing, parse, ok) values(%0:id,%1:ts,%2:fa,%3:mi,%4:pa,%5:ok) on duplicate key update failed=%2:fa, missing=%3:mi, parse=%4:pa, ok=%5:ok''
     [(''id'', x0), (''ts'', x1), (''fa'', x2), (''mi'', x3), (''pa'', x4), (''ok'', x5)])"
  "expected (Query ''select host, port, pool_freq, use_ssl from c$agents where id=%0:id''
     [(''id'', x0)])"
  "expected (Query ''insert into s$log_events(serv_id, timestamp, event_type, source_name, date_field, line_no, text) values (%0:srv, %1:ts, %2:et, %3q:src, %4q:dm, %5:ln, %6q:txt) ON DUPLICATE KEY UPDATE text=%6q:txt''
     [(''srv'', x0), (''ts'', x1), (''et'', x2), (''src'', x3), (''dm'', x4), (''ln'', x5), (''txt'', x6)])"
  "expected (Query ''insert into s$process(serv_id, name, full_path, cwd, username, pid, status, timestamp) values (%0:srv, %1q:name, %2q:path, %3q:cwd, %4q:user, %5:pid, %6q:stts, %7:ts) ON DUPLICATE KEY UPDATE full_path=%2q:path, cwd=%3q:cwd, username=%4q:user, pid=%5:pid, status=%6q:stts, timestamp=%7:ts''
     [(''srv'', x0), (''name'', x1), (''path'', x2), (''cwd'', x3), (''user'', x4), (''stts'', x5), (''ts'', x6), (''pid'', x7)])"
  "expected (Query ''insert into s$sockets(serv_id, name, status, timestamp) values (%0:srv, %1q:name, %2q:stts, %3:ts) ON DUPLICATE KEY UPDATE status=%2q:stts, timestamp=%3:ts''
     [(''srv'', x0), (''name'', x1), (''stts'', x2), (''ts'', x3)])"
  "expected (Query ''update s$services set type_id=%0:t where id=%1:s''
     [(''t'', x0), (''s'', x1)])"
  "expected (Query ''insert into s$history(serv_id, timestamp, failed, missing, ok) values (%0:s, %1:t, %2:f, 0, %3:o) ON DUPLICATE KEY UPDATE failed=%2:f, ok=%3:o''
     [(''s'', x0), (''t'', x1), (''f'', x2), (''o'', x3)])"
  "expected (Query ''insert into s$history select s.id as serv_id, %0:t as timestamp, 0 as failed, ifnull(p.cnt,0)+ifnull(o.cnt,0) as missing, 0 as ok from s$services s left join (select serv_id, count(*) as cnt from s$process group by serv_id) p on s.id=p.serv_id left join (select serv_id, count(*) as cnt from s$sockets group by serv_id) o on s.id=o.serv_id where s.id not in (select serv_id from s$history where timestamp>=%0:t) and host_id=%1:h''
     [(''t'', x0), (''h'', x1)])"
  "expected (Query ''select id from c$agents where central_id=%0:id''
     [(''id'', x0)])"
  "expected (Query ''insert into b$history(back_id, timestamp, failed, ok) values(%0:id, %1:ts, 0, 1) on duplicate key update failed=0, ok=1''
     [(''id'', x0), (''ts'', x1)])"
  "expected (Query ''insert into b$history select back_id, %0:ts-300000 timestamp, 1 failed, 0 ok from (select max(timestamp) ts, back_id from b$history group by back_id) x where x.ts<%0:ts-600000''
     [(''ts'', x0)])"
  by (simp_all add: expected_simps)

lemma elsewhere_basics [instead_simps]:
  "api_at (elsewhere B' E) = api_at E" "failed_grab (elsewhere B' E) a x m = failed_grab E a x m"
  "load_api (elsewhere B' E) = load_api E" "drop_ressources (elsewhere B' E) = drop_ressources E"
  "read_agent_row (elsewhere B' E) = read_agent_row E" "property_keys (elsewhere B' E) = property_keys E"
proof -
  show api: "api_at (elsewhere B' E) = api_at E" by (intro ext) (simp only: api_at_def instead_simps)
  show "failed_grab (elsewhere B' E) a x m = failed_grab E a x m" "load_api (elsewhere B' E) = load_api E"
    "drop_ressources (elsewhere B' E) = drop_ressources E" "read_agent_row (elsewhere B' E) = read_agent_row E"
    "property_keys (elsewhere B' E) = property_keys E"
    by (intro ext; simp only: failed_grab_def load_api_def drop_ressources_def read_agent_row_def property_keys_def
        instead_simps api)+
qed

lemma elsewhere_links [instead_simps]:
  "add_ressource (elsewhere B' E) = add_ressource E" "link_service (elsewhere B' E) = link_service E"
  "link_host (elsewhere B' E) = link_host E" "update_known (elsewhere B' E) = update_known E"
  "create_client (elsewhere B' E) = create_client E"
  by (intro ext; simp only: add_ressource_def link_service_def link_host_def update_known_def create_client_def
      expected_agent instead_simps cong: branches)+

lemma elsewhere_createRessources [instead_simps]: "createRessources (elsewhere B' E) = createRessources E"
proof -
  have "create_path (elsewhere B' E) = create_path E"
    by (intro ext) (simp only: create_path_def instead_simps cong: branches)
  then have "create_ressource (elsewhere B' E) = create_ressource E"
    by (intro ext) (simp only: create_ressource_def instead_simps cong: branches)
  then show ?thesis by (intro ext) (simp only: createRessources_def instead_simps)
qed

lemma elsewhere_createTables [instead_simps]: "createTables (elsewhere B' E) = createTables E"
proof -
  have ty: "column_type (elsewhere B' E) = column_type E" by (intro ext) (simp only: column_type_def instead_simps)
  have col: "create_column (elsewhere B' E) = create_column E" "add_column (elsewhere B' E) = add_column E"
    by (intro ext; simp only: create_column_def add_column_def ty instead_simps cong: branches)+
  have "create_table (elsewhere B' E) = create_table E"
    by (intro ext) (simp only: create_table_def col instead_simps)
  then have "create_or_extend (elsewhere B' E) = create_or_extend E"
    by (intro ext) (simp only: create_or_extend_def col instead_simps cong: branches)
  then show ?thesis by (intro ext) (simp only: createTables_def instead_simps)
qed

lemma elsewhere_updateApi [instead_simps]:
  "agent_init (elsewhere B' E) = agent_init E" "updateApi (elsewhere B' E) = updateApi E"
proof -
  have "updateCounter (elsewhere B' E) = updateCounter E"
    by (intro ext) (simp only: updateCounter_def expected_agent instead_simps)
  then have ready: "updateApi_ready (elsewhere B' E) = updateApi_ready E"
    by (intro ext) (simp only: updateApi_ready_def instead_simps cong: branches)
  have "agent_config (elsewhere B' E) = agent_config E"
    by (simp only: agent_config_def expected_agent instead_simps)
  with ready show "agent_init (elsewhere B' E) = agent_init E"
    by (simp only: agent_init_def instead_simps cong: branches)
  with ready show "updateApi (elsewhere B' E) = updateApi E" by (simp only: updateApi_def cong: branches)
qed

lemma elsewhere_entries [instead_simps]:
  "log_entry (elsewhere B' E) = log_entry E" "process_entry (elsewhere B' E) = process_entry E"
  "socket_entry (elsewhere B' E) = socket_entry E"
  by (intro ext; simp only: log_entry_def process_entry_def socket_entry_def expected_agent instead_simps cong: branches)+

lemma elsewhere_service [instead_simps]:
  "collect_service (elsewhere B' E) = collect_service E" "missing_history (elsewhere B' E) = missing_history E"
proof -
  have "collect_logs (elsewhere B' E) = collect_logs E" "collect_counts (elsewhere B' E) = collect_counts E"
    "collect_alert (elsewhere B' E) = collect_alert E" "collect_status (elsewhere B' E) = collect_status E"
    by (intro ext; simp only: collect_logs_def collect_counts_def collect_alert_def collect_status_def expected_agent
        instead_simps cong: branches)+
  then show "collect_service (elsewhere B' E) = collect_service E" "missing_history (elsewhere B' E) = missing_history E"
    by (intro ext; simp only: collect_service_def missing_history_def expected_agent instead_simps)+
qed

lemma elsewhere_manager [instead_simps]:
  "updateAgents (elsewhere B' E) = updateAgents E" "manager_init (elsewhere B' E) = manager_init E"
  "main_round (elsewhere B' E) = main_round E" "aggregator_thread (elsewhere B' E) = aggregator_thread E"
proof -
  have "expected (agents_query d)" for d by (simp add: agents_query_def expected_agent expected_plain)
  moreover have "add_agent (elsewhere B' E) = add_agent E"
    by (intro ext) (simp only: add_agent_def instead_simps cong: branches)
  ultimately have "add_agents (elsewhere B' E) = add_agents E" by (intro ext) (simp only: add_agents_def instead_simps)
  then show "updateAgents (elsewhere B' E) = updateAgents E"
    by (simp only: updateAgents_def self_status_def failed_backends_def expected_agent instead_simps cong: branches)
  then show "manager_init (elsewhere B' E) = manager_init E" "main_round (elsewhere B' E) = main_round E"
    by (intro ext; simp only: manager_init_def main_round_def instead_simps)+
  show "aggregator_thread (elsewhere B' E) = aggregator_thread E"
    by (intro ext) (simp only: aggregator_thread_def instead_simps)
qed

section \<open>The whole program\<close>

text \<open>\<open>same P m m'\<close>: from a state with \<open>P\<close> the two programs do the same, and \<open>P\<close> holds afterwards.\<close>

definition same :: "('s \<Rightarrow> bool) \<Rightarrow> ('s, 'a) prog \<Rightarrow> ('s, 'a) prog \<Rightarrow> bool" where
  "same P m m' \<longleftrightarrow> (\<forall>s. P s \<longrightarrow> m' s = m s \<and> P (snd (m s)))"

lemma sameD: "same P m m' \<Longrightarrow> P s \<Longrightarrow> m' s = m s"
  by (simp add: same_def)

lemma same_refl: "keeps P m \<Longrightarrow> same P m m"
  by (simp add: same_def keeps_def)

lemma same_bnd: "same P m m' \<Longrightarrow> (\<And>a. same P (f a) (f' a)) \<Longrightarrow> same P (bnd m f) (bnd m' f')"
  unfolding same_def bnd_def by (auto split: prod.split outcome.split)

lemma same_gets: "(\<And>s. P s \<Longrightarrow> f' (g s) s = f (g s) s \<and> P (snd (f (g s) s))) \<Longrightarrow> same P (bnd (gets g) f) (bnd (gets g) f')"
  by (simp add: same_def bnd_gets)

lemma same_if: "same P m m' \<Longrightarrow> same P n n' \<Longrightarrow> same P (if b then m else n) (if b then m' else n')"
  by simp

lemma same_prod: "(\<And>a b. same P (f a b) (f' a b)) \<Longrightarrow> same P (case x of (a, b) \<Rightarrow> f a b) (case x of (a, b) \<Rightarrow> f' a b)"
  by (simp split: prod.split)

lemma same_for_each: "(\<And>x. x \<in> set xs \<Longrightarrow> same P (f x) (f' x)) \<Longrightarrow> same P (for_each xs f) (for_each xs f')"
  by (induction xs) (auto intro: same_bnd same_refl keeps_intros)

text \<open>The insert statement of every resource is one into a data table.\<close>

definition inserts_ok :: "'j agent \<Rightarrow> bool" where
  "inserts_ok a \<longleftrightarrow> (\<forall>r\<in>set (ressources a). inserts_data (baseInsert r))"

lemma inserts_updateDefs: "inserts_data (baseInsert (updateDefs J d r))"
  by (simp add: inserts_data_def updateDefs_def Let_def)

interpretation data_frame: agent_frame B "\<lambda>w. True" inserts_ok "\<lambda>r. inserts_data (baseInsert r)" for B :: "'db mysql"
  by unfold_locales (auto simp: inserts_ok_def inserts_updateDefs srv_log_free_def keeps_def)

interpretation data_system: system_inv B "\<lambda>w. True" "\<lambda>i. inserts_ok" "\<lambda>r. inserts_data (baseInsert r)" for B :: "'db mysql"
  by unfold_locales (auto simp: inserts_ok_def new_agent_def data_frame.agent_frame_axioms)

lemma same_store_line:
  "same (\<lambda>(r, w). inserts_data (baseInsert r)) (store_line B J line) (store_line (instead B' B) J line)"
proof -
  have "store_line (instead B' B) J line (r, w) = store_line B J line (r, w)" if "inserts_data (baseInsert r)" for r w
  proof -
    have "expected (Query (baseInsert r) vs)" for vs using that by (simp add: expected_def)
    then show ?thesis by (simp only: store_line_def bnd_gets fst_conv instead_simps cong: branches)
  qed
  then show ?thesis using data_frame.keeps_C_steps(3) [of B J line] by (auto simp: same_def keeps_def)
qed

lemma same_parse:
  "same (\<lambda>(r, w). inserts_data (baseInsert r)) (ressource_parse B J ftoa al d) (ressource_parse (instead B' B) J ftoa al d)"
  unfolding ressource_parse_def parse_line_def instead_check_rule instead_check_open
  by (intro same_for_each same_bnd same_store_line same_refl keeps_intros data_frame.keeps_C_steps)

lemma same_on_ressource:
  assumes "same (\<lambda>(r, w). inserts_data (baseInsert r)) m m'" and "i < n"
  shows "same (\<lambda>(a, w). inserts_ok a \<and> length (ressources a) = n) (on_ressource i m) (on_ressource i m')"
  unfolding same_def
proof (intro allI impI)
  fix s :: "'a agent \<times> 'b world" assume s: "case s of (a, w) \<Rightarrow> inserts_ok a \<and> length (ressources a) = n"
  obtain a w where aw: "s = (a, w)" by (rule prod.exhaust)
  obtain x r v where run: "m (ressources a ! i, w) = (x, (r, v))" by (metis surj_pair)
  have "inserts_data (baseInsert (ressources a ! i))" using s aw assms(2) by (simp add: inserts_ok_def)
  then have "m' (ressources a ! i, w) = m (ressources a ! i, w)
      \<and> (case snd (m (ressources a ! i, w)) of (r, w) \<Rightarrow> inserts_data (baseInsert r))"
    using assms(1) by (simp add: same_def)
  then have eq: "m' (ressources a ! i, w) = m (ressources a ! i, w)" and r: "inserts_data (baseInsert r)"
    using run by simp_all
  have "inserts_ok (a\<lparr>ressources := (ressources a)[i := r]\<rparr>)"
    using s aw r set_update_subset_insert [of "ressources a" i r] by (auto simp: inserts_ok_def)
  with s aw run eq show "on_ressource i m' s = on_ressource i m s
      \<and> (case snd (on_ressource i m s) of (a, w) \<Rightarrow> inserts_ok a \<and> length (ressources a) = n)"
    by (simp add: on_ressource_def)
qed

lemma keeps_lift_gets: "keeps P (gets f)" "keeps P (lift x)" by (rule keeps_intros)+

lemma same_collect_data: "same data_frame.Q (collect_data E t d) (collect_data (elsewhere B' E) t d)"
proof -
  have one: "same (\<lambda>(a, w). inserts_ok a \<and> length (ressources a) = n) (collect_ressource E d i) (collect_ressource (elsewhere B' E) d i)"
    if "i < n" for i n
    unfolding collect_ressource_def instead_simps
    by (intro same_bnd same_refl keeps_lift_gets same_on_ressource same_parse that)
  have "same data_frame.Q
      (bnd (gets (\<lambda>(a, w). length (ressources a))) (\<lambda>n. for_each [0..<n] (collect_ressource E d)))
      (bnd (gets (\<lambda>(a, w). length (ressources a))) (\<lambda>n. for_each [0..<n] (collect_ressource (elsewhere B' E) d)))"
  proof (rule same_gets)
    fix s :: "'a agent \<times> 'b world" assume s: "data_frame.Q s"
    let ?n = "case s of (a, w) \<Rightarrow> length (ressources a)"
    have "same (\<lambda>(a, w). inserts_ok a \<and> length (ressources a) = ?n) (for_each [0..<?n] (collect_ressource E d))
      (for_each [0..<?n] (collect_ressource (elsewhere B' E) d))" by (intro same_for_each one) simp
    with s show "for_each [0..<?n] (collect_ressource (elsewhere B' E) d) s = for_each [0..<?n] (collect_ressource E d) s
        \<and> data_frame.Q (snd (for_each [0..<?n] (collect_ressource E d) s))"
      by (auto simp: same_def data_frame.Q_def split: prod.splits)
  qed
  note last = this
  have miss: "keeps data_frame.Q (missing_history E t h)" for h
    unfolding missing_history_def by (intro data_frame.keeps_agent)
  show ?thesis
    unfolding collect_data_def instead_simps
    by (rule same_bnd [OF same_refl], rule keeps_lift_gets,
        rule same_bnd [OF same_refl], intro keeps_intros data_frame.keeps_collect_service [OF refl],
        rule same_bnd [OF same_refl], intro keeps_intros miss, rule last)
qed

lemma keeps_count: "keeps data_frame.Q (on_fst (modify (\<lambda>a. a\<lparr>collectCount := f a\<rparr>)))"
  by (intro data_frame.keeps_parts) (simp add: inserts_ok_def)

lemma same_agent_round: "same data_frame.Q (agent_round E) (agent_round (elsewhere B' E))"
proof -
  have refresh: "refresh (elsewhere B' E) = refresh E" by (simp only: refresh_def instead_simps)
  have refresh_keeps: "keeps data_frame.Q (refresh E)"
    unfolding refresh_def by (intro keeps_intros data_frame.keeps_updateApi [OF refl] keeps_count)
  have "same data_frame.Q (collect E) (collect (elsewhere B' E))"
    unfolding collect_def failed_grab_def Let_def instead_simps
    by (intro same_bnd same_if same_prod same_collect_data) (intro same_refl data_frame.keeps_agent | simp)+
  then have "same data_frame.Q (collect_round E) (collect_round (elsewhere B' E))"
    unfolding collect_round_def by (rule same_bnd) (intro same_refl data_frame.keeps_agent)
  then show ?thesis
    unfolding agent_round_def refresh
    by (intro same_bnd) (intro same_refl refresh_keeps keeps_count)+
qed

lemma same_agent_thread: "data_system.S s \<Longrightarrow> agent_thread (elsewhere B' E) i s = agent_thread E i s"
proof -
  assume S: "data_system.S s"
  obtain m w where s: "s = (m, w)" by (rule prod.exhaust)
  have "agent_round (elsewhere B' E) (a, w) = agent_round E (a, w)" if "map_of (agents m) i = Some a" for a
    using S s that same_agent_round [of E B'] by (auto intro: sameD simp: data_system.S_simp)
  then show ?thesis by (simp add: agent_thread_def on_agent_def s split: option.split)
qed

lemma step_elsewhere: "data_system.S s \<Longrightarrow> backend_step (elsewhere B' E) H s t \<longleftrightarrow> backend_step E H s t"
  using same_agent_thread [of s B' E] by (simp add: backend_step.simps instead_simps)

lemma reach_elsewhere:
  "backend_reach E H me cfgfile s \<Longrightarrow> backend_reach (elsewhere B' E) H me cfgfile s"
proof (induction rule: backend_reach.induct)
  case (start w) then show ?case
    using backend_reach.start [of w "elsewhere B' E" H me cfgfile] by (simp only: instead_simps)
next
  case (step s t)
  have "data_system.S s" by (rule data_system.reach_S [OF step.hyps(1) refl]) simp
  with step show ?case using step_elsewhere backend_reach.step by blast
qed

section \<open>Properties\<close>


end
