(* ===== verification/Restart.thy ===== *)
theory Restart
  imports AgentManager
begin

text \<open>
  \<open>main\<close> of \<open>src/backend.cpp\<close> with the configuration file: the program completes the configuration
  it read, and writes it back (\<open>Config::save\<close>) before and after the manager is initialised. A document
  that has been through this once is not changed by it again.
\<close>

section \<open>Operations\<close>

text \<open>
  \<open>operator<<\<close> of jsoncpp is the argument \<open>wr\<close>; a file that cannot be opened for writing is left
  alone without a word. The file is \<open>None\<close> where it cannot be read.
\<close>

definition Config_save :: "('j \<Rightarrow> string) \<Rightarrow> bool \<Rightarrow> 'j \<Rightarrow> string option \<Rightarrow> string option" where
  "Config_save wr writable data file = (if writable then Some (wr data) else file)"

text \<open>
  The program up to the main loop; the environment of the manager is the section \<open>backend\<close>. Beside
  the outcome and the state, the file as the start leaves it.
\<close>

definition main_start :: "'db mysql \<Rightarrow> 'db asio \<Rightarrow> 'j json_api \<Rightarrow> 'db fs \<Rightarrow> build_paths \<Rightarrow> (string \<Rightarrow> 'db \<Rightarrow> bool) \<Rightarrow>
    (double \<Rightarrow> string) \<Rightarrow> ('db \<Rightarrow> double) \<Rightarrow> 'db host \<Rightarrow> ('j \<Rightarrow> string) \<Rightarrow> bool \<Rightarrow> string \<Rightarrow> string \<Rightarrow> string option \<Rightarrow> 'db \<Rightarrow>
    (unit outcome \<times> 'j manager \<times> 'db world) \<times> string option" where
  "main_start B A J F p opens ftoa now H wr writable me cfgfile file d =
     (case backend_start B J F p opens file d of
        (Ret (data, al), w) \<Rightarrow>
          (let file = Config_save wr writable data file;
               E = (\<lambda>bcfg. \<lparr>ev_B = B, ev_A = A, ev_J = J, ev_ftoa = ftoa, ev_now = now, ev_al = al, ev_cfg = bcfg\<rparr>) in
           case obind (j_at J data ''backend'') (\<lambda>bcfg. obind (getAggregate J data) (\<lambda>data. Ret (bcfg, data))) of
             Ret (bcfg, data) \<Rightarrow> (case manager_init (E bcfg) H me cfgfile (new_manager, w) of
                 (Ret (), s) \<Rightarrow> (startThreads s, Config_save wr writable data file)
               | (x, s) \<Rightarrow> ((x, s), file))
           | x \<Rightarrow> ((obind x (\<lambda>_. Ret ()), new_manager, w), file))
      | (x, w) \<Rightarrow> ((obind x (\<lambda>_. Ret ()), new_manager, w), file))"

text \<open>What the start does to the document, apart from the section \<open>aggregate\<close>.\<close>

definition complete_from :: "'j json_api \<Rightarrow> build_paths \<Rightarrow> 'j \<Rightarrow> 'j outcome" where
  "complete_from J p data =
     obind (j_isMember J data ''backend'') (\<lambda>have.
     obind (if \<not> have then put_member J ''backend'' (ssl_cert_default J p) data
            else default_member J ''backend'' (ssl_cert_default J p) data) (\<lambda>data.
     obind (default_members J ''backend'' (backend_defaults J p) data) (\<lambda>data.
     obind (getDB J data) (\<lambda>data.
     obind (getLog J data) (\<lambda>data.
     obind (obind (j_at J data ''log'') (log_init J (watched_log_file p))) (\<lambda>(log_cfg, level).
     obind (j_put J data ''log'' log_cfg) (\<lambda>data.
     obind (getAlerter J data) (\<lambda>data.
     obind (obind (j_at J data ''alerters'') (alerter_config J p)) (\<lambda>al_cfg.
     j_put J data ''alerters'' al_cfg)))))))))"

definition complete_config :: "'j json_api \<Rightarrow> build_paths \<Rightarrow> string option \<Rightarrow> 'j outcome" where
  "complete_config J p file =
     obind (case file of None \<Rightarrow> Ret (j_null J)
            | Some t \<Rightarrow> (case j_parse J t of None \<Rightarrow> Throw ''Json::RuntimeError'' | Some v \<Rightarrow> Ret v)) (complete_from J p)"

section \<open>Documents\<close>

lemma obind_head: "obind m f = Ret b \<Longrightarrow> \<exists>a. m = Ret a"
  by (cases m) simp_all

text \<open>
  What the start relies on beyond \<^const>\<open>json_laws\<close>: for the documents jsoncpp builds and reads,
  storing a member that is there changes nothing.
\<close>

locale json_stable = json_laws J for J :: "'j json_api" +
  fixes ok :: "'j \<Rightarrow> bool"
  assumes ok_basic: "ok (j_null J)" "ok (j_object J)" "ok (j_of_string J s)" "ok (j_of_int J n)" "ok (j_of_bool J b)"
    and ok_comment: "ok v \<Longrightarrow> ok (j_comment J v t pl)"
    and ok_at: "ok v \<Longrightarrow> j_at J v k = Ret x \<Longrightarrow> ok x"
    and ok_put: "ok v \<Longrightarrow> ok x \<Longrightarrow> j_put J v k x = Ret v' \<Longrightarrow> ok v'"
    and put_there: "ok v \<Longrightarrow> j_isMember J v k = Ret True \<Longrightarrow> j_at J v k = Ret x \<Longrightarrow> j_put J v k x = Ret v"
begin

text \<open>What a step on the section \<open>s\<close> keeps: the other sections, and the members of \<open>s\<close>.\<close>

definition step :: "string \<Rightarrow> 'j \<Rightarrow> 'j \<Rightarrow> bool" where
  "step s d e \<longleftrightarrow> (ok d \<longrightarrow> ok e)
     \<and> (\<forall>s'. s' \<noteq> s \<longrightarrow> j_at J e s' = j_at J d s' \<and> j_isMember J e s' = j_isMember J d s')
     \<and> (\<forall>k. has_member J s k d \<longrightarrow> has_member J s k e)
     \<and> (\<forall>b. j_isMember J d s = Ret b \<longrightarrow> (\<exists>b'. j_isMember J e s = Ret b'))"

lemma step_refl: "step s d d"
  by (simp add: step_def)

lemma step_trans: "step s d e \<Longrightarrow> step s e f \<Longrightarrow> step s d f"
  unfolding step_def by metis

lemma has_member_put:
  assumes "j_at J d s = Ret v" and "j_put J v k x = Ret v'" and "j_put J d s v' = Ret e"
  shows "has_member J s k e" "has_member J s k' d \<Longrightarrow> has_member J s k' e"
  using assms put_same [OF assms(3)] isMember_put [OF assms(2)] by (auto simp: has_member_def)

lemma put_step:
  assumes "j_at J d s = Ret v" and "j_put J v k x = Ret v'" and "j_put J d s v' = Ret e" and "ok x"
  shows "step s d e \<and> has_member J s k e"
proof -
  have "ok e" if "ok d" using that assms ok_at ok_put by metis
  then show ?thesis
    using assms has_member_put [OF assms(1-3)] at_put [OF assms(3)] isMember_put [OF assms(3)]
    by (auto simp: step_def)
qed

lemma default_member_step:
  assumes "default_member J s m d = Ret e" and "ok (fst (snd m))"
  shows "step s d e \<and> has_member J s (fst m) e"
proof -
  obtain k x c where m: "m = (k, x, c)" by (metis prod_cases3)
  from assms(1) obtain v b where v: "j_at J d s = Ret v" "j_isMember J v k = Ret b"
    and e: "(if b then Ret d else put_member J s (k, x, c) d) = Ret e"
    by (auto simp: default_member_def obind_eq_Ret m)
  show ?thesis
  proof (cases b)
    case True with v e m show ?thesis by (auto simp: step_refl has_member_def)
  next
    case False
    with e v(1) m obtain v' where "j_put J v k (j_comment J x c CommentAfterOnSameLine) = Ret v'" "j_put J d s v' = Ret e"
      by (auto simp: put_member_def j_put2_def obind_eq_Ret)
    with put_step [OF v(1) this] assms(2) m ok_comment show ?thesis by simp
  qed
qed

lemma default_members_step:
  "default_members J s ms d = Ret e \<Longrightarrow> (\<forall>m\<in>set ms. ok (fst (snd m))) \<Longrightarrow>
   step s d e \<and> (\<forall>m\<in>set ms. has_member J s (fst m) e)"
proof (induction ms arbitrary: d)
  case Nil then show ?case by (simp add: step_refl)
next
  case (Cons m ms)
  then obtain d' where d': "default_member J s m d = Ret d'" "default_members J s ms d' = Ret e"
    by (auto simp: obind_eq_Ret)
  have "step s d d' \<and> has_member J s (fst m) d'" using default_member_step [OF d'(1)] Cons.prems by simp
  moreover have "step s d' e \<and> (\<forall>m\<in>set ms. has_member J s (fst m) e)" using Cons.IH [OF d'(2)] Cons.prems by simp
  ultimately show ?case using step_trans by (auto simp: step_def)
qed

lemma section_step:
  assumes "section_of J s c d = Ret e"
  shows "step s d e \<and> j_isMember J e s = Ret True"
proof -
  from assms obtain b where b: "j_isMember J d s = Ret b"
    and e: "(if b then Ret d else j_put J d s (j_comment J (j_object J) c CommentBefore)) = Ret e"
    by (auto simp: section_of_def obind_eq_Ret)
  show ?thesis
  proof (cases b)
    case True with b e show ?thesis by (simp add: step_refl)
  next
    case False
    then have e: "j_put J d s (j_comment J (j_object J) c CommentBefore) = Ret e" using e by simp
    have "\<not> has_member J s k d" for k
      using False b at_absent isMember_null by (auto simp: has_member_def)
    moreover have "ok d \<longrightarrow> ok e" using e ok_put ok_basic(2) ok_comment by blast
    ultimately show ?thesis using at_put [OF e] isMember_put [OF e] by (auto simp: step_def)
  qed
qed

lemma member_True: "has_member J s k d \<Longrightarrow> j_isMember J d s = Ret b \<Longrightarrow> b"
  using at_absent isMember_null by (cases b) (auto simp: has_member_def)

text \<open>The configuration of the log and of the alerters, completed once.\<close>

lemma missing_put:
  assumes "(if b then Ret d else j_put J d k x) = Ret e" and "j_isMember J d k = Ret b"
  shows "j_isMember J e k = Ret True" "j_isMember J d k' = Ret True \<Longrightarrow> j_isMember J e k' = Ret True"
    "ok d \<Longrightarrow> ok x \<Longrightarrow> ok e"
proof -
  have "d = e \<and> b \<or> j_put J d k x = Ret e" using assms(1) by (cases b) simp_all
  then show "j_isMember J e k = Ret True" "j_isMember J d k' = Ret True \<Longrightarrow> j_isMember J e k' = Ret True"
    "ok d \<Longrightarrow> ok x \<Longrightarrow> ok e"
    using isMember_put [of d k x e k] isMember_put [of d k x e k'] ok_put [of d x k e] assms(2) by auto
qed

lemma log_init_stable:
  assumes "log_init J f cfg = Ret (cfg', l)" and "ok cfg"
  shows "log_init J f cfg' = Ret (cfg', l) \<and> ok cfg'"
proof -
  let ?file = "j_comment J (j_of_string J f) (''/*'' @ [CHR 0x09, CHR 0x09] @ ''the log file*/'') CommentAfterOnSameLine"
  let ?level = "j_comment J (j_of_string J ''NOTICE'') (''/*'' @ [CHR 0x09, CHR 0x09] @
    ''level to log at (NONE,ERROR,WARN,NOTICE,INFO,DEBUG,ALL)*/'') CommentAfterOnSameLine"
  note run = assms(1) [unfolded log_init_def]
  from obind_head [OF run] obtain b1 where b1: "j_isMember J cfg ''file'' = Ret b1" ..
  note run = run [unfolded b1 obind_simps]
  from obind_head [OF run] obtain c1 where c1: "(if b1 then Ret cfg else j_put J cfg ''file'' ?file) = Ret c1" ..
  note run = run [unfolded c1 obind_simps]
  from obind_head [OF run] obtain b2 where b2: "j_isMember J c1 ''level'' = Ret b2" ..
  note run = run [unfolded b2 obind_simps]
  from obind_head [OF run] obtain c2 where c2: "(if b2 then Ret c1 else j_put J c1 ''level'' ?level) = Ret c2" ..
  note run = run [unfolded c2 obind_simps]
  from obind_head [OF run] obtain v where v: "j_at J c2 ''level'' = Ret v" ..
  note run = run [unfolded v obind_simps]
  from obind_head [OF run] obtain s where s: "j_asString J v = Ret s" ..
  have "obind (j_put J c2 ''level'' (j_of_string J (levels ! unat (chosen_level s)))) (\<lambda>cfg. Ret (cfg, chosen_level s)) = Ret (cfg', l)"
    using run unfolding s obind_simps Let_def .
  then have cfg': "j_put J c2 ''level'' (j_of_string J (levels ! unat (chosen_level s))) = Ret cfg'" and l: "l = chosen_level s"
    by (auto simp: obind_eq_Ret)
  have "j_isMember J c2 ''file'' = Ret True" using missing_put(2) [OF c2 b2 missing_put(1) [OF c1 b1]] .
  then have log_file: "j_isMember J cfg' ''file'' = Ret True" using isMember_put [OF cfg', of "''file''"] by simp
  have level: "j_isMember J cfg' ''level'' = Ret True" "j_at J cfg' ''level'' = Ret (j_of_string J (levels ! unat l))"
    using put_same [OF cfg'] l by simp_all
  have "ok c2" using missing_put(3) [OF c2 b2 missing_put(3) [OF c1 b1 assms(2)]] by (simp add: ok_comment ok_basic)
  then have ok: "ok cfg'" using cfg' ok_put ok_basic(3) by blast
  have "chosen_level (levels ! unat l) = l" using l chosen_level_bound by (simp add: chosen_level_name)
  then have "log_init J f cfg' = obind (j_put J cfg' ''level'' (j_of_string J (levels ! unat l))) (\<lambda>c. Ret (c, l))"
    by (simp add: log_init_def log_file level asString_string)
  also have "\<dots> = Ret (cfg', l)" using put_there [OF ok level] by simp
  finally show ?thesis using ok by simp
qed

lemma alerter_config_stable:
  assumes "alerter_config J p cfg = Ret cfg'" and "ok cfg"
  shows "alerter_config J p cfg' = Ret cfg' \<and> ok cfg'"
proof -
  note def = assms(1) [unfolded alerter_config_def]
  from obind_head [OF def] obtain b1 where b1: "j_isMember J cfg ''alerter_cpp'' = Ret b1" ..
  note def = def [unfolded b1 obind_simps]
  from obind_head [OF def] obtain c1 where c1: "(if b1 then Ret cfg else j_put J cfg ''alerter_cpp'' (j_of_string J (watched_dll_alert p))) = Ret c1" ..
  note def = def [unfolded c1 obind_simps]
  from obind_head [OF def] obtain b2 where b2: "j_isMember J c1 ''alerter_lua'' = Ret b2" ..
  have c2: "(if b2 then Ret c1 else j_put J c1 ''alerter_lua'' (j_of_string J (watched_lua_alert p))) = Ret cfg'"
    using def [unfolded b2 obind_simps] .
  have "j_isMember J cfg' ''alerter_cpp'' = Ret True" using missing_put(2) [OF c2 b2 missing_put(1) [OF c1 b1]] .
  moreover have "j_isMember J cfg' ''alerter_lua'' = Ret True" using missing_put(1) [OF c2 b2] .
  moreover have "ok cfg'" using missing_put(3) [OF c2 b2 missing_put(3) [OF c1 b1 assms(2)]] by (simp add: ok_basic)
  ultimately show ?thesis by (simp add: alerter_config_def)
qed

text \<open>
  The sections of a document the start has been through: they are there, have the members with
  defaults, and the constructors of the log and of the alerters leave theirs as it is.
\<close>

definition settled :: "build_paths \<Rightarrow> 'j \<Rightarrow> bool" where
  "settled p d \<longleftrightarrow> ok d
     \<and> list_all (\<lambda>s. j_isMember J d s = Ret True) [''backend'', ''db'', ''log'', ''alerters'']
     \<and> (\<forall>m\<in>set (ssl_cert_default J p # backend_defaults J p). has_member J ''backend'' (fst m) d)
     \<and> (\<forall>m\<in>set (db_defaults J). has_member J ''db'' (fst m) d)
     \<and> (\<exists>c l. j_at J d ''log'' = Ret c \<and> log_init J (watched_log_file p) c = Ret (c, l))
     \<and> (\<exists>c. j_at J d ''alerters'' = Ret c \<and> alerter_config J p c = Ret c)"

lemma settled_other:
  assumes "settled p d" and "ok e"
    and "\<And>s. s \<in> set [''backend'', ''db'', ''log'', ''alerters''] \<Longrightarrow>
      j_at J e s = j_at J d s \<and> j_isMember J e s = j_isMember J d s"
  shows "settled p e"
  using assms by (simp add: settled_def has_member_def)

lemma settled_complete:
  assumes "settled p d"
  shows "complete_from J p d = Ret d"
proof -
  note d = assms [unfolded settled_def list.pred_inject]
  obtain c l where c: "j_at J d ''log'' = Ret c" "log_init J (watched_log_file p) c = Ret (c, l)" using d by blast
  obtain a where a: "j_at J d ''alerters'' = Ret a" "alerter_config J p a = Ret a" using d by blast
  have "default_members J ''backend'' (ssl_cert_default J p # backend_defaults J p) d = Ret d"
    "default_members J ''db'' (db_defaults J) d = Ret d"
    using d by (intro default_members_noop; simp)+
  moreover then have "default_member J ''backend'' (ssl_cert_default J p) d = Ret d"
    "default_members J ''backend'' (backend_defaults J p) d = Ret d"
    using d default_members_noop [of "[ssl_cert_default J p]"] default_members_noop [of "backend_defaults J p"] by (auto simp: obind_eq_Ret)
  moreover have "j_put J d ''log'' c = Ret d" "j_put J d ''alerters'' a = Ret d" using d c a put_there by blast+
  ultimately show ?thesis
    using d c a by (simp add: complete_from_def getDB_def getLog_def getAlerter_def section_of_def)
qed

text \<open>What the getters of the configuration leave alone.\<close>

lemma step_member: "step s d e \<Longrightarrow> j_isMember J d s = Ret b \<Longrightarrow> has_member J s k e \<Longrightarrow> j_isMember J e s = Ret True"
  unfolding step_def using member_True by (metis (full_types))

lemma step_others:
  "step s d e \<Longrightarrow> s' \<noteq> s \<Longrightarrow> j_at J e s' = j_at J d s'"
  "step s d e \<Longrightarrow> s' \<noteq> s \<Longrightarrow> j_isMember J e s' = j_isMember J d s'"
  by (simp_all add: step_def)

lemma step_ok: "step s d e \<Longrightarrow> ok d \<Longrightarrow> ok e"
  by (simp add: step_def)

lemma backend_settles:
  assumes "j_isMember J d ''backend'' = Ret b"
    and "(if \<not> b then put_member J ''backend'' (ssl_cert_default J p) d
      else default_member J ''backend'' (ssl_cert_default J p) d) = Ret d'"
    and "default_members J ''backend'' (backend_defaults J p) d' = Ret e"
  shows "step ''backend'' d e \<and> j_isMember J e ''backend'' = Ret True
    \<and> (\<forall>m\<in>set (ssl_cert_default J p # backend_defaults J p). has_member J ''backend'' (fst m) e)"
proof -
  have "default_member J ''backend'' (ssl_cert_default J p) d = Ret d'"
    using assms(1,2) at_absent [of d "''backend''"] isMember_null by (cases b) (simp_all add: default_member_def)
  then have "default_members J ''backend'' (ssl_cert_default J p # backend_defaults J p) d = Ret e"
    using assms(3) by simp
  moreover have "\<forall>m\<in>set (ssl_cert_default J p # backend_defaults J p). ok (fst (snd m))"
    by (simp add: ssl_cert_default_def backend_defaults_def ok_basic)
  ultimately have run: "step ''backend'' d e"
      "\<forall>m\<in>set (ssl_cert_default J p # backend_defaults J p). has_member J ''backend'' (fst m) e"
    using default_members_step by blast+
  moreover have "j_isMember J e ''backend'' = Ret True"
    using step_member [OF run(1) assms(1)] run(2) by auto
  ultimately show ?thesis by blast
qed

lemma getDB_settles:
  assumes "getDB J d = Ret e"
  shows "step ''db'' d e \<and> j_isMember J e ''db'' = Ret True \<and> (\<forall>m\<in>set (db_defaults J). has_member J ''db'' (fst m) e)"
proof -
  from obind_head [OF assms [unfolded getDB_def]] obtain d'
    where d': "section_of J ''db'' (doc 1 ''MySQL database informations '') d = Ret d'" ..
  then have run: "default_members J ''db'' (db_defaults J) d' = Ret e" using assms by (simp add: getDB_def)
  have "\<forall>m\<in>set (db_defaults J). ok (fst (snd m))" by (simp add: db_defaults_def ok_basic)
  with default_members_step [OF run] have step: "step ''db'' d' e" "\<forall>m\<in>set (db_defaults J). has_member J ''db'' (fst m) e" by blast+
  note sect = section_step [OF d']
  have "has_member J ''db'' ''login'' e" using step(2) by (simp add: db_defaults_def)
  with step_member [OF step(1)] sect have "j_isMember J e ''db'' = Ret True" by blast
  with step step_trans sect show ?thesis by blast
qed

lemma put_facts:
  assumes "j_put J d s v = Ret e" and "ok d" and "ok v"
  shows "ok e" "j_at J e s = Ret v" "j_isMember J e s = Ret True"
    "s' \<noteq> s \<Longrightarrow> j_at J e s' = j_at J d s'" "s' \<noteq> s \<Longrightarrow> j_isMember J e s' = j_isMember J d s'"
  using ok_put [OF assms(2,3,1)] put_same [OF assms(1)] at_put [OF assms(1)] isMember_put [OF assms(1)] by simp_all

lemma complete_settles:
  assumes "complete_from J p d = Ret e" and "ok d"
  shows "settled p e"
proof -
  note def = assms(1) [unfolded complete_from_def]
  from obind_head [OF def] obtain b where b: "j_isMember J d ''backend'' = Ret b" ..
  note def = def [unfolded b obind_simps]
  from obind_head [OF def] obtain d1 where d1: "(if \<not> b then put_member J ''backend'' (ssl_cert_default J p) d
      else default_member J ''backend'' (ssl_cert_default J p) d) = Ret d1" ..
  note def = def [unfolded d1 obind_simps]
  from obind_head [OF def] obtain d2 where d2: "default_members J ''backend'' (backend_defaults J p) d1 = Ret d2" ..
  note def = def [unfolded d2 obind_simps]
  from obind_head [OF def] obtain d3 where d3: "getDB J d2 = Ret d3" ..
  note def = def [unfolded d3 obind_simps]
  from obind_head [OF def] obtain d4 where d4: "getLog J d3 = Ret d4" ..
  note def = def [unfolded d4 obind_simps]
  from obind_head [OF def] obtain cl where cl: "obind (j_at J d4 ''log'') (log_init J (watched_log_file p)) = Ret cl" ..
  obtain c l where "cl = (c, l)" by (cases cl)
  note cl = cl [unfolded this] and def = def [unfolded cl obind_simps this prod.case]
  from obind_head [OF def] obtain d5 where d5: "j_put J d4 ''log'' c = Ret d5" ..
  note def = def [unfolded d5 obind_simps]
  from obind_head [OF def] obtain d6 where d6: "getAlerter J d5 = Ret d6" ..
  note def = def [unfolded d6 obind_simps]
  from obind_head [OF def] obtain a where a: "obind (j_at J d6 ''alerters'') (alerter_config J p) = Ret a" ..
  have e: "j_put J d6 ''alerters'' a = Ret e" using def [unfolded a obind_simps] .
  note backend = backend_settles [OF b d1 d2] and db = getDB_settles [OF d3]
  have log: "step ''log'' d3 d4" "j_isMember J d4 ''log'' = Ret True"
    and al: "step ''alerters'' d5 d6" "j_isMember J d6 ''alerters'' = Ret True"
    using section_step [OF d4 [unfolded getLog_def]] section_step [OF d6 [unfolded getAlerter_def]] by blast+
  have "ok d4" using backend db log(1) assms(2) step_ok by blast
  obtain c0 where c0: "j_at J d4 ''log'' = Ret c0" "log_init J (watched_log_file p) c0 = Ret (c, l)"
    using cl by (auto simp: obind_eq_Ret)
  note c = log_init_stable [OF c0(2) ok_at [OF \<open>ok d4\<close> c0(1)]]
  note put5 = put_facts [OF d5 \<open>ok d4\<close> conjunct2 [OF c]]
  have "ok d6" using put5(1) al(1) step_ok by blast
  obtain a0 where a0: "j_at J d6 ''alerters'' = Ret a0" "alerter_config J p a0 = Ret a"
    using a by (auto simp: obind_eq_Ret)
  note a = alerter_config_stable [OF a0(2) ok_at [OF \<open>ok d6\<close> a0(1)]]
  note put = put_facts [OF e \<open>ok d6\<close> conjunct2 [OF a]]
  note db_step = conjunct1 [OF db]
  have "j_at J e ''backend'' = j_at J d2 ''backend''" "j_isMember J e ''backend'' = Ret True"
    "j_at J e ''db'' = j_at J d3 ''db''" "j_isMember J e ''db'' = Ret True"
    "j_at J e ''log'' = Ret c" "j_isMember J e ''log'' = Ret True"
    using backend db put put5
    by (simp_all add: step_others [OF db_step] step_others [OF log(1)] step_others [OF al(1)])
  then show ?thesis
    using backend db c a put(1-3) by (simp add: settled_def has_member_def)
qed

text \<open>The section the aggregation asks for is not one of these.\<close>

lemma getAggregate_settled:
  assumes "getAggregate J d = Ret e" and "settled p d"
  shows "settled p e" "getAggregate J e = Ret e"
proof -
  have step: "step ''aggregate'' d e" "j_isMember J e ''aggregate'' = Ret True"
    using section_step assms(1) unfolding getAggregate_def by blast+
  have "ok e" using step(1) assms(2) step_ok by (simp add: settled_def)
  then show "settled p e" by (rule settled_other [OF assms(2)]) (auto simp: step_others [OF step(1)])
  show "getAggregate J e = Ret e" using step(2) by (simp add: getAggregate_def section_of_def)
qed

end

text \<open>jsoncpp with its objects ordered by their keys.\<close>

fun ordered_json :: "json \<Rightarrow> bool" where
  "ordered_json (JObj ms) \<longleftrightarrow> sorted_wrt (<) (map fst ms) \<and> list_all (\<lambda>m. ordered_json (snd m)) ms"
| "ordered_json v \<longleftrightarrow> True"

lemma obj_put_fst: "set (map fst (obj_put ms k x)) = insert k (set (map fst ms))"
  by (induction ms k x rule: obj_put.induct) auto

lemma obj_put_ordered: "ordered_json (JObj ms) \<Longrightarrow> ordered_json x \<Longrightarrow> ordered_json (JObj (obj_put ms k x))"
proof (induction ms k x rule: obj_put.induct)
  case (2 k' y ms k x)
  then show ?case using obj_put_fst [of ms k x] by (auto simp del: set_map)
qed simp

lemma obj_put_there: "sorted_wrt (<) (map fst ms) \<Longrightarrow> map_of ms k = Some x \<Longrightarrow> obj_put ms k x = ms"
proof (induction ms)
  case (Cons m ms)
  show ?case
  proof (cases "fst m = k")
    case True with Cons.prems show ?thesis by (cases m) auto
  next
    case False
    with Cons.prems have "k \<in> fst ` set ms" by (auto intro: map_of_SomeD rev_image_eqI)
    then have "fst m < k" using Cons.prems(1) by auto
    with False Cons show ?thesis by (cases m) auto
  qed
qed simp

interpretation stable_jsoncpp: json_stable jsoncpp ordered_json
proof unfold_locales
  fix v x :: json and k :: string
  assume "ordered_json v" and "j_at jsoncpp v k = Ret x"
  then show "ordered_json x"
    by (cases v) (auto simp: list_all_iff split: option.splits dest!: map_of_SomeD)
next
  fix v x v' :: json and k :: string
  assume "ordered_json v" and "ordered_json x" and "j_put jsoncpp v k x = Ret v'"
  then show "ordered_json v'" using obj_put_ordered by (cases v) auto
next
  fix v x :: json and k :: string
  assume "ordered_json v" and "j_isMember jsoncpp v k = Ret True" and "j_at jsoncpp v k = Ret x"
  then show "j_put jsoncpp v k x = Ret v" by (cases v) (auto simp: obj_put_there)
qed auto

section \<open>The start\<close>

lemma lift_Ret_iff: "lift x s = (Ret a, t) \<longleftrightarrow> x = Ret a \<and> t = s"
  by (auto simp: lift_def)

lemma alerterManager_init_cfg:
  "alerterManager_init B J F p cfg w = (Ret (cfg', al), w') \<Longrightarrow> alerter_config J p cfg = Ret cfg'"
  unfolding alerterManager_init_def bnd_Ret_iff lift_Ret_iff by (auto simp: ret_def)

lemma Config_init_load: "Config_init J p file = Ret data \<longleftrightarrow>
   (\<exists>d b d'. (case file of None \<Rightarrow> Ret (j_null J)
        | Some t \<Rightarrow> (case j_parse J t of None \<Rightarrow> Throw ''Json::RuntimeError'' | Some v \<Rightarrow> Ret v)) = Ret d
      \<and> j_isMember J d ''backend'' = Ret b
      \<and> (if \<not> b then put_member J ''backend'' (ssl_cert_default J p) d
         else default_member J ''backend'' (ssl_cert_default J p) d) = Ret d'
      \<and> default_members J ''backend'' (backend_defaults J p) d' = Ret data)"
  unfolding Config_init_def obind_eq_Ret by blast

lemma backend_start_config:
  assumes "backend_start B J F p opens file d = (Ret (data, al), w)"
  shows "complete_config J p file = Ret data"
proof -
  obtain d2 d3 d4 c l d5 d6 a0 a w1 w2 where
    run: "Config_init J p file = Ret d2" "getDB J d2 = Ret d3" "getLog J d3 = Ret d4"
      "obind (j_at J d4 ''log'') (log_init J (watched_log_file p)) = Ret (c, l)"
      "j_put J d4 ''log'' c = Ret d5" "getAlerter J d5 = Ret d6" "j_at J d6 ''alerters'' = Ret a0"
      "alerterManager_init B J F p a0 w1 = (Ret (a, al), w2)" "j_put J d6 ''alerters'' a = Ret data"
    using assms unfolding backend_start_def Let_def bnd_Ret_iff lift_Ret_iff
    by (auto simp: ret_def bnd_Ret_iff lift_Ret_iff split: prod.splits)
  show ?thesis
    using run(1-7) run(9) alerterManager_init_cfg [OF run(8)]
    unfolding Config_init_load complete_config_def complete_from_def by auto
qed

text \<open>What the start saves is settled.\<close>

lemma main_start_saves:
  assumes stable: "json_stable J ok" and read: "\<And>t v. file = Some t \<Longrightarrow> j_parse J t = Some v \<Longrightarrow> ok v"
    and run: "main_start B A J F p opens ftoa now H wr True me cfgfile file d = ((Ret (), s), file')"
  shows "\<exists>data v. complete_config J p file = Ret data \<and> getAggregate J data = Ret v \<and> file' = Some (wr v)
    \<and> json_stable.settled J ok p v \<and> getAggregate J v = Ret v"
proof -
  obtain data al w where start: "backend_start B J F p opens file d = (Ret (data, al), w)"
    using run unfolding main_start_def by (auto split: prod.splits outcome.splits)
  obtain bcfg v where v: "obind (j_at J data ''backend'') (\<lambda>bcfg. obind (getAggregate J data) (\<lambda>data. Ret (bcfg, data))) = Ret (bcfg, v)"
    using run unfolding main_start_def start by (auto simp: Let_def split: prod.splits outcome.splits)
  then have agg: "getAggregate J data = Ret v" by (auto simp: obind_eq_Ret)
  have file': "file' = Some (wr v)"
    using run unfolding main_start_def start by (simp add: Let_def v Config_save_def split: prod.splits outcome.splits unit.splits)
  note complete = backend_start_config [OF start]
  obtain d0 where d0: "(case file of None \<Rightarrow> Ret (j_null J)
        | Some t \<Rightarrow> (case j_parse J t of None \<Rightarrow> Throw ''Json::RuntimeError'' | Some v \<Rightarrow> Ret v)) = Ret d0"
    "complete_from J p d0 = Ret data"
    using complete by (auto simp: complete_config_def obind_eq_Ret)
  have "ok d0" using d0(1) read json_stable.ok_basic(1) [OF stable] by (auto split: option.splits)
  then have "json_stable.settled J ok p data" by (rule json_stable.complete_settles [OF stable d0(2)])
  with complete agg file' json_stable.getAggregate_settled [OF stable agg] show ?thesis by blast
qed

section \<open>Properties\<close>

text \<open>C15. Restarting changes nothing in the configuration file: once the program has got through its
  start and has saved the completed configuration, any later start, whatever the database, the network
  and the file system do in it and wherever it ends, leaves the file exactly as it is, provided that
  jsoncpp reads back what it wrote.\<close>

theorem restart_keeps_file:
  assumes stable: "json_stable J ok" and read: "\<And>t v. file = Some t \<Longrightarrow> j_parse J t = Some v \<Longrightarrow> ok v"
    and readback: "\<And>data v. complete_config J p file = Ret data \<Longrightarrow> getAggregate J data = Ret v \<Longrightarrow> j_parse J (wr v) = Some v"
    and run: "main_start B A J F p opens ftoa now H wr True me cfgfile file d = ((Ret (), s), file')"
  shows "snd (main_start B2 A2 J F2 p opens2 ftoa2 now2 H2 wr writable me2 cfgfile2 file' d2) = file'"
proof -
  have "\<exists>data v. complete_config J p file = Ret data \<and> getAggregate J data = Ret v \<and> file' = Some (wr v)
      \<and> json_stable.settled J ok p v \<and> getAggregate J v = Ret v"
    by (rule main_start_saves [OF stable read run])
  then obtain data v where v: "complete_config J p file = Ret data" "getAggregate J data = Ret v" "file' = Some (wr v)"
    "json_stable.settled J ok p v" "getAggregate J v = Ret v"
    by blast
  have complete: "complete_config J p file' = Ret v"
    using json_stable.settled_complete [OF stable v(4)] readback [OF v(1,2)] v(3) by (simp add: complete_config_def)
  obtain r w where second: "backend_start B2 J F2 p opens2 (Some (wr v)) d2 = (r, w)" by fastforce
  show ?thesis
  proof (cases r)
    case (Ret x)
    obtain data2 al where x: "x = (data2, al)" by fastforce
    have "data2 = v" using backend_start_config [OF second [unfolded Ret x]] complete v(3) by simp
    then show ?thesis
      by (cases "j_at J v ''backend''")
        (simp_all add: main_start_def v(3,5) second Ret x Config_save_def Let_def split: prod.splits outcome.splits unit.splits)
  qed (simp_all add: main_start_def v(3) second)
qed

text \<open>A first start that completes a short file.\<close>

definition demo_short :: json where
  "demo_short = JObj [(''db'', JObj [(''login'', JStr ''me'')])]"

definition demo_saved :: json where
  "demo_saved = JObj
     [(''aggregate'', JObj []),
      (''alerters'', JObj [(''alerter_cpp'', JStr ''dll''), (''alerter_lua'', JStr ''lua'')]),
      (''backend'', JObj [(''SSL_cert'', JStr ''cert''), (''SSL_key'', JStr ''key''), (''SSL_verify'', JStr ''vrf''),
         (''SSL_verify_name'', JBool True), (''central_id'', JInt (- 1)), (''pool_freq'', JInt 300)]),
      (''db'', JObj [(''connection_string'', JStr ''localhost:3306''), (''database_name'', JStr ''watcheddb''),
         (''login'', JStr ''me''), (''password'', JStr ''watched''), (''pool_size'', JInt 32)]),
      (''log'', JObj [(''file'', JStr ''log''), (''level'', JStr ''NOTICE'')])]"

definition demo_reader :: "json json_api" where
  "demo_reader = jsoncpp\<lparr>j_parse := \<lambda>t. if t = ''short'' then Some demo_short else if t = ''long'' then Some demo_saved else None\<rparr>"

definition demo_writer :: "json \<Rightarrow> string" where
  "demo_writer v = (if v = demo_saved then ''long'' else [])"

definition demo_main :: "string option \<Rightarrow> (unit outcome \<times> json manager \<times> (nat \<Rightarrow> string) world) \<times> string option" where
  "demo_main file = main_start (demo_central NoResult) (pipe 2) demo_reader
     \<lparr>fs_dir = (\<lambda>p d. None), fs_mode = (\<lambda>p d. None), fs_dlopen = (\<lambda>p d. (None, d)), fs_factory = (\<lambda>d. [])\<rparr>
     demo_paths (\<lambda>f d. True) (\<lambda>x. []) (\<lambda>d. 0) demo_host demo_writer True ''back'' ''c.json'' file (\<lambda>_. [])"

lemma parse_fields:
  "j_isMember (J\<lparr>j_parse := f\<rparr>) = j_isMember J" "j_at (J\<lparr>j_parse := f\<rparr>) = j_at J" "j_put (J\<lparr>j_parse := f\<rparr>) = j_put J" "j_asString (J\<lparr>j_parse := f\<rparr>) = j_asString J"
  "j_asInt (J\<lparr>j_parse := f\<rparr>) = j_asInt J" "j_null (J\<lparr>j_parse := f\<rparr>) = j_null J" "j_object (J\<lparr>j_parse := f\<rparr>) = j_object J" "j_of_string (J\<lparr>j_parse := f\<rparr>) = j_of_string J"
  "j_of_int (J\<lparr>j_parse := f\<rparr>) = j_of_int J" "j_of_bool (J\<lparr>j_parse := f\<rparr>) = j_of_bool J" "j_comment (J\<lparr>j_parse := f\<rparr>) = j_comment J"
  by simp_all

lemma json_stable_parse: "json_stable J ok \<Longrightarrow> json_stable (J\<lparr>j_parse := f\<rparr>) ok"
  unfolding json_stable_def json_stable_axioms_def json_laws_def parse_fields .

lemma demo_complete:
  "obind (complete_config demo_reader demo_paths (Some ''short'')) (getAggregate demo_reader) = Ret demo_saved"
  by code_simp

lemma demo_main_run: "fst (fst (demo_main (Some ''short''))) = Ret () \<and> snd (demo_main (Some ''short'')) = Some ''long''"
  by code_simp

theorem restart_keeps_file_witness:
  "snd (demo_main (snd (demo_main (Some ''short'')))) = snd (demo_main (Some ''short''))"
proof -
  obtain s where run: "demo_main (Some ''short'') = ((Ret (), s), Some ''long'')"
    using demo_main_run by (metis prod.collapse)
  have "ordered_json demo_short" by (simp add: demo_short_def)
  then have read: "ordered_json v" if "Some ''short'' = Some t" "j_parse demo_reader t = Some v" for t v
    using that by (simp add: demo_reader_def)
  have readback: "j_parse demo_reader (demo_writer v) = Some v"
    if "complete_config demo_reader demo_paths (Some ''short'') = Ret data" "getAggregate demo_reader data = Ret v" for data v
    using demo_complete that by (simp add: demo_reader_def demo_writer_def)
  have "json_stable demo_reader ordered_json"
    unfolding demo_reader_def by (rule json_stable_parse [OF stable_jsoncpp.json_stable_axioms])
  then have "snd (demo_main (Some ''long'')) = Some ''long''"
    unfolding demo_main_def by (rule restart_keeps_file [OF _ read readback run [unfolded demo_main_def]])
  with run show ?thesis by simp
qed

end
