(* ===== verification/SwsServer.thy ===== *)
theory SwsServer
  imports SwsRequest
begin

text \<open>
  The HTTP server that comes with the client (\<open>sws/server_http.hpp\<close>, \<open>sws/server_https.hpp\<close>): the
  text of a response, reading and parsing a request, finding its resource, answering it, and
  whether the connection is read again. Boost.Asio is the record \<open>A\<close> of \<open>SwsClient\<close>, over an arbitrary
  state of the outside.
\<close>

section \<open>Responses\<close>

text \<open>What a resource function makes of its \<open>Response\<close>: the text in the buffer, and the flag.\<close>

record answer =
  an_text :: string
  close_connection_after_response :: bool

definition write_header :: "multimap \<Rightarrow> nat \<Rightarrow> string" where
  "write_header hs n =
     concat (map (\<lambda>(k, v). k @ '': '' @ v @ crlf) hs) @
     (if n \<noteq> 0 \<and> \<not> list_ex (\<lambda>(k, v). case_insensitive_equal k ''content-length'') hs
      then ''Content-Length: '' @ dec n @ crlf @ crlf else crlf)"

text \<open>The variants of \<open>write\<close>: without content, and with one, from a string or from a stream.\<close>

definition write_status :: "StatusCode \<Rightarrow> multimap \<Rightarrow> string" where
  "write_status st hs = ''HTTP/1.1 '' @ status_code_text st @ crlf @ write_header hs 0"

definition write_content :: "StatusCode \<Rightarrow> string \<Rightarrow> multimap \<Rightarrow> string" where
  "write_content st body hs =
     ''HTTP/1.1 '' @ status_code_text st @ crlf @ write_header hs (length body) @ body"

definition write_success :: "string \<Rightarrow> multimap \<Rightarrow> string" where
  "write_success body hs = write_content 200 body hs"

definition write_header_only :: "multimap \<Rightarrow> string" where
  "write_header_only hs = write_content 200 [] hs"

section \<open>Requests\<close>

record request =
  rq_method :: string
  rq_path :: string
  rq_version :: string
  rq_content :: istream
  rq_header :: multimap
  path_match :: "string list"

definition new_request :: "string \<Rightarrow> request" where
  "new_request b = \<lparr>rq_method = [], rq_path = [], rq_version = [], rq_content = \<lparr>buf = b, bad = False\<rparr>,
     rq_header = [], path_match = []\<rparr>"

definition request_query :: "request \<Rightarrow> multimap" where
  "request_query r = (let pos = str_find (rq_path r) (CHR ''?'') in
     if pos \<noteq> npos \<and> pos + 1 < length (rq_path r) then parse_query_string (drop (pos + 1) (rq_path r)) else [])"

text \<open>\<open>find(c, pos)\<close>.\<close>

definition str_find_at :: "string \<Rightarrow> char \<Rightarrow> nat \<Rightarrow> nat" where
  "str_find_at s c pos = (if length s < pos then npos
     else case find_idx ((=) c) (drop pos s) of None \<Rightarrow> npos | Some i \<Rightarrow> pos + i)"

text \<open>The result is \<open>None\<close> when the loop over the header lines does not end.\<close>

definition parse_request :: "request \<Rightarrow> (bool \<times> request) option" where
  "parse_request r =
    (case getline (rq_content r) [] of (st, line) \<Rightarrow>
     let r = r\<lparr>rq_content := st\<rparr>;
         method_end = str_find line (CHR '' '')
     in if method_end = npos then Some (False, r)
     else let path_end = str_find_at line (CHR '' '') (method_end + 1)
     in if path_end = npos then Some (False, r)
     else let r = r\<lparr>rq_method := take method_end line,
                    rq_path := take (path_end - method_end - 1) (drop (method_end + 1) line)\<rparr>;
              protocol_end = str_find_at line (CHR ''/'') (path_end + 1)
     in if protocol_end = npos then Some (False, r)
     else if take (protocol_end - path_end - 1) (drop (path_end + 1) line) \<noteq> ''HTTP'' then Some (False, r)
     else let r = r\<lparr>rq_version := take (sz (int (length line) - int protocol_end - 2)) (drop (protocol_end + 1) line)\<rparr>
     in case getline st line of (st, line) \<Rightarrow>
        map_option (\<lambda>(st, h). (True, r\<lparr>rq_content := st, rq_header := h\<rparr>)) (header_lines st line (rq_header r)))"

section \<open>The server\<close>

text \<open>
  A resource function works on the outside; the flag says whether it let out an exception derived
  from \<open>std::exception\<close>. A resource is known by the text of its regular expression, which is the key of
  a \<open>std::map\<close>; matching a path with it gives the groups. The callbacks may be missing.
\<close>

type_synonym 'db resource_function = "request \<Rightarrow> 'db \<Rightarrow> (answer \<times> bool) \<times> 'db"

record server_config =
  srv_port :: u16
  thread_pool_size :: nat
  timeout_request :: nat
  timeout_content :: nat
  srv_address :: string
  reuse_address :: bool

record 'db server =
  sv_config :: server_config
  resources :: "(string \<times> (string \<Rightarrow> string list option) \<times> (string \<times> 'db resource_function) list) list"
  default_resource :: "(string \<times> 'db resource_function) list"
  on_error :: "(request \<Rightarrow> string \<Rightarrow> 'db \<Rightarrow> 'db) option"
  on_upgrade :: "(nat \<Rightarrow> request \<Rightarrow> 'db \<Rightarrow> 'db) option"

definition default_server_config :: "u16 \<Rightarrow> server_config" where
  "default_server_config p = \<lparr>srv_port = p, thread_pool_size = 1, timeout_request = 5, timeout_content = 300,
     srv_address = [], reuse_address = True\<rparr>"

definition new_server :: "u16 \<Rightarrow> 'db server" where
  "new_server p = \<lparr>sv_config = default_server_config p, resources = [], default_resource = [],
     on_error = None, on_upgrade = None\<rparr>"

definition server_of :: "u16 \<Rightarrow> nat \<Rightarrow> nat \<Rightarrow> nat \<Rightarrow> 'db server" where
  "server_of p n t_request t_content = (new_server 80)\<lparr>sv_config := (default_server_config 80)\<lparr>srv_port := p,
     thread_pool_size := n, timeout_request := t_request, timeout_content := t_content\<rparr>\<rparr>"

definition server_timer :: "nat \<Rightarrow> nat option" where
  "server_timer seconds = (if seconds = 0 then None else Some seconds)"

definition report :: "'db server \<Rightarrow> request \<Rightarrow> string \<Rightarrow> 'db \<Rightarrow> 'db" where
  "report S r ec d = (case on_error S of None \<Rightarrow> d | Some f \<Rightarrow> f r ec d)"

text \<open>
  Whether the connection is read again behind an answer. \<open>equal_range\<close> visits the entries in an order
  of its own, and the first one that says something decides.
\<close>

definition read_again :: "'db asio \<Rightarrow> answer \<Rightarrow> request \<Rightarrow> bool" where
  "read_again A a r \<longleftrightarrow> \<not> close_connection_after_response a \<and>
     (case filter (\<lambda>v. case_insensitive_equal v ''close'' \<or> case_insensitive_equal v ''keep-alive'')
        (map snd (filter (\<lambda>(k, v). case_insensitive_equal ''Connection'' k) (rq_header r))) of
        [] \<Rightarrow> ''1.1'' \<le> rq_version r
      | vs \<Rightarrow> \<not> case_insensitive_equal (a_pick A vs) ''close'')"

definition server_send :: "'db asio \<Rightarrow> nat option \<Rightarrow> nat \<Rightarrow> answer \<Rightarrow> ('db, string option) prog" where
  "server_send A t s a = (\<lambda>d. case a_write A t s (an_text a) d of (ec, d) \<Rightarrow> (Ret ec, d))"

text \<open>
  The answer is sent when the last reference to the response is gone, also behind an exception. The
  programs below yield whether the connection is read again.
\<close>

definition write_response :: "'db asio \<Rightarrow> 'db server \<Rightarrow> nat \<Rightarrow> request \<Rightarrow> 'db resource_function \<Rightarrow> ('db, bool) prog" where
  "write_response A S s r f = (\<lambda>d.
     case f r d of ((a, thrown), d) \<Rightarrow>
     bnd (server_send A (server_timer (timeout_content (sv_config S))) s a) (\<lambda>ec. case ec of
         Some e \<Rightarrow> bnd (modify (report S r e)) (\<lambda>_. ret False)
       | None \<Rightarrow> ret (read_again A a r))
     (if thrown then report S r ''Operation canceled'' d else d))"

fun find_function :: "(string \<times> (string \<Rightarrow> string list option) \<times> (string \<times> 'db resource_function) list) list \<Rightarrow>
    string \<Rightarrow> string \<Rightarrow> (string list \<times> 'db resource_function) option" where
  "find_function [] method path = None"
| "find_function ((pattern, matches, methods) # rs) method path =
     (case map_of methods method of
        None \<Rightarrow> find_function rs method path
      | Some f \<Rightarrow> (case matches path of
          Some groups \<Rightarrow> Some (groups, f)
        | None \<Rightarrow> find_function rs method path))"

definition find_resource :: "'db asio \<Rightarrow> 'db server \<Rightarrow> nat \<Rightarrow> request \<Rightarrow> ('db, bool) prog" where
  "find_resource A S s r =
     (case (on_upgrade S, header_find (a_pick A) ''Upgrade'' (rq_header r)) of
        (Some f, Some v) \<Rightarrow> bnd (modify (f s r)) (\<lambda>_. ret False)
      | _ \<Rightarrow> (case find_function (resources S) (rq_method r) (rq_path r) of
          Some (groups, f) \<Rightarrow> write_response A S s (r\<lparr>path_match := groups\<rparr>) f
        | None \<Rightarrow> (case map_of (default_resource S) (rq_method r) of
            Some f \<Rightarrow> write_response A S s r f
          | None \<Rightarrow> ret False)))"

text \<open>The content that is not in the buffer yet is read behind the header.\<close>

definition read_content :: "'db asio \<Rightarrow> 'db server \<Rightarrow> nat \<Rightarrow> nat \<Rightarrow> request \<Rightarrow> ('db, bool) prog" where
  "read_content A S s num_additional_bytes r =
     (case header_find (a_pick A) ''Content-Length'' (rq_header r) of
        None \<Rightarrow> find_resource A S s r
      | Some v \<Rightarrow> (case stoul 10 v of
          Ret content_length \<Rightarrow>
            if num_additional_bytes < unat content_length then
              (\<lambda>d. case a_read_exactly A (server_timer (timeout_content (sv_config S))) s
                     (unat content_length - num_additional_bytes) (buf (rq_content r)) d of
                 ((None, b), d) \<Rightarrow> find_resource A S s (r\<lparr>rq_content := (rq_content r)\<lparr>buf := b\<rparr>\<rparr>) d
               | ((Some e, b), d) \<Rightarrow> (Ret False, report S (r\<lparr>rq_content := (rq_content r)\<lparr>buf := b\<rparr>\<rparr>) e d))
            else find_resource A S s r
        | _ \<Rightarrow> (\<lambda>d. (Ret False, report S r ''Protocol error'' d))))"

definition read_request_and_content :: "'db asio \<Rightarrow> 'db server \<Rightarrow> nat \<Rightarrow> ('db, bool) prog" where
  "read_request_and_content A S s = (\<lambda>d.
     case a_read_until A (server_timer (timeout_request (sv_config S))) s (crlf @ crlf) [] d of
       ((Some e, b), d) \<Rightarrow> (Ret False, report S (new_request b) e d)
     | ((None, b), d) \<Rightarrow>
         (case parse_request (new_request b) of
            None \<Rightarrow> (Block, d)
          | Some (False, r) \<Rightarrow> (Ret False, d)
          | Some (True, r) \<Rightarrow> read_content A S s (length b - upto_delim (crlf @ crlf) b) r d))"

text \<open>The first \<open>n\<close> requests of a connection.\<close>

primrec serve :: "nat \<Rightarrow> 'db asio \<Rightarrow> 'db server \<Rightarrow> nat \<Rightarrow> ('db, bool) prog" where
  "serve 0 A S s = ret True"
| "serve (Suc n) A S s = bnd (read_request_and_content A S s) (\<lambda>again. if again then serve n A S s else ret False)"

section \<open>Accepting connections\<close>

text \<open>Whether the next connection is accepted, and whether this one is read again.\<close>

definition accept_http :: "'db asio \<Rightarrow> 'db server \<Rightarrow> nat \<Rightarrow> string option \<Rightarrow> ('db, bool \<times> bool) prog" where
  "accept_http A S s ec =
     (let onward = ec \<noteq> Some ''Operation aborted'' in
      case ec of
        None \<Rightarrow> bnd (read_request_and_content A S s) (\<lambda>again. ret (onward, again))
      | Some e \<Rightarrow> bnd (modify (report S (new_request []) e)) (\<lambda>_. ret (onward, False)))"

definition accept_https :: "'db asio \<Rightarrow> 'db server \<Rightarrow> nat \<Rightarrow> string option \<Rightarrow> ('db, bool \<times> bool) prog" where
  "accept_https A S s ec =
     (let onward = ec \<noteq> Some ''Operation aborted'' in
      case ec of
        None \<Rightarrow> (\<lambda>d. case a_handshake A (server_timer (timeout_request (sv_config S))) s d of
            (None, d) \<Rightarrow> bnd (read_request_and_content A S s) (\<lambda>again. ret (onward, again)) d
          | (Some e, d) \<Rightarrow> (Ret (onward, False), report S (new_request []) e d))
      | Some e \<Rightarrow> bnd (modify (report S (new_request []) e)) (\<lambda>_. ret (onward, False)))"

text \<open>
  What \<open>start\<close> asks of the acceptor: each operation fails with an exception or changes the outside.
  \<open>from_string\<close> reads an address; without one every address of IPv4 will do. The result is the number
  of threads that run handlers.
\<close>

record 'db acceptor =
  from_string :: "string \<Rightarrow> string option"
  ac_open :: "string option \<times> u16 \<Rightarrow> ('db, unit) prog"
  ac_reuse :: "bool \<Rightarrow> ('db, unit) prog"
  ac_bind :: "string option \<times> u16 \<Rightarrow> ('db, unit) prog"
  ac_listen :: "('db, unit) prog"
  ac_accept :: "('db, unit) prog"
  ac_close :: "('db, unit) prog"
  io_stop :: "('db, unit) prog"

definition server_start :: "'db acceptor \<Rightarrow> 'db server \<Rightarrow> ('db, nat) prog" where
  "server_start C S =
    (let cfg = sv_config S in
     bnd (lift (if srv_address cfg = [] then Ret None
                else case from_string C (srv_address cfg) of None \<Rightarrow> Throw ''from_string'' | Some a \<Rightarrow> Ret (Some a))) (\<lambda>addr.
     let endpoint = (addr, srv_port cfg) in
     bnd (ac_open C endpoint) (\<lambda>_.
     bnd (ac_reuse C (reuse_address cfg)) (\<lambda>_.
     bnd (ac_bind C endpoint) (\<lambda>_.
     bnd (ac_listen C) (\<lambda>_.
     bnd (ac_accept C) (\<lambda>_.
     ret (thread_pool_size cfg))))))))"

definition server_stop :: "'db acceptor \<Rightarrow> 'db server \<Rightarrow> ('db, unit) prog" where
  "server_stop C S = bnd (ac_close C) (\<lambda>_. if 0 < thread_pool_size (sv_config S) then io_stop C else ret ())"

text \<open>\<open>Server<HTTPS>\<close>: its security settings, and the context of its session ids, of which OpenSSL takes 32 bytes.\<close>

record server_tls =
  certificate_chain :: string
  private_key :: string
  verify_file :: "string option"

definition https_server_init :: "string \<Rightarrow> string \<Rightarrow> string \<Rightarrow> server_tls" where
  "https_server_init cert_file private_key_file vf =
     \<lparr>certificate_chain = cert_file, private_key = private_key_file,
      verify_file = (if vf = [] then None else Some vf)\<rparr>"

definition session_id_context :: "server_tls \<Rightarrow> server_config \<Rightarrow> string option" where
  "session_id_context t cfg = (case verify_file t of None \<Rightarrow> None
     | Some f \<Rightarrow> Some (take 32 (dec (unat (srv_port cfg)) @ '':'' @ rev (srv_address cfg))))"

end
