(* ===== verification/SwsExchange.thy ===== *)
theory SwsExchange
  imports SwsServer
begin

text \<open>
  The client and the server of \<open>sws/\<close> together: the server reads back the request the client writes,
  the client the answer the server writes, and a client that is connected to a server gets what the
  resource function made.
\<close>

section \<open>The text of a request\<close>

definition sent_path :: "client \<Rightarrow> string \<Rightarrow> string" where
  "sent_path cl path =
    (let path = (if path = [] then ''/'' else path)
     in if proxy_server (cl_config cl) \<noteq> [] \<and> cl_tls cl = None
        then ''http://'' @ cl_host cl @ '':'' @ dec (unat (cl_port cl)) @ path else path)"

definition sent_header :: "client \<Rightarrow> string \<Rightarrow> multimap \<Rightarrow> multimap" where
  "sent_header cl body hs = (''Host'', cl_host cl) # hs @
     (if body = [] then [] else [(''Content-Length'', dec (length body))])"

definition request_line :: "string \<Rightarrow> string \<Rightarrow> string" where
  "request_line m p = m @ CHR '' '' # p @ CHR '' '' # ''HTTP'' @ CHR ''/'' # ''1.1''"

text \<open>What can be sent: no part of the request line or of the header holds a separator.\<close>

definition good_word :: "string \<Rightarrow> bool" where
  "good_word w \<longleftrightarrow> no_lf w \<and> CHR '' '' \<notin> set w"

definition sendable :: "client \<Rightarrow> string \<Rightarrow> string \<Rightarrow> string \<Rightarrow> multimap \<Rightarrow> bool" where
  "sendable cl m p body hs \<longleftrightarrow> good_word m \<and> good_word p \<and> good_word (cl_host cl) \<and> list_all good_header hs
     \<and> list_all (\<lambda>(k, v). \<not> case_insensitive_equal ''Content-Length'' k) hs
     \<and> length m + length p + length (cl_host cl) + length body + 100000 < npos"

lemma length_dec: "length (dec n) \<le> Suc n"
proof (induction n rule: dec.induct)
  case (1 n)
  then show ?case by (subst dec.simps) (cases "n < 10"; simp)
qed

lemma no_lf_dec: "no_lf (dec n)" "CHR '' '' \<notin> set (dec n)"
  using dec_no_char [of "CHR 0x0A" n] dec_no_char [of "CHR '' ''" n] by (auto simp: no_lf_def is_digit_def)

lemma request_text_lines:
  "request_text cl m p body hs
     = lines_text (request_line m (sent_path cl p) # map header_line (sent_header cl body hs)) @ crlf @ body"
  by (simp add: request_text_def create_request_header_def sent_path_def sent_header_def request_line_def
      lines_text_def header_line_def Let_def case_prod_unfold o_def)

lemma sendable_parts:
  assumes "sendable cl m p body hs"
  shows "good_word (sent_path cl p)" "length (sent_path cl p) \<le> length p + length (cl_host cl) + 70000"
    "list_all good_header (sent_header cl body hs)"
proof -
  have "unat (cl_port cl) < 2 ^ 16" using unsigned_less [of "cl_port cl"] by simp
  then show "length (sent_path cl p) \<le> length p + length (cl_host cl) + 70000"
    using length_dec [of "unat (cl_port cl)"] by (simp add: sent_path_def Let_def)
  show "good_word (sent_path cl p)"
    using assms no_lf_dec [of "unat (cl_port cl)"] by (auto simp: sendable_def sent_path_def good_word_def Let_def)
  show "list_all good_header (sent_header cl body hs)"
    using assms no_lf_dec [of "length body"] length_dec [of "length body"]
    by (auto simp: sendable_def sent_header_def good_header_def good_word_def)
qed

section \<open>Parsing it\<close>

lemma str_find_at_stop: "c \<notin> set xs \<Longrightarrow> n = length ys \<Longrightarrow> str_find_at (ys @ xs @ c # zs) c n = n + length xs"
  using find_idx_append_stop [of "(=) c" xs c zs] by (simp add: str_find_at_def list_all_neq_iff)

lemma parse_request_lines:
  assumes m: "good_word m" and p: "good_word p" and hs: "list_all good_header (h # hs)" and len: "length m + length p + 10 < npos"
  shows "parse_request (new_request (lines_text (request_line m p # map header_line (h # hs)) @ crlf @ rest))
    = Some (True, \<lparr>rq_method = m, rq_path = p, rq_version = ''1.1'', rq_content = \<lparr>buf = rest, bad = False\<rparr>,
        rq_header = h # hs, path_match = []\<rparr>)"
proof -
  define L where "L = request_line m p @ [CHR 0x0D]"
  let ?tail = "lines_text (map header_line (h # hs)) @ crlf @ rest"
  have lf: "no_lf (request_line m p)" using m p by (simp add: good_word_def request_line_def)
  have first: "getline \<lparr>buf = lines_text (request_line m p # map header_line (h # hs)) @ crlf @ rest, bad = False\<rparr> []
      = (\<lparr>buf = ?tail, bad = False\<rparr>, L)"
    using getline_crlf [OF lf, of ?tail "[]"] by (simp add: lines_text_def L_def)
  have pos: "str_find L (CHR '' '') = length m" "str_find_at L (CHR '' '') (length m + 1) = length m + 1 + length p"
    "str_find_at L (CHR ''/'') (length m + 1 + length p + 1) = length m + length p + 6"
    using str_find_stop [of "CHR '' ''" m "p @ CHR '' '' # ''HTTP'' @ CHR ''/'' # ''1.1'' @ [CHR 0x0D]"]
      str_find_at_stop [of "CHR '' ''" p "length m + 1" "m @ '' ''" "''HTTP'' @ CHR ''/'' # ''1.1'' @ [CHR 0x0D]"]
      str_find_at_stop [of "CHR ''/''" "''HTTP''" "length m + 1 + length p + 1" "m @ CHR '' '' # p @ '' ''" "''1.1'' @ [CHR 0x0D]"] m p
    by (simp_all add: L_def request_line_def good_word_def)
  have parts: "take (length m) L = m" "take (length p) (drop (length m + 1) L) = p"
    "take 4 (drop (length m + 1 + length p + 1) L) = ''HTTP''"
    "take 3 (drop (length m + length p + 6 + 1) L) = ''1.1''" "length L = length m + length p + 11"
    by (simp_all add: L_def request_line_def numeral_eq_Suc)
  have sz3: "sz 3 = 3" by (simp add: sz_def)
  obtain st ln where second: "getline \<lparr>buf = ?tail, bad = False\<rparr> L = (st, ln)" by fastforce
  have h: "good_header h" "list_all good_header hs" using hs by simp_all
  have tail: "header_lines st ln [] = Some (\<lparr>buf = rest, bad = False\<rparr>, h # hs)"
    using second getline_crlf [OF good_header_line [OF h(1)], of "lines_text (map header_line hs) @ crlf @ rest" L]
      header_lines_text [OF h, of "[]" rest "[]"] by (simp add: lines_text_def)
  have ne: "length m \<noteq> npos" "length m + 1 + length p \<noteq> npos" "length m + length p + 6 \<noteq> npos" using len by simp_all
  show ?thesis
    using parts ne
    by (simp add: parse_request_def new_request_def first [unfolded list.map] pos [simplified] second [unfolded list.map]
        tail sz3 Let_def)
qed

text \<open>What a request looks like to a resource function.\<close>

definition seen :: "client \<Rightarrow> string \<Rightarrow> string \<Rightarrow> string \<Rightarrow> multimap \<Rightarrow> request" where
  "seen cl m p body hs = \<lparr>rq_method = m, rq_path = sent_path cl p, rq_version = ''1.1'',
     rq_content = \<lparr>buf = body, bad = False\<rparr>, rq_header = sent_header cl body hs, path_match = []\<rparr>"

lemma parse_sent:
  assumes "sendable cl m p body hs"
  shows "parse_request (new_request (lines_text (request_line m (sent_path cl p) # map header_line (sent_header cl body hs)) @ crlf @ rest))
    = Some (True, (seen cl m p body hs)\<lparr>rq_content := \<lparr>buf = rest, bad = False\<rparr>\<rparr>)"
proof -
  have "good_word m" "length m + length (sent_path cl p) + 10 < npos"
    using assms sendable_parts(2) [OF assms] by (simp_all add: sendable_def)
  with parse_request_lines [of m "sent_path cl p" "hd (sent_header cl body hs)" "tl (sent_header cl body hs)" rest]
    sendable_parts [OF assms]
  show ?thesis by (simp add: seen_def sent_header_def)
qed

lemma header_line_not_Nil: "header_line h \<noteq> []"
  by (simp add: header_line_def split: prod.split)

lemma sent_lines:
  assumes "sendable cl m p body hs"
  shows "list_all (\<lambda>l. no_lf l \<and> l \<noteq> []) (request_line m (sent_path cl p) # map header_line (sent_header cl body hs))"
proof -
  have "good_word m" using assms by (simp add: sendable_def)
  then have "no_lf (request_line m (sent_path cl p))" "request_line m (sent_path cl p) \<noteq> []"
    using sendable_parts(1) [OF assms] by (simp_all add: request_line_def good_word_def)
  moreover have "list_all (\<lambda>l. no_lf l \<and> l \<noteq> []) (map header_line (sent_header cl body hs))"
    using sendable_parts(3) [OF assms] by (simp add: list_all_iff header_line_not_Nil good_header_line)
  ultimately show ?thesis by simp
qed

lemma sent_upto:
  assumes "sendable cl m p body hs"
  shows "upto_delim (crlf @ crlf) (lines_text (request_line m (sent_path cl p) # map header_line (sent_header cl body hs)) @ crlf @ rest)
    = length (lines_text (request_line m (sent_path cl p) # map header_line (sent_header cl body hs)) @ crlf)"
  using upto_delim_lines [OF _ sent_lines [OF assms], of rest] by simp

lemma lines_delim: "ls \<noteq> [] \<Longrightarrow> has_delim (crlf @ crlf) (lines_text ls @ crlf @ rest)"
proof -
  assume "ls \<noteq> []"
  then have "lines_text ls @ crlf @ rest = (lines_text (butlast ls) @ last ls) @ (crlf @ crlf) @ rest"
    unfolding lines_text_def
    by (subst append_butlast_last_id [of ls, symmetric]) (simp, simp del: append_butlast_last_id)
  then show ?thesis unfolding has_delim_def by blast
qed

lemma sent_length:
  assumes "sendable cl m p body hs" and "\<And>v. pick [v] = v"
  shows "header_find pick ''Content-Length'' (sent_header cl body hs) = (if body = [] then None else Some (dec (length body)))"
proof -
  have "filter (\<lambda>(k, v). case_insensitive_equal ''Content-Length'' k) hs = []"
    using assms(1) by (auto simp: sendable_def list_all_iff filter_empty_conv)
  moreover have "\<not> case_insensitive_equal ''Content-Length'' ''Host''" "case_insensitive_equal ''Content-Length'' ''Content-Length''"
    by (simp_all add: case_insensitive_equal_iff)
  ultimately show ?thesis using assms(2) by (simp add: header_find_def sent_header_def)
qed

section \<open>The server reads what the client sends\<close>

text \<open>Reading from a socket leaves what comes in on the others.\<close>

locale asio_streams = asio_stream A incoming for A :: "'db asio" and incoming +
  assumes until_others: "a_read_until A t s dl b d = (r, d') \<Longrightarrow> s' \<noteq> s \<Longrightarrow> incoming s' d' = incoming s' d"
    and exactly_others: "a_read_exactly A t s n b d = (r, d') \<Longrightarrow> s' \<noteq> s \<Longrightarrow> incoming s' d' = incoming s' d"
begin

lemma read_sent:
  assumes S: "timeout_request (sv_config S) = 0" "timeout_content (sv_config S) = 0"
    and ok: "sendable cl m p body hs" and stream: "incoming s d = request_text cl m p body hs"
  shows "\<exists>d'. incoming s d' = [] \<and> (\<forall>s'. s' \<noteq> s \<longrightarrow> incoming s' d' = incoming s' d)
    \<and> read_request_and_content A S s d = find_resource A S s (seen cl m p body hs) d'"
proof -
  let ?head = "lines_text (request_line m (sent_path cl p) # map header_line (sent_header cl body hs)) @ crlf"
  let ?dl = "crlf @ crlf"
  have wire: "incoming s d = ?head @ body" using stream by (simp add: request_text_lines)
  have notime: "server_timer (timeout_request (sv_config S)) = None" "server_timer (timeout_content (sv_config S)) = None"
    using S by (simp_all add: server_timer_def)
  have "has_delim ?dl ([] @ incoming s d)" unfolding wire using lines_delim by simp
  then obtain k d1 where r1: "a_read_until A None s ?dl [] d = ((None, [] @ take k (incoming s d)), d1)"
    and i1: "incoming s d1 = drop k (incoming s d)" and h1: "has_delim ?dl ([] @ take k (incoming s d))"
    using read_until by blast
  have eq: "([] @ take k (incoming s d)) @ incoming s d1 = ?head @ body"
    by (simp only: i1 append_Nil append_take_drop_id wire)
  have head: "upto_delim ?dl (?head @ rest) = length ?head" for rest using sent_upto [OF ok, of rest] by simp
  from split_at_delim [OF h1 eq head] obtain y where y: "take k (incoming s d) = ?head @ y" "y @ incoming s d1 = body"
    by auto
  let ?r = "(seen cl m p body hs)\<lparr>rq_content := \<lparr>buf = y, bad = False\<rparr>\<rparr>"
  have run: "read_request_and_content A S s d = read_content A S s (length y) ?r d1"
    using r1 parse_sent [OF ok, of y] head [of y] by (simp add: read_request_and_content_def notime y(1))
  have seen: "?r\<lparr>rq_content := (rq_content ?r)\<lparr>buf := body\<rparr>\<rparr> = seen cl m p body hs" by (simp add: seen_def)
  have find: "header_find (a_pick A) ''Content-Length'' (rq_header ?r) = (if body = [] then None else Some (dec (length body)))"
    using sent_length [OF ok, of "a_pick A"] pick by (simp add: seen_def)
  have small: "length body < 2 ^ 64" using ok by (simp add: sendable_def npos_def)
  then have num: "stoul 10 (dec (length body)) = Ret (of_nat (length body))" "unat (of_nat (length body) :: u64) = length body"
    by (simp_all add: stoul_dec unsigned_of_nat take_bit_nat_eq_self)
  show ?thesis
  proof (cases "length y < length body")
    case True
    have n: "length body - length y \<le> length (incoming s d1)" using arg_cong [OF y(2), of length] by simp
    from read_exactly [OF n] obtain d2 where
      r2: "a_read_exactly A None s (length body - length y) y d1 = ((None, y @ take (length body - length y) (incoming s d1)), d2)"
      and i2: "incoming s d2 = drop (length body - length y) (incoming s d1)" by blast
    have all: "length (incoming s d1) = length body - length y" using arg_cong [OF y(2), of length] by simp
    then have "y @ take (length body - length y) (incoming s d1) = body" using y(2) by simp
    with r2 True find num seen notime
    have "read_content A S s (length y) ?r d1 = find_resource A S s (seen cl m p body hs) d2"
      by (auto simp: read_content_def)
    with run i2 all until_others [OF r1] exactly_others [OF r2] show ?thesis by auto
  next
    case False
    then have "incoming s d1 = []" using arg_cong [OF y(2), of length] by (cases "incoming s d1") simp_all
    with y(2) have "y = body" by simp
    moreover have "?r\<lparr>rq_content := \<lparr>buf = body, bad = False\<rparr>\<rparr> = seen cl m p body hs" by (simp add: seen_def)
    ultimately have "read_content A S s (length y) ?r d1 = find_resource A S s (seen cl m p body hs) d1"
      using find num by (auto simp: read_content_def seen_def)
    with run \<open>incoming s d1 = []\<close> until_others [OF r1] show ?thesis by auto
  qed
qed

end

section \<open>The client reads what the server writes\<close>

text \<open>Header entries a resource function may add: none that delimits the body.\<close>

definition plain_header :: "multimap \<Rightarrow> bool" where
  "plain_header hs \<longleftrightarrow> list_all good_header hs
     \<and> list_all (\<lambda>(k, v). \<not> case_insensitive_equal ''Content-Length'' k \<and> \<not> case_insensitive_equal ''Transfer-Encoding'' k
          \<and> \<not> case_insensitive_equal ''Session'' k) hs"

lemma status_text_no_lf: "no_lf (status_code_text st)"
proof -
  have "list_all (no_lf \<circ> snd) status_codes" unfolding status_codes_def by simp
  then have all: "no_lf t" if "(c, t) \<in> set status_codes" for c t using that by (auto simp: list_all_iff)
  have "status_codes ! 0 \<in> set status_codes" by (simp add: status_codes_def)
  then have "no_lf (snd (status_codes ! 0))" using all by (metis prod.collapse)
  moreover have "no_lf t" if "find (\<lambda>(c, t). c = st) status_codes = Some (c, t)" for c t
    using that all by (metis find_Some_iff nth_mem)
  ultimately show ?thesis
    unfolding status_code_text_def by (auto split: option.split)
qed

definition answer_header :: "string \<Rightarrow> multimap \<Rightarrow> multimap" where
  "answer_header body hs = hs @ (if body = [] then [] else [(''Content-Length'', dec (length body))])"

lemma write_content_text:
  assumes "plain_header hs"
  shows "write_content st body hs = head_text ''1.1'' (status_code_text st) (answer_header body hs) @ body"
proof -
  have "\<not> list_ex (\<lambda>(k, v). case_insensitive_equal k ''content-length'') hs"
    using assms by (auto simp: plain_header_def list_ex_iff list_all_iff case_insensitive_equal_iff tolower_def char_eval)
  then show ?thesis
    by (simp add: write_content_def write_header_def head_text_def answer_header_def lines_text_def status_line_def
        header_line_def case_prod_unfold o_def)
qed

lemma answer_framed:
  assumes "plain_header hs" and "length body + 100 < npos"
  shows "good_head ''1.1'' (status_code_text st) (answer_header body hs)" "framed n ''1.1'' (answer_header body hs) body body"
proof -
  show "good_head ''1.1'' (status_code_text st) (answer_header body hs)"
    using assms no_lf_dec [of "length body"] length_dec [of "length body"] status_text_no_lf [of st]
    by (auto simp: good_head_def answer_header_def plain_header_def good_header_def)
  have none: "filter (\<lambda>(k, v). case_insensitive_equal ''Content-Length'' k) hs = []"
    "filter (\<lambda>(k, v). case_insensitive_equal ''Transfer-Encoding'' k) hs = []"
    "filter (\<lambda>(k, v). case_insensitive_equal ''Session'' k) hs = []"
    using assms(1) by (auto simp: plain_header_def list_all_iff filter_empty_conv)
  moreover have "length body < 2 ^ 64" using assms(2) by (simp add: npos_def)
  moreover have "case_insensitive_equal ''Content-Length'' ''Content-Length''" by (simp add: case_insensitive_equal_iff)
  ultimately show "framed n ''1.1'' (answer_header body hs) body body"
    by (cases "body = []") (simp_all add: framed_def answer_header_def)
qed

section \<open>A client connected to a server\<close>

text \<open>
  Two pipes, socket 0 the client's end and socket 1 the server's: what the server writes comes in at the
  client; the client's write comes in at the server, which then handles the request.
\<close>

definition server_end :: "nat \<Rightarrow> (nat \<Rightarrow> string) asio" where
  "server_end seg = (pipe seg)\<lparr>a_write := \<lambda>t s b d. (None, d(0 := d 0 @ b))\<rparr>"

definition client_end :: "nat \<Rightarrow> (nat \<Rightarrow> string) server \<Rightarrow> (nat \<Rightarrow> string) asio" where
  "client_end seg S = (pipe seg)\<lparr>a_write := \<lambda>t s b d.
     (None, snd (read_request_and_content (server_end seg) S 1 (d(1 := d 1 @ b))))\<rparr>"

lemma asio_streams_write: "asio_streams A incoming \<Longrightarrow> asio_streams (A\<lparr>a_write := w\<rparr>) incoming"
proof -
  have same: "a_read_until (A\<lparr>a_write := w\<rparr>) = a_read_until A" "a_read_exactly (A\<lparr>a_write := w\<rparr>) = a_read_exactly A"
    "a_read_all (A\<lparr>a_write := w\<rparr>) = a_read_all A" "a_close (A\<lparr>a_write := w\<rparr>) = a_close A"
    "a_pick (A\<lparr>a_write := w\<rparr>) = a_pick A"
    by simp_all
  show "asio_streams A incoming \<Longrightarrow> asio_streams (A\<lparr>a_write := w\<rparr>) incoming"
    unfolding asio_streams_def asio_streams_axioms_def asio_stream_def same .
qed

interpretation pipe: asio_streams "pipe seg" "\<lambda>s d. d s"
  by unfold_locales (auto simp: pipe_def Let_def split: if_splits)

interpretation server_end: asio_streams "server_end seg" "\<lambda>s d. d s"
  unfolding server_end_def by (rule asio_streams_write [OF pipe.asio_streams_axioms])

interpretation client_end: asio_streams "client_end seg S" "\<lambda>s d. d s"
  unfolding client_end_def by (rule asio_streams_write [OF pipe.asio_streams_axioms])

text \<open>What the server does with the request of a client, and what then comes in at the client.\<close>

lemma server_end_answers:
  assumes S: "timeout_request (sv_config S) = 0" "timeout_content (sv_config S) = 0" "on_upgrade S = None"
    and ok: "sendable cl m p body hs" and wire: "d 1 = request_text cl m p body hs"
    and f: "find_function (resources S) m (sent_path cl p) = Some (groups, f)"
    and answer: "\<And>d. \<exists>d2. f ((seen cl m p body hs)\<lparr>path_match := groups\<rparr>) d = ((a, False), d2) \<and> d2 0 = d 0"
  shows "snd (read_request_and_content (server_end seg) S 1 d) 0 = d 0 @ an_text a"
proof -
  obtain d' where d': "d' 0 = d 0"
    "read_request_and_content (server_end seg) S 1 d = find_resource (server_end seg) S 1 (seen cl m p body hs) d'"
    using server_end.read_sent [where s = 1 and d = d, OF S(1,2) ok wire] by auto
  obtain d2 where "f ((seen cl m p body hs)\<lparr>path_match := groups\<rparr>) d' = ((a, False), d2)" "d2 0 = d' 0"
    using answer by blast
  then have "snd (find_resource (server_end seg) S 1 (seen cl m p body hs) d') 0 = d' 0 @ an_text a"
    using S(3) f by (simp add: find_resource_def write_response_def server_send_def prog_simps server_end_def seen_def)
  with d' show ?thesis by simp
qed

text \<open>Two requests in one piece.\<close>

lemma read_two:
  assumes ok: "sendable cl m p [] hs" and wire: "d s = request_text cl m p [] hs @ rest" and seg: "length rest \<le> seg"
  shows "read_request_and_content (server_end seg) S s d
    = find_resource (server_end seg) S s ((seen cl m p [] hs)\<lparr>rq_content := \<lparr>buf = rest, bad = False\<rparr>\<rparr>) (d(s := []))"
proof -
  let ?head = "lines_text (request_line m (sent_path cl p) # map header_line (sent_header cl [] hs)) @ crlf"
  have d: "d s = ?head @ rest" using wire by (simp add: request_text_lines)
  have "has_delim (crlf @ crlf) (d s)" unfolding d using lines_delim by simp
  moreover have upto: "upto_delim (crlf @ crlf) (?head @ rest) = length ?head" using sent_upto [OF ok, of rest] by simp
  moreover have "take (length ?head + seg) (?head @ rest) = ?head @ rest" "drop (length ?head + seg) (?head @ rest) = []"
    using seg by simp_all
  ultimately have "a_read_until (server_end seg) t s (crlf @ crlf) [] d = ((None, ?head @ rest), d(s := []))" for t
    unfolding d [symmetric] by (simp add: server_end_def pipe_def find_delim_iff Let_def)
  then show ?thesis
    using parse_sent [OF ok, of rest] upto sent_length [OF ok, of hd]
    by (simp add: read_request_and_content_def read_content_def server_end_def pipe_def seen_def)
qed

lemma serve_empty:
  assumes "d 1 = []" and "on_error S = None"
  shows "serve (Suc n) (server_end seg) S 1 d = (Ret False, d)"
proof -
  have "\<not> find_delim (crlf @ crlf) []" by (simp add: find_delim_def crlf_def)
  with assms show ?thesis
    by (simp add: read_request_and_content_def server_end_def pipe_def report_def bnd_def ret_def fun_upd_idem)
qed

subsection \<open>Parsing ends\<close>

lemma header_lines_read:
  assumes "end_ahead b"
  shows "\<exists>r. (case getline \<lparr>buf = b, bad = False\<rparr> l of (st, line) \<Rightarrow> header_lines st line m) = Some r"
proof -
  from assms consider x where "b = crlf @ x" | "has_delim (CHR 0x0A # crlf) b" unfolding end_ahead_def by blast
  then show ?thesis
  proof cases
    case 1 then show ?thesis using getline_crlf [of "[]" x l] by (simp add: header_lines_end)
  next
    case 2
    then obtain l2 b2 where b2: "no_lf l2" "b = l2 @ CHR 0x0A # b2" "end_ahead b2" by (rule end_ahead_step)
    then show ?thesis using getline_line [OF b2(1), of b2 l] header_lines_total [OF b2(3)] by simp
  qed
qed

lemma parse_request_total:
  assumes "has_delim (crlf @ crlf) b"
  shows "\<exists>r. parse_request (new_request b) = Some r"
proof -
  have "has_delim (CHR 0x0A # crlf) b"
    using assms unfolding has_delim_def by (auto simp: crlf_def) (metis append.assoc append_Cons append_Nil)
  then obtain l b' where b: "no_lf l" "b = l @ CHR 0x0A # b'" "end_ahead b'" by (rule end_ahead_step)
  have "getline \<lparr>buf = b, bad = False\<rparr> [] = (\<lparr>buf = b', bad = False\<rparr>, l)"
    using getline_line [OF b(1)] b(2) by simp
  then show ?thesis
    using header_lines_read [OF b(3), where l = l and m = "[]"]
    by (auto simp: parse_request_def new_request_def Let_def split: prod.splits)
qed

subsection \<open>An example\<close>

text \<open>A server with one resource, which says hello, and no time limits.\<close>

definition demo_function :: "(nat \<Rightarrow> string) resource_function" where
  "demo_function r d = ((\<lparr>an_text = write_content 200 ''hello'' [], close_connection_after_response = False\<rparr>, False), d)"

definition demo_server :: "(nat \<Rightarrow> string) server" where
  "demo_server = (new_server 80)\<lparr>
     sv_config := (default_server_config 80)\<lparr>timeout_request := 0, timeout_content := 0\<rparr>,
     resources := [(''^/x$'', \<lambda>p. if p = ''/x'' then Some [p] else None, [(''GET'', demo_function)])]\<rparr>"

lemma demo_server_simps [simp]:
  "timeout_request (sv_config demo_server) = 0" "timeout_content (sv_config demo_server) = 0"
  "on_upgrade demo_server = None" "on_error demo_server = None"
  "find_function (resources demo_server) ''GET'' ''/x'' = Some ([''/x''], demo_function)"
  by (simp_all add: demo_server_def new_server_def)

lemma demo_sendable: "sendable (demo_client cs) ''GET'' ''/x'' [] []" "sendable (demo_client cs) ''POST'' ''/x'' ''abc'' [(''k'', ''v'')]"
  "sent_path (demo_client cs) ''/x'' = ''/x''"
  by (simp_all add: sendable_def good_word_def demo_client_def good_header_def sent_path_def default_config_def
      npos_def case_insensitive_equal_def)

section \<open>Properties\<close>

text \<open>C10. The server reads what the client sends: on a stream of bytes that holds the text of a request,
  whatever pieces it arrives in, the server comes to look for a resource with exactly the method, the
  path, the version, the header entries in order and the content the client was given, and has then
  read the stream to its end.\<close>

theorem server_reads_request:
  assumes "asio_streams A incoming" and "timeout_request (sv_config S) = 0" and "timeout_content (sv_config S) = 0"
    and "sendable cl m p body hs" and "incoming s d = request_text cl m p body hs"
  shows "\<exists>d'. incoming s d' = [] \<and> read_request_and_content A S s d = find_resource A S s
      \<lparr>rq_method = m, rq_path = sent_path cl p, rq_version = ''1.1'', rq_content = \<lparr>buf = body, bad = False\<rparr>,
       rq_header = sent_header cl body hs, path_match = []\<rparr> d'"
  using asio_streams.read_sent [OF assms] by (auto simp: seen_def)

theorem server_reads_request_witness:
  "\<exists>d'. read_request_and_content (pipe 2) demo_server 0 (\<lambda>s. request_text (demo_client []) ''POST'' ''/x'' ''abc'' [(''k'', ''v'')])
    = find_resource (pipe 2) demo_server 0
      \<lparr>rq_method = ''POST'', rq_path = ''/x'', rq_version = ''1.1'', rq_content = \<lparr>buf = ''abc'', bad = False\<rparr>,
       rq_header = [(''Host'', ''a''), (''k'', ''v''), (''Content-Length'', ''3'')], path_match = []\<rparr> d'"
proof -
  have "sent_header (demo_client []) ''abc'' [(''k'', ''v'')] = [(''Host'', ''a''), (''k'', ''v''), (''Content-Length'', ''3'')]"
    by (simp add: sent_header_def demo_client_def dec.simps digit_def char_eval)
  then show ?thesis
    using server_reads_request [where s = 0, OF pipe.asio_streams_axioms [of 2] demo_server_simps(1,2) demo_sendable(2) [of "[]"],
        of "\<lambda>s. request_text (demo_client []) ''POST'' ''/x'' ''abc'' [(''k'', ''v'')]"] demo_sendable(3)
    by auto
qed

text \<open>C9. A server of the library answers a client of the library: when a resource of the server matches
  the path of the request, and its function writes some content, the call of \<open>request\<close> returns exactly
  that content, empty or not, and the connection of the client is free again.\<close>

theorem exchange_delivers:
  assumes S: "timeout_request (sv_config S) = 0" "timeout_content (sv_config S) = 0" "on_upgrade S = None"
    and idle: "connections cl = [c]" "\<not> in_use c" "is_open c" "c_sock c = 0" "timeout (c_config c) = 0"
    and ok: "sendable cl m p [] []" and quiet: "d 0 = []" "d 1 = []"
    and f: "find_function (resources S) m (sent_path cl p) = Some (groups, f)"
    and answer: "\<And>d. \<exists>d2. f ((seen cl m p [] [])\<lparr>path_match := groups\<rparr>) d
        = ((\<lparr>an_text = write_content st body hs, close_connection_after_response = cls\<rparr>, False), d2) \<and> d2 0 = d 0"
    and plain: "plain_header hs" and len: "length body + 100 < npos"
  shows "\<exists>c' d'. sws_request (client_end seg S) m p [] [] (cl, d) = (Ret body, (cl\<lparr>connections := [c']\<rparr>, d')) \<and> \<not> in_use c'"
proof -
  let ?d = "d(1 := d 1 @ request_text cl m p [] [])"
  let ?d1 = "snd (read_request_and_content (server_end seg) S 1 ?d)"
  have wr: "a_write (client_end seg S) None (c_sock c) (request_text cl m p [] []) d = (None, ?d1)"
    by (simp add: client_end_def)
  have "?d1 0 = ?d 0 @ write_content st body hs"
    using server_end_answers [OF S ok _ f answer, of ?d seg] quiet(2) by simp
  then have wire: "?d1 (c_sock c) = head_text ''1.1'' (status_code_text st) (answer_header body hs) @ body"
    using quiet(1) idle(4) write_content_text [OF plain] by simp
  show ?thesis
    by (rule sws_request_body [where incoming = "\<lambda>s d. d s", OF client_end.asio_stream_axioms idle(1,2,3,5) wr answer_framed(1) [OF plain len] wire
        answer_framed(2) [OF plain len]])
qed

theorem exchange_delivers_witness:
  "\<exists>c' d'. sws_request (client_end 2 demo_server) ''GET'' ''/x'' [] [] (demo_client [demo_connection], \<lambda>s. [])
    = (Ret ''hello'', (demo_client [c'], d'))"
proof -
  have "\<exists>d2. demo_function r d = ((\<lparr>an_text = write_content 200 ''hello'' [], close_connection_after_response = False\<rparr>, False), d2)
      \<and> d2 0 = d 0" for r d
    by (simp add: demo_function_def)
  from exchange_delivers [OF demo_server_simps(1-3), of "demo_client [demo_connection]" demo_connection "''GET''" "''/x''" "\<lambda>s. []"
      "[''/x'']" demo_function 200 "''hello''" "[]" False 2, OF _ _ _ _ _ demo_sendable(1) _ _ _ this]
  show ?thesis
    by (auto simp: demo_client_def demo_connection_def default_config_def demo_sendable(3) [unfolded demo_client_def]
        sent_path_def plain_header_def npos_def)
qed

text \<open>A request that arrives together with the one before it is lost: the server reads both into the
  buffer of the first request, whose resource function sees the second one as its content, although
  the header announces none, and starts the next request with an empty buffer. However long the
  connection is kept, the client gets one answer.\<close>

theorem pipelined_request_lost:
  assumes S: "on_upgrade S = None" "on_error S = None"
    and ok: "sendable cl m p [] hs" and wire: "d 1 = request_text cl m p [] hs @ request_text cl m2 p2 body2 hs2"
    and seg: "length (request_text cl m2 p2 body2 hs2) \<le> seg"
    and f: "find_function (resources S) m (sent_path cl p) = Some (groups, f)"
    and answer: "f ((seen cl m p [] hs)\<lparr>rq_content := \<lparr>buf = request_text cl m2 p2 body2 hs2, bad = False\<rparr>, path_match := groups\<rparr>)
        (d(1 := [])) = ((a, False), d2)" "d2 0 = d 0" "d2 1 = []"
  shows "snd (serve (Suc (Suc n)) (server_end seg) S 1 d) 0 = d 0 @ an_text a"
proof -
  have "read_request_and_content (server_end seg) S 1 d = (Ret (read_again (server_end seg) a
      ((seen cl m p [] hs)\<lparr>rq_content := \<lparr>buf = request_text cl m2 p2 body2 hs2, bad = False\<rparr>, path_match := groups\<rparr>)),
      d2(0 := d2 0 @ an_text a))"
    unfolding read_two [where d = d and s = 1, OF ok wire seg]
    using S(1) f answer(1) by (simp add: find_resource_def write_response_def server_send_def prog_simps server_end_def seen_def)
  then show ?thesis
    using serve_empty [where d = "d2(0 := d2 0 @ an_text a)" and S = S and n = n and seg = seg] S(2) answer(2,3)
    by (simp add: bnd_def ret_def)
qed

theorem pipelined_request_lost_witness:
  "snd (serve 2 (server_end 1000) demo_server 1
      (\<lambda>s. if s = 1 then request_text (demo_client []) ''GET'' ''/x'' [] [] @ request_text (demo_client []) ''GET'' ''/x'' [] [] else [])) 0
    = write_content 200 ''hello'' []"
proof -
  let ?t = "request_text (demo_client []) ''GET'' ''/x'' [] []"
  let ?d = "\<lambda>s :: nat. if s = 1 then ?t @ ?t else []"
  have "length ?t \<le> 1000" by (simp add: request_text_def create_request_header_def demo_client_def default_config_def Let_def)
  from pipelined_request_lost [OF demo_server_simps(3,4) demo_sendable(1), of ?d "[]" "''GET''" "''/x''" "[]" "[]" 1000 "[''/x'']"
      demo_function "\<lparr>an_text = write_content 200 ''hello'' [], close_connection_after_response = False\<rparr>" "?d(1 := [])" 0, OF _ this]
  show ?thesis by (simp add: demo_function_def demo_sendable numeral_2_eq_2)
qed

end
