(* ===== verification/Spec2Isabelle.thy ===== *)
theory Spec2Isabelle
  imports Utility PoolRace Events Services Tables Statements Restart SwsExchange
begin

text \<open>
  watched.back: a verification library for the backend of the monitoring system watched.

  \<^bold>\<open>The program.\<close> \<open>main\<close> (\<open>src/backend.cpp\<close>) reads and completes a configuration, opens a pool of
  connections to a MySQL database and a log, finds the alerters, and hands all of that to an
  \<open>agentManager\<close>. The manager asks the database which agents belong to this backend and makes an
  \<open>agentClient\<close> for each: over HTTP or HTTPS it fetches the API document of the agent, creates the
  resources and tables the document describes, and then, in a thread of its own, collects logs, the
  status of services and the values of resources. A \<open>ressourceClient\<close> per resource stores the values,
  compares them with rules, and opens events, of which the \<open>alerterManager\<close> tells everyone concerned
  through plugins and Lua scripts. A \<open>statAggregator\<close> condenses the values per minute, hour and day.
  Objects share the pool, the database and the log, and nothing else.

  \<^bold>\<open>The theories\<close>, in the order of their imports:

  \<^item> \<open>Prelude\<close>: outcomes of a call (a value, an exception, undefined behaviour, waiting for ever),
    programs on a state with sequencing, exceptions and loops, the symbolic execution rules
    \<open>prog_simps\<close>, the rules \<open>keeps_intros\<close> for what a program leaves intact and \<open>quiet_intros\<close> for
    programs that throw nothing, programs on a part of the state, \<open>std::map\<close> as an ordered list.
  \<^item> \<open>CxxString\<close>: \<open>std::string\<close>: searching, \<open>substr\<close> with its exception, \<open>getline\<close>, numbers as text.
  \<^item> \<open>Json\<close>: the interface of jsoncpp the program uses, its laws (locale \<open>json_laws\<close>), and an instance.
  \<^item> \<open>Log\<close>: \<open>src/log.cpp\<close>.
  \<^item> \<open>World\<close>: the state objects share (the server, the pool, who holds a connection, the log, the
    alerts sent), the interface of mysql++, \<open>dbPool\<close> and the macros of \<open>include/backend.h\<close>,
    \<open>dbTools::grab\<close> and \<open>release\<close>.
  \<^item> \<open>DbTools\<close>: the queries of \<open>src/dbTools.cpp\<close>; the locale \<open>keyed_table\<close> states what a table with a
    unique key must do for the look-ups that insert what is missing. \<open>Schema\<close> interprets it on a
    model of the tables of \<open>sql/schema.sql\<close>, auto-increment and collation included.
  \<^item> \<open>Pool\<close>: runs of the pool, operation by operation, and their invariant.
  \<^item> \<open>Config\<close>: the constructor and the getters of class \<open>Config\<close> (\<open>src/config.cpp\<close>).
  \<^item> \<open>Utility\<close>: \<open>sws/utility.hpp\<close> and \<open>sws/status_code.hpp\<close>.
  \<^item> \<open>SwsClient\<close>, \<open>SwsStream\<close>, \<open>SwsRequest\<close>: the HTTP client \<open>sws/client_http.hpp\<close> with its TLS
    variant: definitions; the stream buffer, the locale \<open>asio_stream\<close> of what asio promises of reading,
    with an instance, and parsing; whole requests.
  \<^item> \<open>SwsServer\<close>, \<open>SwsExchange\<close>: the HTTP server \<open>sws/server_http.hpp\<close> with its TLS variant, which comes
    with the client although the program has no use for it; the two ends together over a pair of pipes.
    The locale \<open>asio_streams\<close> extends \<open>asio_stream\<close> to several sockets.
  \<^item> \<open>Http\<close>: class \<open>HttpClient\<close> (\<open>src/config.cpp\<close>).
  \<^item> \<open>Alerter\<close>: \<open>src/alerter.cpp\<close> and the script \<open>luaAlerters/email.lua\<close>; the locale \<open>shared_inv\<close> of an
    invariant of the shared state, which all users of the database respect.
  \<^item> \<open>Ressource\<close>: \<open>src/ressourceClient.cpp\<close>.
  \<^item> \<open>AgentClient\<close>: \<open>src/agentClient.cpp\<close>; the locale \<open>agent_frame\<close> extends \<open>shared_inv\<close> by an invariant
    of the agent.
  \<^item> \<open>Aggregator\<close>: \<open>src/statAggregator.cpp\<close>, and what the columns it computes mean.
  \<^item> \<open>AgentManager\<close>: \<open>src/agentManager.cpp\<close>, the start of the program and its main loop, and the
    relation \<open>backend_step\<close> between states of the whole backend. The locale \<open>system_inv\<close> extends
    \<open>shared_inv\<close> to all agents; it is interpreted for the pool and for the soundness of agents.
  \<^item> \<open>PoolRace\<close>: \<open>grab\<close> and \<open>release\<close> of \<open>dbPool\<close> (\<open>include/backend.h\<close>) as several threads run them, every single
    access to \<open>usedCount\<close> a step of the relation \<open>race_step\<close>.
  \<^item> \<open>Events\<close>: an ideal monitor, which is the abstract specification of \<open>ressourceClient::parse\<close>, and
    the simulation between the two; the locale \<open>event_ids\<close> states what it needs of the ids of events,
    and is interpreted with a server that numbers the rows of its event table.
  \<^item> \<open>Templates\<close>: the parameters of mysql++ templates (\<open>%0q\<close>, \<open>%1:name\<close>), and the insert statement
    of \<open>baseInit\<close> and \<open>parse\<close> as a text that reads back.
  \<^item> \<open>Statements\<close>: what the backend asks of the database: on two servers that differ only in the
    answers to statements with parameters of no value, the whole program does the same. The locale
    \<open>agent_frame\<close> has for this a condition on the resources of an agent as an argument.
  \<^item> \<open>Services\<close>: what \<open>collect\<close> of \<open>src/agentClient.cpp\<close> counts for a service.
  \<^item> \<open>Tables\<close>: the columns \<open>createTables\<close> of \<open>src/agentClient.cpp\<close> makes against the columns the
    insert statement names.
  \<^item> \<open>Restart\<close>: \<open>Config::save\<close>, the start of \<open>main\<close> with the configuration file, and the locale
    \<open>json_stable\<close> of documents in which storing a member again changes nothing, which extends
    \<open>json_laws\<close> and is interpreted with objects ordered by their keys.

  Definitions carry the names of the functions they model. The state of an object is a record with
  the members of its class; a member function is a program on the pair of that record and the
  shared state. Several steps of a long function are definitions of their own, composed in the order
  of the code; conditions, early returns and \<open>catch\<close> clauses are branches. Machine integers are words
  of their width and wrap. A \<open>double\<close> is a rational number: of arithmetic on them the program only
  compares, truncates and adds, and \<open>asFloat\<close> is part of the interface of jsoncpp. SQL texts are the
  texts of the code, with the values bound to them; what the database answers is a parameter.

  \<^bold>\<open>What the lemmas show.\<close> The properties of the program, each under a heading \<open>C\<close> and a number, cover:
  the whole backend (the pool is never counted out of bounds, no thread runs without a client, what
  happens to agents that failed to start); the pool, under threads too; look-ups that insert (they return the id of the
  one row with that key, twice the same); requests (the body is delivered, at most two connections,
  parsing ends, what malformed and interrupted responses do, the server reads the request and the
  client its answer); events (never two for one rule, one
  alert each, silence while they last, what happens at their end, the refinement of the ideal monitor);
  statements (all their parameters have values, the insert reads back, the columns it names exist);
  the counts of services; aggregation (levels computed from
  levels equal levels computed from samples, purging only behind a successful aggregate); alerts; the
  completion of the configuration, and that a restart leaves the file it saved alone; the log. Where the code does not do what it means to, the property
  states what it does.

  \<^bold>\<open>Bounds and fuel.\<close> \<open>connect\<close> takes the number of nested connects as fuel, 2 in the model: a third is
  impossible, as proved by \<open>connect_at_most_twice\<close>. Loops over header lines are \<open>None\<close> when they do
  not end; with the end of the header in the buffer they do (\<open>parse_response_header_ends\<close>). Reading
  chunks takes the number of chunks the peer sends as bound. The loops of threads are unbounded:
  rounds are steps of a relation, and the first \<open>n\<close> rounds of an agent are a function of \<open>n\<close>.

  \<^bold>\<open>Not modelled.\<close> Threads are interleaved by whole rounds, so races inside a round are out of reach,
  apart from the pool, whose operations are also interleaved one by one (\<open>Pool\<close>), and its counter,
  whose accesses are (\<open>PoolRace\<close>). The name of the host, the signal handler (it prints) and the destructors are left
  out. mysql++, jsoncpp, asio, OpenSSL, the dynamic loader and Lua are parameters with documented
  laws. Of the HTTP client the overloads
  of \<open>request\<close> with a callback or a stream are left out, of the server the address of the peer;
  \<open>include/selene\<close> is a third-party binding; of \<open>sql/schema.sql\<close> only keys, auto-increment ids and the
  event types are modelled, not the views.
\<close>

end
